(* ===== verification/Hub_Prelude.thy ===== *)
theory Hub_Prelude
  imports Complex_Main "HOL-Library.Word" "HOL-Library.Char_ord"
    "HOL-Library.List_Lexorder" "HOL-Library.Product_Lexorder" "HOL-Library.AList"
begin

text \<open>
  Shared vocabulary of the development: the types that stand for Python's values, the
  semantics of the SQL statements that \<open>lxmf_hub/store.py\<close> sends to SQLite, and the
  generic lemmas about tables (lists of rows with a key) that carry the component proofs.

  \<^item> A Python \<open>bytes\<close> value is a list of 8-bit words. \<open>HOL-Library.List_Lexorder\<close> orders
    such lists exactly as Python compares \<open>bytes\<close>: lexicographically, unsigned, a proper
    prefix first.
  \<^item> A Python \<open>str\<close> is an Isabelle \<open>string\<close>, read as ASCII text.
  \<^item> A Python \<open>float\<close> holding a time or a number of tokens is a \<open>real\<close>: rounding is not
    modelled. \<open>HOL-Library.Product_Lexorder\<close> gives tuples Python's order.
\<close>

section \<open>Values\<close>

type_synonym byte = "8 word"
type_synonym bytes = "byte list"
type_synonym time = real

text \<open>Collections that the component theories extend and their proofs simplify with.\<close>

named_theorems sql_simps \<open>effect of a statement on lookups\<close>
named_theorems keys_intros \<open>statements keep the key column distinct\<close>
named_theorems store_defs \<open>definitions of the store operations\<close>

section \<open>Tables\<close>

text \<open>
  A table is a list of rows in rowid order; a primary key or a unique index is a function
  of the row whose values are distinct. The operations are the statement forms of
  \<open>store.py\<close>: plain \<open>INSERT\<close> (which raises \<open>IntegrityError\<close> on a clash),
  \<open>INSERT OR IGNORE\<close>, \<open>INSERT ... ON CONFLICT DO UPDATE\<close>, \<open>DELETE\<close>, \<open>UPDATE\<close> and the
  single-row \<open>SELECT\<close>.
\<close>

definition has_key :: "('r \<Rightarrow> 'k) \<Rightarrow> 'k \<Rightarrow> 'r list \<Rightarrow> bool" where
  "has_key key k rows \<longleftrightarrow> k \<in> key ` set rows"

definition sql_insert :: "('r \<Rightarrow> 'k) \<Rightarrow> 'r \<Rightarrow> 'r list \<Rightarrow> 'r list option" where
  "sql_insert key r rows = (if has_key key (key r) rows then None else Some (rows @ [r]))"

definition sql_ignore :: "('r \<Rightarrow> 'k) \<Rightarrow> 'r \<Rightarrow> 'r list \<Rightarrow> bool \<times> 'r list" where
  "sql_ignore key r rows =
     (if has_key key (key r) rows then (False, rows) else (True, rows @ [r]))"

definition sql_upsert :: "('r \<Rightarrow> 'k) \<Rightarrow> ('r \<Rightarrow> 'r \<Rightarrow> 'r) \<Rightarrow> 'r \<Rightarrow> 'r list \<Rightarrow> 'r list" where
  "sql_upsert key upd r rows =
     (if has_key key (key r) rows
      then map (\<lambda>x. if key x = key r then upd x r else x) rows
      else rows @ [r])"

definition sql_delete :: "('r \<Rightarrow> bool) \<Rightarrow> 'r list \<Rightarrow> 'r list" where
  "sql_delete P rows = filter (\<lambda>r. \<not> P r) rows"

definition sql_update :: "('r \<Rightarrow> bool) \<Rightarrow> ('r \<Rightarrow> 'r) \<Rightarrow> 'r list \<Rightarrow> 'r list" where
  "sql_update P f rows = map (\<lambda>r. if P r then f r else r) rows"

definition sql_lookup :: "('r \<Rightarrow> 'k) \<Rightarrow> 'k \<Rightarrow> 'r list \<Rightarrow> 'r option" where
  "sql_lookup key k rows = find (\<lambda>r. key r = k) rows"

definition keys_distinct :: "('r \<Rightarrow> 'k) \<Rightarrow> 'r list \<Rightarrow> bool" where
  "keys_distinct key rows \<longleftrightarrow> distinct (map key rows)"

subsection \<open>Lookups\<close>

lemma sql_lookup_None: "sql_lookup key k rows = None \<longleftrightarrow> \<not> has_key key k rows"
  by (auto simp: sql_lookup_def has_key_def find_None_iff)

lemma sql_lookup_SomeD: "sql_lookup key k rows = Some r \<Longrightarrow> r \<in> set rows \<and> key r = k"
  by (auto simp: sql_lookup_def find_Some_iff)

lemma sql_lookup_in: "keys_distinct key rows \<Longrightarrow> r \<in> set rows \<Longrightarrow> sql_lookup key (key r) rows = Some r"
  unfolding sql_lookup_def keys_distinct_def
  by (induction rows) (auto simp: rev_image_eqI)

lemma sql_lookup_iff:
  "keys_distinct key rows \<Longrightarrow> sql_lookup key k rows = Some r \<longleftrightarrow> r \<in> set rows \<and> key r = k"
  using sql_lookup_SomeD sql_lookup_in by metis

lemma has_key_iff_lookup: "has_key key k rows \<longleftrightarrow> (\<exists>r. sql_lookup key k rows = Some r)"
  using sql_lookup_None [of key k rows] by auto

lemma sql_lookup_append: "sql_lookup key k (xs @ ys) =
    (case sql_lookup key k xs of None \<Rightarrow> sql_lookup key k ys | Some r \<Rightarrow> Some r)"
  by (induction xs) (auto simp: sql_lookup_def)

lemma sql_lookup_Cons [sql_simps]:
  "sql_lookup key k (r # rows) = (if key r = k then Some r else sql_lookup key k rows)"
  by (simp add: sql_lookup_def)

lemma sql_lookup_Nil [simp]: "sql_lookup key k [] = None"
  by (simp add: sql_lookup_def)

lemma sql_lookup_upsert [sql_simps]:
  assumes "\<And>x. key x = key r \<Longrightarrow> key (upd x r) = key r"
  shows "sql_lookup key k (sql_upsert key upd r rows) =
    (if k = key r then Some (case sql_lookup key k rows of None \<Rightarrow> r | Some x \<Rightarrow> upd x r)
     else sql_lookup key k rows)"
proof (cases "has_key key (key r) rows")
  case True
  have "sql_lookup key k (map (\<lambda>x. if key x = key r then upd x r else x) rows) =
    (if k = key r then map_option (\<lambda>x. upd x r) (sql_lookup key k rows)
     else sql_lookup key k rows)"
    using assms by (induction rows) (auto simp: sql_simps)
  moreover obtain x where "sql_lookup key (key r) rows = Some x"
    using True by (auto simp: has_key_iff_lookup)
  ultimately show ?thesis
    using True by (auto simp: sql_upsert_def)
next
  case False
  then have "sql_lookup key (key r) rows = None"
    by (simp add: sql_lookup_None)
  then show ?thesis
    using False
    by (auto simp: sql_upsert_def sql_lookup_append sql_simps split: option.splits)
qed

lemma sql_lookup_update [sql_simps]:
  assumes "\<And>x. key (f x) = key x"
  shows "sql_lookup key k (sql_update P f rows) =
    map_option (\<lambda>x. if P x then f x else x) (sql_lookup key k rows)"
  using assms by (induction rows) (auto simp: sql_update_def sql_simps)

lemma sql_lookup_delete [sql_simps]:
  assumes "keys_distinct key rows"
  shows "sql_lookup key k (sql_delete P rows) =
    (case sql_lookup key k rows of None \<Rightarrow> None | Some x \<Rightarrow> if P x then None else Some x)"
  using assms
proof (induction rows)
  case Nil
  then show ?case by (simp add: sql_delete_def)
next
  case (Cons x rows)
  then have "keys_distinct key rows" and "key x \<notin> key ` set rows"
    by (auto simp: keys_distinct_def)
  then have "key x = k \<Longrightarrow> sql_lookup key k (sql_delete P rows) = None"
    by (auto simp: sql_lookup_None has_key_def sql_delete_def)
  with Cons.IH \<open>keys_distinct key rows\<close> show ?case
    by (auto simp: sql_delete_def sql_simps)
qed

subsection \<open>Membership and keys after a statement\<close>

lemma sql_delete_set [simp]: "set (sql_delete P rows) = {r \<in> set rows. \<not> P r}"
  by (auto simp: sql_delete_def)

lemma sql_update_set [simp]: "set (sql_update P f rows) = (\<lambda>r. if P r then f r else r) ` set rows"
  by (simp add: sql_update_def)

lemma sql_update_map [simp]:
  "(\<And>r. g (f r) = g r) \<Longrightarrow> map g (sql_update P f rows) = map g rows"
  by (simp add: sql_update_def)

lemma sql_ignore_snd [simp]:
  "sql_ignore key r rows = (b, rows') \<Longrightarrow> b \<longleftrightarrow> \<not> has_key key (key r) rows"
  by (auto simp: sql_ignore_def split: if_splits)

lemma map_key_upsert:
  assumes "\<And>x. key x = key r \<Longrightarrow> key (upd x r) = key r"
  shows "map key (sql_upsert key upd r rows) =
    (if has_key key (key r) rows then map key rows else map key rows @ [key r])"
proof -
  have "map key (map (\<lambda>x. if key x = key r then upd x r else x) rows) = map key rows"
    by (induction rows) (simp_all add: assms)
  then show ?thesis
    by (simp add: sql_upsert_def)
qed

lemma keys_distinct_Nil [simp, intro]: "keys_distinct key []"
  by (simp add: keys_distinct_def)

lemma keys_distinct_snoc [simp]:
  "keys_distinct key (rows @ [r]) \<longleftrightarrow> keys_distinct key rows \<and> \<not> has_key key (key r) rows"
  by (auto simp: keys_distinct_def has_key_def)

lemma keys_distinct_ignore [keys_intros]:
  "keys_distinct key rows \<Longrightarrow> keys_distinct key (snd (sql_ignore key r rows))"
  by (simp add: sql_ignore_def)

lemma keys_distinct_insert:
  "sql_insert key r rows = Some rows' \<Longrightarrow> keys_distinct key rows \<Longrightarrow> keys_distinct key rows'"
  by (auto simp: sql_insert_def split: if_splits)

lemma keys_distinct_delete [keys_intros]:
  "keys_distinct key rows \<Longrightarrow> keys_distinct key (sql_delete P rows)"
  by (simp add: keys_distinct_def sql_delete_def distinct_map_filter)

lemma keys_distinct_update [keys_intros]:
  "(\<And>r. key (f r) = key r) \<Longrightarrow> keys_distinct key rows \<Longrightarrow> keys_distinct key (sql_update P f rows)"
  by (simp add: keys_distinct_def)

lemma keys_distinct_upsert [keys_intros]:
  "(\<And>x. key x = key r \<Longrightarrow> key (upd x r) = key r) \<Longrightarrow> keys_distinct key rows \<Longrightarrow>
   keys_distinct key (sql_upsert key upd r rows)"
  by (auto simp: keys_distinct_def map_key_upsert has_key_def)

section \<open>Dictionaries\<close>

text \<open>
  A Python dictionary whose order matters is an association list: assigning to a key that is
  there keeps its position, a new key goes to the end (\<open>AList.update\<close>).
\<close>

definition dict_of :: "('k \<times> 'v) list \<Rightarrow> ('k \<times> 'v) list" where
  "dict_of ps = fold (\<lambda>(k, v) d. AList.update k v d) ps []"

lemma map_of_dict_fold:
  "map_of (fold (\<lambda>(k, v) d. AList.update k v d) ps d) k =
     (case map_of (rev ps) k of None \<Rightarrow> map_of d k | Some v \<Rightarrow> Some v)"
  by (induction ps arbitrary: d) (auto simp: update_conv map_add_def split: option.splits)

lemma map_of_dict_of: "map_of (dict_of ps) k = map_of (rev ps) k"
  by (auto simp: dict_of_def map_of_dict_fold split: option.splits)

lemma map_of_pairs: "map_of (map (\<lambda>x. (x, f x)) xs) k = (if k \<in> set xs then Some (f k) else None)"
  by (induction xs) auto

lemma distinct_dict_of [simp]: "distinct (map fst (dict_of ps))"
proof -
  have "distinct (map fst (fold (\<lambda>(k, v) d. AList.update k v d) ps d))" if "distinct (map fst d)"
    for d :: "('a \<times> 'b) list"
    using that by (induction ps arbitrary: d) (auto simp: distinct_update)
  then show ?thesis by (simp add: dict_of_def)
qed

lemma keys_dict_of [simp]: "fst ` set (dict_of ps) = fst ` set ps"
proof -
  have "dom (map_of (dict_of ps)) = dom (map_of (rev ps))"
    using map_of_dict_of [of ps] by (simp add: dom_def)
  then show ?thesis by (simp add: dom_map_of_conv_image_fst)
qed

lemma update_new_key: "k \<notin> fst ` set d \<Longrightarrow> AList.update k v d = d @ [(k, v)]"
  by (induction d) auto

lemma dict_of_distinct:
  "distinct (map fst ps) \<Longrightarrow> dict_of ps = ps"
proof -
  have "distinct (map fst (d @ ps)) \<Longrightarrow> fold (\<lambda>(k, v) d. AList.update k v d) ps d = d @ ps"
    for d :: "('a \<times> 'b) list"
  proof (induction ps arbitrary: d)
    case (Cons p ps)
    have "AList.update (fst p) (snd p) d = d @ [p]"
      using Cons.prems update_new_key [of "fst p" d "snd p"] by auto
    with Cons show ?case by (cases p) auto
  qed simp
  from this [of "[]"] show "distinct (map fst ps) \<Longrightarrow> dict_of ps = ps"
    by (simp add: dict_of_def)
qed

section \<open>Batches\<close>

text \<open>
  \<open>_chunks\<close> of \<open>store.py\<close> and \<open>_chunked\<close> of \<open>federation.py\<close>: consecutive slices of a
  list. Python's \<open>range\<close> refuses a step of 0; every caller passes a positive size, and the
  one size that comes from the configuration is guarded where it is used.
\<close>

function chunks :: "nat \<Rightarrow> 'a list \<Rightarrow> 'a list list" where
  "chunks n xs = (if n = 0 \<or> xs = [] then [] else take n xs # chunks n (drop n xs))"
  by pat_completeness auto
termination
  by (relation "measure (\<lambda>(n, xs). length xs)") auto

declare chunks.simps [simp del]

lemma concat_chunks: "0 < n \<Longrightarrow> concat (chunks n xs) = xs"
proof (induction n xs rule: chunks.induct)
  case (1 n xs)
  then show ?case by (subst chunks.simps) auto
qed

lemma chunks_length: "c \<in> set (chunks n xs) \<Longrightarrow> c \<noteq> [] \<and> length c \<le> n"
proof (induction n xs rule: chunks.induct)
  case (1 n xs)
  then show ?case
    by (subst (asm) (2) chunks.simps) (auto split: if_splits)
qed

lemma set_chunks: "0 < n \<Longrightarrow> (\<Union>c \<in> set (chunks n xs). set c) = set xs"
  by (metis concat_chunks set_concat)

section \<open>Text\<close>

text \<open>\<open>bytes.hex()\<close> and the decimal rendering of an \<open>int\<close> in an f-string.\<close>

definition hex_digit :: "nat \<Rightarrow> char" where
  "hex_digit n = (if n < 10 then char_of (48 + n) else char_of (87 + n))"

definition hex_of_byte :: "byte \<Rightarrow> string" where
  "hex_of_byte b = [hex_digit (unat b div 16), hex_digit (unat b mod 16)]"

definition hex :: "bytes \<Rightarrow> string" where
  "hex bs = concat (map hex_of_byte bs)"

fun show_nat :: "nat \<Rightarrow> string" where
  "show_nat n = (if n < 10 then [char_of (48 + n)]
                 else show_nat (n div 10) @ [char_of (48 + n mod 10)])"

declare show_nat.simps [simp del]

definition show_int :: "int \<Rightarrow> string" where
  "show_int i = (if i < 0 then CHR ''-'' # show_nat (nat (- i)) else show_nat (nat i))"

text \<open>\<open>int(x)\<close> on a float truncates towards zero.\<close>

definition py_int :: "real \<Rightarrow> int" where
  "py_int x = (if x < 0 then - \<lfloor>- x\<rfloor> else \<lfloor>x\<rfloor>)"

lemma py_int_nonneg: "0 \<le> x \<Longrightarrow> py_int x = \<lfloor>x\<rfloor>"
  by (simp add: py_int_def)

text \<open>\<open>sep.join_with(parts)\<close>.\<close>

fun join_with :: "string \<Rightarrow> string list \<Rightarrow> string" where
  "join_with sep [] = []"
| "join_with sep [x] = x"
| "join_with sep (x # y # xs) = x @ sep @ join_with sep (y # xs)"

lemma length_hex [simp]: "length (hex bs) = 2 * length bs"
  by (induction bs) (simp_all add: hex_def hex_of_byte_def)

end
