(* ===== verification/Queues.thy ===== *)
theory Queues
  imports Hub_Prelude
begin

text \<open>
  The four durable queues of \<open>lxmf_hub/store.py\<close> (\<open>egress_queue\<close>, \<open>notice_queue\<close>,
  \<open>control_queue\<close>, \<open>user_queue\<close>) share their bookkeeping columns and the statements that
  touch them. This theory models that shared part once, over a type of items, and states
  the contract the egress scheduler relies on as the locale \<open>durable_queue\<close>: an item stays
  queued until it is completed, and a deferred item is not offered before its time.
  \<open>Store_State\<close> instantiates the items and \<open>Store_Queues\<close> interprets the locale on the four
  tables.
\<close>

section \<open>Rows and statements\<close>

record 'a qrow =
  q_id :: nat
  q_item :: 'a
  q_attempts :: nat
  q_graces :: nat
  q_next :: time
  q_created :: time

text \<open>\<open>q_seq\<close> is the \<open>AUTOINCREMENT\<close> counter: the largest id ever handed out.\<close>

record 'a queue =
  q_seq :: nat
  q_rows :: "'a qrow list"

definition empty_queue :: "'a queue" where
  "empty_queue = \<lparr>q_seq = 0, q_rows = []\<rparr>"

definition fresh_row :: "'a queue \<Rightarrow> 'a \<Rightarrow> time \<Rightarrow> time \<Rightarrow> 'a qrow" where
  "fresh_row q x next_at now =
     \<lparr>q_id = q_seq q + 1, q_item = x, q_attempts = 0, q_graces = 0,
      q_next = next_at, q_created = now\<rparr>"

text \<open>\<open>INSERT INTO ..._queue\<close>: always a new row (control and user answers). Its id is the
  \<open>lastrowid\<close> the caller gets back.\<close>

definition queue_insert :: "'a \<Rightarrow> time \<Rightarrow> 'a queue \<Rightarrow> nat \<times> 'a queue" where
  "queue_insert x now q =
     (q_seq q + 1, \<lparr>q_seq = q_seq q + 1, q_rows = q_rows q @ [fresh_row q x now now]\<rparr>)"

text \<open>\<open>INSERT OR IGNORE INTO ..._queue\<close> under a \<open>UNIQUE\<close> constraint on \<open>key\<close>: the flag is
  \<open>cursor.rowcount > 0\<close>.\<close>

definition queue_insert_ignore ::
    "('a \<Rightarrow> 'k) \<Rightarrow> 'a \<Rightarrow> time \<Rightarrow> time \<Rightarrow> 'a queue \<Rightarrow> bool \<times> 'a queue" where
  "queue_insert_ignore key x next_at now q =
     (if has_key (key \<circ> q_item) (key x) (q_rows q) then (False, q)
      else (True, \<lparr>q_seq = q_seq q + 1, q_rows = q_rows q @ [fresh_row q x next_at now]\<rparr>))"

text \<open>\<open>SELECT * ... WHERE next_attempt_at <= ? ORDER BY next_attempt_at, id LIMIT ?\<close>.\<close>

definition queue_due :: "nat \<Rightarrow> time \<Rightarrow> 'a queue \<Rightarrow> 'a qrow list" where
  "queue_due limit now q =
     take limit (sort_key (\<lambda>r. (q_next r, q_id r)) (filter (\<lambda>r. q_next r \<le> now) (q_rows q)))"

definition queue_depth :: "'a queue \<Rightarrow> nat" where
  "queue_depth q = length (q_rows q)"

definition queue_complete :: "nat \<Rightarrow> 'a queue \<Rightarrow> 'a queue" where
  "queue_complete i q = q\<lparr>q_rows := sql_delete (\<lambda>r. q_id r = i) (q_rows q)\<rparr>"

text \<open>\<open>Store._defer\<close>: a counted deferral is a delivery attempt and forgets the graces, an
  uncounted one is a grace.\<close>

definition defer_row :: "time \<Rightarrow> bool \<Rightarrow> 'a qrow \<Rightarrow> 'a qrow" where
  "defer_row next_at count_attempt r =
     (if count_attempt then r\<lparr>q_attempts := q_attempts r + 1, q_graces := 0, q_next := next_at\<rparr>
      else r\<lparr>q_graces := q_graces r + 1, q_next := next_at\<rparr>)"

definition queue_defer :: "nat \<Rightarrow> real \<Rightarrow> bool \<Rightarrow> time \<Rightarrow> 'a queue \<Rightarrow> 'a queue" where
  "queue_defer i delay count_attempt now q =
     q\<lparr>q_rows := sql_update (\<lambda>r. q_id r = i) (defer_row (now + delay) count_attempt) (q_rows q)\<rparr>"

definition queue_row :: "'a queue \<Rightarrow> nat \<Rightarrow> 'a qrow option" where
  "queue_row q i = sql_lookup q_id i (q_rows q)"

definition queue_item :: "'a queue \<Rightarrow> nat \<Rightarrow> 'a option" where
  "queue_item q i = map_option q_item (queue_row q i)"

text \<open>A row is ready when a scheduler tick at \<open>now\<close> may select it.\<close>

definition queue_ready :: "'a queue \<Rightarrow> nat \<Rightarrow> time \<Rightarrow> bool" where
  "queue_ready q i now \<longleftrightarrow> (\<exists>r. queue_row q i = Some r \<and> q_next r \<le> now)"

section \<open>Well-formedness\<close>

definition queue_ok :: "'a queue \<Rightarrow> bool" where
  "queue_ok q \<longleftrightarrow> keys_distinct q_id (q_rows q) \<and> list_all (\<lambda>r. q_id r \<le> q_seq q) (q_rows q)"

lemma queue_ok_empty [simp]: "queue_ok empty_queue"
  by (simp add: queue_ok_def empty_queue_def)

lemma queue_ok_fresh: "queue_ok q \<Longrightarrow> \<not> has_key q_id (Suc (q_seq q)) (q_rows q)"
  by (fastforce simp: queue_ok_def has_key_def list_all_iff)

lemma queue_ok_append:
  "queue_ok q \<Longrightarrow> queue_ok \<lparr>q_seq = Suc (q_seq q), q_rows = q_rows q @ [fresh_row q x t now]\<rparr>"
  using queue_ok_fresh [of q] by (auto simp: queue_ok_def fresh_row_def list_all_iff)

lemma queue_ok_insert [simp]: "queue_ok q \<Longrightarrow> queue_ok (snd (queue_insert x now q))"
  by (simp add: queue_insert_def queue_ok_append)

lemma queue_ok_insert_ignore [simp]:
  "queue_ok q \<Longrightarrow> queue_ok (snd (queue_insert_ignore key x t now q))"
  by (simp add: queue_insert_ignore_def queue_ok_append)

lemma queue_ok_complete [simp]: "queue_ok q \<Longrightarrow> queue_ok (queue_complete i q)"
  by (auto simp: queue_ok_def queue_complete_def list_all_iff intro: keys_intros)

lemma defer_row_fields [simp]:
  "q_id (defer_row t c r) = q_id r" "q_item (defer_row t c r) = q_item r"
  "q_next (defer_row t c r) = t" "q_created (defer_row t c r) = q_created r"
  by (simp_all add: defer_row_def)

lemma queue_ok_defer [simp]: "queue_ok q \<Longrightarrow> queue_ok (queue_defer i d c now q)"
  by (auto simp: queue_ok_def queue_defer_def list_all_iff intro: keys_intros)

section \<open>Effect of the statements on a row\<close>

lemma queue_row_append [simp]:
  "queue_ok q \<Longrightarrow> queue_row \<lparr>q_seq = n, q_rows = q_rows q @ [fresh_row q x t now]\<rparr> i =
    (if i = Suc (q_seq q) then Some (fresh_row q x t now) else queue_row q i)"
  using queue_ok_fresh [of q]
  by (auto simp: queue_row_def sql_lookup_append sql_simps fresh_row_def
      sql_lookup_None [symmetric] split: option.splits)

lemma queue_row_complete [simp]:
  "queue_ok q \<Longrightarrow> queue_row (queue_complete i q) j = (if j = i then None else queue_row q j)"
  by (auto simp: queue_row_def queue_complete_def queue_ok_def sql_simps
      dest: sql_lookup_SomeD split: option.splits)

lemma queue_row_defer [simp]:
  "queue_row (queue_defer i d c now q) j =
    map_option (\<lambda>r. if j = i then defer_row (now + d) c r else r) (queue_row q j)"
  by (cases "queue_row q j")
    (auto simp: queue_row_def queue_defer_def sql_simps dest: sql_lookup_SomeD)

lemma queue_item_defer [simp]: "queue_item (queue_defer i d c now q) j = queue_item q j"
  by (cases "queue_row q j") (simp_all add: queue_item_def)

lemma queue_item_complete [simp]:
  "queue_ok q \<Longrightarrow> queue_item (queue_complete i q) j = (if j = i then None else queue_item q j)"
  by (simp add: queue_item_def)

lemma queue_item_None: "queue_item q i = None \<longleftrightarrow> queue_row q i = None"
  by (simp add: queue_item_def)

lemma queue_row_insert:
  "queue_ok q \<Longrightarrow> queue_row (snd (queue_insert x now q)) i =
    (if i = Suc (q_seq q) then Some (fresh_row q x now now) else queue_row q i)"
  by (simp add: queue_insert_def)

lemma queue_row_le_seq: "queue_ok q \<Longrightarrow> queue_row q i = Some r \<Longrightarrow> i \<le> q_seq q"
  by (auto simp: queue_row_def queue_ok_def list_all_iff dest!: sql_lookup_SomeD)

lemma queue_row_insert_old:
  "queue_ok q \<Longrightarrow> queue_row q i = Some r \<Longrightarrow> queue_row (snd (queue_insert x now q)) i = Some r"
  using queue_row_le_seq [of q i r] by (simp add: queue_row_insert)

lemma queue_row_insert_ignore_old:
  "queue_ok q \<Longrightarrow> queue_row q i = Some r \<Longrightarrow>
   queue_row (snd (queue_insert_ignore key x t now q)) i = Some r"
  using queue_row_le_seq [of q i r] by (simp add: queue_insert_ignore_def)

lemma map_key_complete:
  "keys_distinct k (q_rows q) \<Longrightarrow> keys_distinct k (q_rows (queue_complete i q))"
  by (auto simp: queue_complete_def intro: keys_intros)

lemma map_key_defer:
  "keys_distinct (key \<circ> q_item) (q_rows q) \<Longrightarrow>
   keys_distinct (key \<circ> q_item) (q_rows (queue_defer i d c now q))"
  by (auto simp: queue_defer_def intro!: keys_distinct_update)

lemma keys_distinct_insert_ignore:
  "keys_distinct (key \<circ> q_item) (q_rows q) \<Longrightarrow>
   keys_distinct (key \<circ> q_item) (q_rows (snd (queue_insert_ignore key x t now q)))"
  by (simp add: queue_insert_ignore_def fresh_row_def)

section \<open>The due query\<close>

lemma queue_due_subset: "r \<in> set (queue_due n now q) \<Longrightarrow> r \<in> set (q_rows q) \<and> q_next r \<le> now"
  by (auto simp: queue_due_def dest: in_set_takeD)

lemma queue_due_length: "length (queue_due n now q) \<le> n"
  by (simp add: queue_due_def)

lemma queue_due_sorted: "sorted (map (\<lambda>r. (q_next r, q_id r)) (queue_due n now q))"
  by (simp add: queue_due_def take_map [symmetric] sorted_wrt_take)

text \<open>The query is fair: what it leaves out is due later than everything it returns.\<close>

lemma queue_due_earliest:
  assumes "r \<in> set (queue_due n now q)" and "r' \<in> set (q_rows q)" and "q_next r' \<le> now"
    and "r' \<notin> set (queue_due n now q)"
  shows "(q_next r, q_id r) \<le> (q_next r', q_id r')"
proof -
  let ?k = "\<lambda>r. (q_next r, q_id r)"
  let ?xs = "sort_key ?k (filter (\<lambda>r. q_next r \<le> now) (q_rows q))"
  have split: "?xs = take n ?xs @ drop n ?xs"
    by simp
  have "r' \<in> set ?xs"
    using assms(2,3) by simp
  then have "r' \<in> set (drop n ?xs)"
    using assms(4) by (subst (asm) split) (simp only: set_append Un_iff queue_due_def, simp)
  moreover have "sorted (map ?k (take n ?xs) @ map ?k (drop n ?xs))"
    by (simp only: map_append [symmetric] append_take_drop_id) simp
  ultimately show ?thesis
    using assms(1) by (simp add: sorted_append queue_due_def)
qed

section \<open>The queue contract\<close>

text \<open>What one client of a queue does to it over time.\<close>

datatype 'a qop =
    QPush 'a time
  | QDefer nat real bool time
  | QComplete nat

locale durable_queue =
  fixes invar :: "'q \<Rightarrow> bool"
    and item :: "'q \<Rightarrow> nat \<Rightarrow> 'a option"
    and ready :: "'q \<Rightarrow> nat \<Rightarrow> time \<Rightarrow> bool"
    and push :: "'a \<Rightarrow> time \<Rightarrow> 'q \<Rightarrow> 'q"
    and rearm :: "nat \<Rightarrow> real \<Rightarrow> bool \<Rightarrow> time \<Rightarrow> 'q \<Rightarrow> 'q"
    and finish :: "nat \<Rightarrow> 'q \<Rightarrow> 'q"
  assumes invar_push: "invar q \<Longrightarrow> invar (push x t q)"
    and invar_rearm: "invar q \<Longrightarrow> invar (rearm i d c t q)"
    and invar_finish: "invar q \<Longrightarrow> invar (finish i q)"
    and item_push: "invar q \<Longrightarrow> item q i = Some y \<Longrightarrow> item (push x t q) i = Some y"
    and item_rearm: "invar q \<Longrightarrow> item (rearm i d c t q) j = item q j"
    and item_finish: "invar q \<Longrightarrow> item (finish i q) j = (if j = i then None else item q j)"
    and ready_item: "invar q \<Longrightarrow> ready q i now \<Longrightarrow> item q i \<noteq> None"
    and ready_push: "invar q \<Longrightarrow> item q i \<noteq> None \<Longrightarrow> ready (push x t q) i now = ready q i now"
    and ready_rearm: "invar q \<Longrightarrow> item q j \<noteq> None \<Longrightarrow>
      ready (rearm i d c t q) j now = (if j = i then t + d \<le> now else ready q j now)"
    and ready_finish: "invar q \<Longrightarrow> j \<noteq> i \<Longrightarrow> ready (finish i q) j now = ready q j now"
begin

fun perform :: "'a qop \<Rightarrow> 'q \<Rightarrow> 'q" where
  "perform (QPush x t) q = push x t q"
| "perform (QDefer i d c t) q = rearm i d c t q"
| "perform (QComplete i) q = finish i q"

definition run :: "'a qop list \<Rightarrow> 'q \<Rightarrow> 'q" where
  "run ops q = fold perform ops q"

lemma invar_perform: "invar q \<Longrightarrow> invar (perform p q)"
  by (cases p) (simp_all add: invar_push invar_rearm invar_finish)

lemma invar_run: "invar q \<Longrightarrow> invar (run ops q)"
  unfolding run_def by (induction ops arbitrary: q) (simp_all add: invar_perform)

lemma item_perform:
  "invar q \<Longrightarrow> item q i = Some x \<Longrightarrow> p \<noteq> QComplete i \<Longrightarrow> item (perform p q) i = Some x"
  by (cases p) (auto simp: item_push item_rearm item_finish)

text \<open>An item is lost only by completing it.\<close>

lemma survives:
  "invar q \<Longrightarrow> item q i = Some x \<Longrightarrow> QComplete i \<notin> set ops \<Longrightarrow> item (run ops q) i = Some x"
  unfolding run_def
  by (induction ops arbitrary: q) (auto simp: item_perform invar_perform)

lemma ready_perform:
  "invar q \<Longrightarrow> item q i = Some x \<Longrightarrow> p \<noteq> QComplete i \<Longrightarrow> (\<And>d c t. p \<noteq> QDefer i d c t) \<Longrightarrow>
   ready (perform p q) i now = ready q i now"
  by (cases p) (auto simp: ready_push ready_rearm ready_finish)

text \<open>A re-armed item stays out of sight for its whole delay, whatever happens to the others.\<close>

lemma rearmed_not_ready:
  assumes "invar q" and "item q i = Some x" and "now < t + d"
    and "\<forall>p \<in> set ops. p \<noteq> QComplete i \<and> (\<forall>d c t. p \<noteq> QDefer i d c t)"
  shows "\<not> ready (run ops (rearm i d c t q)) i now"
proof -
  have "invar q' \<Longrightarrow> item q' i = Some x \<Longrightarrow> \<not> ready q' i now \<Longrightarrow> \<not> ready (run ops q') i now" for q'
    using assms(4) unfolding run_def
    by (induction ops arbitrary: q') (auto simp: ready_perform item_perform invar_perform)
  then show ?thesis
    using assms(1-3) by (simp add: invar_rearm item_rearm ready_rearm)
qed

end

text \<open>The statements satisfy the contract for any insertion that keeps the rows there are.\<close>

lemma durable_queueI:
  assumes "\<And>q x t. queue_ok q \<Longrightarrow> queue_ok (push x t q)"
    and "\<And>q x t i r. queue_ok q \<Longrightarrow> queue_row q i = Some r \<Longrightarrow> queue_row (push x t q) i = Some r"
  shows "durable_queue queue_ok queue_item queue_ready push queue_defer queue_complete"
proof unfold_locales
  fix q :: "'a queue" and i :: nat and x :: 'a and t now :: time
  assume ok: "queue_ok q" and "queue_item q i \<noteq> None"
  then obtain r where "queue_row q i = Some r"
    by (auto simp: queue_item_def)
  with ok show "queue_ready (push x t q) i now = queue_ready q i now"
    by (simp add: queue_ready_def assms(2))
next
  fix q :: "'a queue" and i :: nat and x y :: 'a and t :: time
  assume "queue_ok q" and "queue_item q i = Some y"
  then show "queue_item (push x t q) i = Some y"
    using assms(2) by (auto simp: queue_item_def)
qed (auto simp: queue_ready_def queue_item_None assms(1))

end
