(* ===== verification/Store_State.thy ===== *)
theory Store_State
  imports Queues
begin

text \<open>
  The state of \<open>lxmf_hub/store.py\<close>: one record type per table row (and per frozen
  dataclass, which are the rows as they are read), the database as a record of tables, and
  the well-formedness invariant that the primary keys and unique indexes of \<open>SCHEMA\<close> impose.

  Tables are lists in rowid order. Two tables that the code only ever reads by key
  (\<open>peers\<close>, \<open>peer_liveness\<close>) and the \<open>meta\<close> table are maps. Encrypted columns
  (\<open>identity_key\<close>, \<open>lxmf_payload_blob\<close>) hold the plaintext that \<open>_decode\<close> gives back:
  \<open>At_Rest\<close> models the framing and proves that reading returns what was written.
  \<open>name_folded\<close> is not stored separately, since every statement that writes it writes
  \<open>fold_name(name)\<close>.
\<close>

section \<open>Constants\<close>

datatype role = ROLE_MEMBER | ROLE_ADMIN | ROLE_BANNED

datatype origin = ORIGIN_LOCAL | ORIGIN_FEDERATED

datatype source = SOURCE_GROUP | SOURCE_DIRECTORY

definition ACL_PUBLIC :: string where "ACL_PUBLIC = ''public''"

definition ACL_INVITE :: string where "ACL_INVITE = ''invite''"

text \<open>\<open>ValueError\<close>, \<open>sqlite3.IntegrityError\<close> and the codec's errors.\<close>

datatype store_error =
    ValueError string
  | IntegrityError

section \<open>Rows\<close>

record group_record =
  g_id :: string
  g_name :: string
  g_key :: bytes
  g_created :: time
  g_acl :: string

record member_row =
  mb_group :: string
  mb_user :: bytes
  mb_role :: role
  mb_added :: time

record message_record =
  m_hash :: bytes
  m_group :: string
  m_sender :: bytes
  m_time :: time
  m_payload :: bytes
  m_origin :: origin

record message_row = message_record +
  m_received :: time

record egress_item =
  e_group :: string
  e_recipient :: bytes
  e_msg :: bytes

record notice_item =
  n_source :: source
  n_group :: string
  n_recipient :: bytes
  n_body :: string

record control_item =
  c_recipient :: bytes
  c_body :: string

record user_item =
  u_group :: string
  u_recipient :: bytes
  u_body :: string

record peer_group =
  pg_peer :: bytes
  pg_group :: string
  pg_dest :: bytes
  pg_hub :: string
  pg_acl :: string
  pg_updated :: time

record peer_member =
  pm_peer :: bytes
  pm_group :: string
  pm_user :: bytes
  pm_updated :: time

record adoption =
  ad_peer :: bytes
  ad_group :: string
  ad_user :: bytes
  ad_at :: time

record persona_record =
  p_id :: bytes
  p_name :: "string option"
  p_claimed :: time
  p_revision :: int
  p_updated :: time

record persona_identity =
  i_user :: bytes
  i_persona :: bytes
  i_added :: time
  i_removed :: "time option"

record code_row =
  k_code :: string
  k_persona :: bytes
  k_created :: time
  k_expires :: time

text \<open>\<open>fold_name\<close>: \<open>str.casefold\<close>, which on ASCII text lowers the capital letters.\<close>

definition casefold_char :: "char \<Rightarrow> char" where
  "casefold_char c =
     (let n = of_char c :: nat in if 65 \<le> n \<and> n \<le> 90 then char_of (n + 32) else c)"

definition fold_name :: "string option \<Rightarrow> string option" where
  "fold_name name = map_option (map casefold_char) name"

definition name_folded :: "persona_record \<Rightarrow> string option" where
  "name_folded p = fold_name (p_name p)"

definition identity_active :: "persona_identity \<Rightarrow> bool" where
  "identity_active r \<longleftrightarrow> i_removed r = None"

text \<open>\<open>max(self.added_at, self.removed_at or 0.0)\<close>.\<close>

definition identity_version :: "persona_identity \<Rightarrow> time" where
  "identity_version r = max (i_added r) (case i_removed r of None \<Rightarrow> 0 | Some t \<Rightarrow> t)"

section \<open>The database\<close>

record store =
  s_meta :: "string \<Rightarrow> bytes option"
  s_groups :: "group_record list"
  s_members :: "member_row list"
  s_messages :: "message_row list"
  s_egress :: "egress_item queue"
  s_notices :: "notice_item queue"
  s_control :: "control_item queue"
  s_users :: "user_item queue"
  s_peers :: "bytes \<Rightarrow> (time \<times> string option) option"
  s_liveness :: "bytes \<Rightarrow> time option"
  s_peer_groups :: "peer_group list"
  s_peer_members :: "peer_member list"
  s_adoptions :: "adoption list"
  s_personas :: "persona_record list"
  s_identities :: "persona_identity list"
  s_links :: "code_row list"
  s_unlinks :: "code_row list"

definition empty_store :: store where
  "empty_store = \<lparr>s_meta = (\<lambda>_. None), s_groups = [], s_members = [], s_messages = [],
     s_egress = empty_queue, s_notices = empty_queue, s_control = empty_queue,
     s_users = empty_queue, s_peers = (\<lambda>_. None), s_liveness = (\<lambda>_. None),
     s_peer_groups = [], s_peer_members = [], s_adoptions = [], s_personas = [],
     s_identities = [], s_links = [], s_unlinks = []\<rparr>"

section \<open>Keys\<close>

definition member_key :: "member_row \<Rightarrow> string \<times> bytes" where
  "member_key r = (mb_group r, mb_user r)"

definition egress_key :: "egress_item \<Rightarrow> bytes \<times> bytes" where
  "egress_key x = (e_recipient x, e_msg x)"

definition notice_key :: "notice_item \<Rightarrow> bytes \<times> string" where
  "notice_key x = (n_recipient x, n_body x)"

definition peer_group_key :: "peer_group \<Rightarrow> bytes \<times> string" where
  "peer_group_key r = (pg_peer r, pg_group r)"

definition peer_member_key :: "peer_member \<Rightarrow> bytes \<times> string \<times> bytes" where
  "peer_member_key r = (pm_peer r, pm_group r, pm_user r)"

definition adoption_key :: "adoption \<Rightarrow> bytes \<times> string \<times> bytes" where
  "adoption_key r = (ad_peer r, ad_group r, ad_user r)"

text \<open>The unique index on \<open>name_folded\<close>: SQLite lets any number of rows hold \<open>NULL\<close>.\<close>

definition named :: "persona_record list \<Rightarrow> persona_record list" where
  "named ps = filter (\<lambda>p. p_name p \<noteq> None) ps"

definition names_unique :: "persona_record list \<Rightarrow> bool" where
  "names_unique ps \<longleftrightarrow> keys_distinct name_folded (named ps)"

section \<open>Well-formedness\<close>

definition groups_ok :: "store \<Rightarrow> bool" where
  "groups_ok s \<longleftrightarrow> keys_distinct g_id (s_groups s) \<and> keys_distinct member_key (s_members s)"

definition messages_ok :: "store \<Rightarrow> bool" where
  "messages_ok s \<longleftrightarrow> keys_distinct m_hash (s_messages s) \<and> queue_ok (s_egress s) \<and>
     keys_distinct (egress_key \<circ> q_item) (q_rows (s_egress s)) \<and>
     list_all (\<lambda>r. has_key m_hash (e_msg (q_item r)) (s_messages s)) (q_rows (s_egress s))"

definition answers_ok :: "store \<Rightarrow> bool" where
  "answers_ok s \<longleftrightarrow> queue_ok (s_notices s) \<and> queue_ok (s_control s) \<and> queue_ok (s_users s) \<and>
     keys_distinct (notice_key \<circ> q_item) (q_rows (s_notices s))"

definition peers_ok :: "store \<Rightarrow> bool" where
  "peers_ok s \<longleftrightarrow> keys_distinct peer_group_key (s_peer_groups s) \<and>
     keys_distinct peer_member_key (s_peer_members s) \<and>
     keys_distinct adoption_key (s_adoptions s)"

definition personas_ok :: "store \<Rightarrow> bool" where
  "personas_ok s \<longleftrightarrow> keys_distinct p_id (s_personas s) \<and> names_unique (s_personas s) \<and>
     keys_distinct i_user (s_identities s) \<and> keys_distinct k_code (s_links s) \<and>
     keys_distinct k_code (s_unlinks s)"

text \<open>\<open>messages_ok\<close> includes the referential integrity of the egress queue: every queued
  row's message is stored.\<close>

definition store_ok :: "store \<Rightarrow> bool" where
  "store_ok s \<longleftrightarrow> groups_ok s \<and> messages_ok s \<and> answers_ok s \<and> peers_ok s \<and> personas_ok s"

lemmas ok_defs = groups_ok_def messages_ok_def answers_ok_def peers_ok_def personas_ok_def

lemma store_ok_empty [simp]: "store_ok empty_store"
  by (simp add: store_ok_def ok_defs empty_store_def names_unique_def named_def)
     (simp add: empty_queue_def)

lemma store_okD:
  "store_ok s \<Longrightarrow> groups_ok s" "store_ok s \<Longrightarrow> messages_ok s" "store_ok s \<Longrightarrow> answers_ok s"
  "store_ok s \<Longrightarrow> peers_ok s" "store_ok s \<Longrightarrow> personas_ok s"
  by (simp_all add: store_ok_def)

text \<open>Each part of the invariant reads only its own tables.\<close>

lemma ok_frame [simp]:
  "groups_ok (s\<lparr>s_meta := x1\<rparr>) = groups_ok s" "groups_ok (s\<lparr>s_messages := x2\<rparr>) = groups_ok s"
  "groups_ok (s\<lparr>s_egress := x3\<rparr>) = groups_ok s" "groups_ok (s\<lparr>s_notices := x4\<rparr>) = groups_ok s"
  "groups_ok (s\<lparr>s_control := x5\<rparr>) = groups_ok s" "groups_ok (s\<lparr>s_users := x6\<rparr>) = groups_ok s"
  "groups_ok (s\<lparr>s_peers := x7\<rparr>) = groups_ok s" "groups_ok (s\<lparr>s_liveness := x8\<rparr>) = groups_ok s"
  "groups_ok (s\<lparr>s_peer_groups := x9\<rparr>) = groups_ok s"
  "groups_ok (s\<lparr>s_peer_members := x10\<rparr>) = groups_ok s"
  "groups_ok (s\<lparr>s_adoptions := x11\<rparr>) = groups_ok s" "groups_ok (s\<lparr>s_personas := x12\<rparr>) = groups_ok s"
  "groups_ok (s\<lparr>s_identities := x13\<rparr>) = groups_ok s" "groups_ok (s\<lparr>s_links := x14\<rparr>) = groups_ok s"
  "groups_ok (s\<lparr>s_unlinks := x15\<rparr>) = groups_ok s"
  "messages_ok (s\<lparr>s_meta := x1\<rparr>) = messages_ok s"
  "messages_ok (s\<lparr>s_groups := y1\<rparr>) = messages_ok s" "messages_ok (s\<lparr>s_members := y2\<rparr>) = messages_ok s"
  "messages_ok (s\<lparr>s_notices := x4\<rparr>) = messages_ok s" "messages_ok (s\<lparr>s_control := x5\<rparr>) = messages_ok s"
  "messages_ok (s\<lparr>s_users := x6\<rparr>) = messages_ok s" "messages_ok (s\<lparr>s_peers := x7\<rparr>) = messages_ok s"
  "messages_ok (s\<lparr>s_liveness := x8\<rparr>) = messages_ok s"
  "messages_ok (s\<lparr>s_peer_groups := x9\<rparr>) = messages_ok s"
  "messages_ok (s\<lparr>s_peer_members := x10\<rparr>) = messages_ok s"
  "messages_ok (s\<lparr>s_adoptions := x11\<rparr>) = messages_ok s"
  "messages_ok (s\<lparr>s_personas := x12\<rparr>) = messages_ok s"
  "messages_ok (s\<lparr>s_identities := x13\<rparr>) = messages_ok s" "messages_ok (s\<lparr>s_links := x14\<rparr>) = messages_ok s"
  "messages_ok (s\<lparr>s_unlinks := x15\<rparr>) = messages_ok s"
  by (simp_all add: ok_defs)

lemma answers_ok_frame [simp]:
  "answers_ok (s\<lparr>s_meta := x1\<rparr>) = answers_ok s" "answers_ok (s\<lparr>s_groups := y1\<rparr>) = answers_ok s"
  "answers_ok (s\<lparr>s_members := y2\<rparr>) = answers_ok s" "answers_ok (s\<lparr>s_messages := x2\<rparr>) = answers_ok s"
  "answers_ok (s\<lparr>s_egress := x3\<rparr>) = answers_ok s" "answers_ok (s\<lparr>s_peers := x7\<rparr>) = answers_ok s"
  "answers_ok (s\<lparr>s_liveness := x8\<rparr>) = answers_ok s" "answers_ok (s\<lparr>s_peer_groups := x9\<rparr>) = answers_ok s"
  "answers_ok (s\<lparr>s_peer_members := x10\<rparr>) = answers_ok s"
  "answers_ok (s\<lparr>s_adoptions := x11\<rparr>) = answers_ok s" "answers_ok (s\<lparr>s_personas := x12\<rparr>) = answers_ok s"
  "answers_ok (s\<lparr>s_identities := x13\<rparr>) = answers_ok s" "answers_ok (s\<lparr>s_links := x14\<rparr>) = answers_ok s"
  "answers_ok (s\<lparr>s_unlinks := x15\<rparr>) = answers_ok s"
  by (simp_all add: ok_defs)

lemma peers_ok_frame [simp]:
  "peers_ok (s\<lparr>s_meta := x1\<rparr>) = peers_ok s" "peers_ok (s\<lparr>s_groups := y1\<rparr>) = peers_ok s"
  "peers_ok (s\<lparr>s_members := y2\<rparr>) = peers_ok s" "peers_ok (s\<lparr>s_messages := x2\<rparr>) = peers_ok s"
  "peers_ok (s\<lparr>s_egress := x3\<rparr>) = peers_ok s" "peers_ok (s\<lparr>s_notices := x4\<rparr>) = peers_ok s"
  "peers_ok (s\<lparr>s_control := x5\<rparr>) = peers_ok s" "peers_ok (s\<lparr>s_users := x6\<rparr>) = peers_ok s"
  "peers_ok (s\<lparr>s_peers := x7\<rparr>) = peers_ok s" "peers_ok (s\<lparr>s_liveness := x8\<rparr>) = peers_ok s"
  "peers_ok (s\<lparr>s_personas := x12\<rparr>) = peers_ok s" "peers_ok (s\<lparr>s_identities := x13\<rparr>) = peers_ok s"
  "peers_ok (s\<lparr>s_links := x14\<rparr>) = peers_ok s" "peers_ok (s\<lparr>s_unlinks := x15\<rparr>) = peers_ok s"
  by (simp_all add: ok_defs)

lemma personas_ok_frame [simp]:
  "personas_ok (s\<lparr>s_meta := x1\<rparr>) = personas_ok s" "personas_ok (s\<lparr>s_groups := y1\<rparr>) = personas_ok s"
  "personas_ok (s\<lparr>s_members := y2\<rparr>) = personas_ok s" "personas_ok (s\<lparr>s_messages := x2\<rparr>) = personas_ok s"
  "personas_ok (s\<lparr>s_egress := x3\<rparr>) = personas_ok s" "personas_ok (s\<lparr>s_notices := x4\<rparr>) = personas_ok s"
  "personas_ok (s\<lparr>s_control := x5\<rparr>) = personas_ok s" "personas_ok (s\<lparr>s_users := x6\<rparr>) = personas_ok s"
  "personas_ok (s\<lparr>s_peers := x7\<rparr>) = personas_ok s" "personas_ok (s\<lparr>s_liveness := x8\<rparr>) = personas_ok s"
  "personas_ok (s\<lparr>s_peer_groups := x9\<rparr>) = personas_ok s"
  "personas_ok (s\<lparr>s_peer_members := x10\<rparr>) = personas_ok s"
  "personas_ok (s\<lparr>s_adoptions := x11\<rparr>) = personas_ok s"
  by (simp_all add: ok_defs)

end
