(* ===== verification/Merkle.thy ===== *)
theory Merkle
  imports Store_State
begin

text \<open>
  The prefix Merkle tree of \<open>lxmf_hub/merkle.py\<close>. SHA-256 is the parameter \<open>H\<close>; what the
  traversal needs of it is stated as \<open>collision_free\<close> on the inputs that are actually hashed
  and a digest of 32 bytes. Indices on the wire are Python integers, so they are \<open>int\<close> here;
  a dictionary is an association list.
\<close>

definition EMPTY_NODE :: bytes where
  "EMPTY_NODE = replicate 32 0"

section \<open>Buckets\<close>

text \<open>\<open>int.from_bytes(..., "big")\<close>.\<close>

definition big_endian :: "bytes \<Rightarrow> nat" where
  "big_endian bs = fold (\<lambda>b n. n * 256 + unat b) bs 0"

definition prefix32 :: "bytes \<Rightarrow> nat" where
  "prefix32 item = (let head = take 4 item in big_endian (head @ replicate (4 - length head) 0))"

definition bucket_of :: "bytes \<Rightarrow> nat \<Rightarrow> nat" where
  "bucket_of item depth = (if depth = 0 then 0 else drop_bit (32 - depth) (prefix32 item))"

definition bucket_index :: "bytes \<Rightarrow> int \<Rightarrow> store_error + nat" where
  "bucket_index item depth =
     (if depth < 0 \<or> 32 < depth then Inl (ValueError ''depth must be between 0 and 32'')
      else Inr (bucket_of item (nat depth)))"

section \<open>Hashing\<close>

definition hash_leaf :: "(bytes \<Rightarrow> bytes) \<Rightarrow> bytes list \<Rightarrow> bytes" where
  "hash_leaf H items = (if items = [] then EMPTY_NODE else H (concat (sort items)))"

definition hash_pair :: "(bytes \<Rightarrow> bytes) \<Rightarrow> bytes \<Rightarrow> bytes \<Rightarrow> bytes" where
  "hash_pair H left right =
     (if left = EMPTY_NODE \<and> right = EMPTY_NODE then EMPTY_NODE else H (left @ right))"

section \<open>The tree\<close>

record prefix_tree =
  t_depth :: nat
  t_buckets :: "nat \<Rightarrow> bytes list"
  t_levels :: "bytes list list"

text \<open>\<open>self._buckets.setdefault(bucket_index(item, depth), []).append(item)\<close> for each item;
  a missing bucket reads as the empty list everywhere.\<close>

definition fill_buckets :: "bytes list \<Rightarrow> nat \<Rightarrow> nat \<Rightarrow> bytes list" where
  "fill_buckets items depth =
     fold (\<lambda>item b. b(bucket_of item depth := b (bucket_of item depth) @ [item])) items (\<lambda>_. [])"

fun pair_up :: "(bytes \<Rightarrow> bytes) \<Rightarrow> bytes list \<Rightarrow> bytes list" where
  "pair_up H (x # y # rest) = hash_pair H x y # pair_up H rest"
| "pair_up H _ = []"

lemma length_pair_up [simp]: "length (pair_up H xs) = length xs div 2"
  by (induction H xs rule: pair_up.induct) simp_all

text \<open>The \<open>while\<close> loop, from the leaves up; the root's level comes first, as after \<open>reversed\<close>.\<close>

function build_levels :: "(bytes \<Rightarrow> bytes) \<Rightarrow> bytes list \<Rightarrow> bytes list list" where
  "build_levels H lower =
     (if 1 < length lower then build_levels H (pair_up H lower) @ [lower] else [lower])"
  by pat_completeness auto
termination
  by (relation "measure (\<lambda>(H, lower). length lower)") auto

declare build_levels.simps [simp del]

definition make_tree :: "(bytes \<Rightarrow> bytes) \<Rightarrow> bytes list \<Rightarrow> int \<Rightarrow> store_error + prefix_tree" where
  "make_tree H items depth =
     (if depth < 1 \<or> 24 < depth then Inl (ValueError ''depth must be between 1 and 24'')
      else
        let d = nat depth; buckets = fill_buckets items d
        in Inr \<lparr>t_depth = d, t_buckets = buckets,
                t_levels = build_levels H (map (\<lambda>i. hash_leaf H (buckets i)) [0..<2 ^ d])\<rparr>)"

definition root :: "prefix_tree \<Rightarrow> bytes" where
  "root t = t_levels t ! 0 ! 0"

text \<open>\<open>_check_level\<close> refuses a level outside the tree.\<close>

definition check_level :: "prefix_tree \<Rightarrow> int \<Rightarrow> store_error + nat" where
  "check_level t level =
     (if level < 0 \<or> int (t_depth t) < level
      then Inl (ValueError (''level '' @ show_int level @ '' outside tree of depth '' @
             show_nat (t_depth t)))
      else Inr (nat level))"

definition level_nodes :: "prefix_tree \<Rightarrow> int \<Rightarrow> store_error + bytes list" where
  "level_nodes t level = (case check_level t level of Inl e \<Rightarrow> Inl e | Inr k \<Rightarrow> Inr (t_levels t ! k))"

definition node_hashes :: "prefix_tree \<Rightarrow> int \<Rightarrow> int list \<Rightarrow> store_error + (int \<times> bytes) list" where
  "node_hashes t level indices =
     (case check_level t level of
        Inl e \<Rightarrow> Inl e
      | Inr k \<Rightarrow>
          let nodes = t_levels t ! k
          in Inr (dict_of (map (\<lambda>i. (i, nodes ! nat i))
               (filter (\<lambda>i. 0 \<le> i \<and> i < int (length nodes)) indices))))"

definition bucket_members :: "prefix_tree \<Rightarrow> int \<Rightarrow> bytes list" where
  "bucket_members t index = (if index < 0 then [] else sort (t_buckets t (nat index)))"

section \<open>Traversal\<close>

definition children_of :: "int list \<Rightarrow> int list" where
  "children_of indices = concat (map (\<lambda>i. [i * 2, i * 2 + 1]) indices)"

definition diverging_nodes :: "(int \<times> bytes) list \<Rightarrow> (int \<times> bytes) list \<Rightarrow> int list" where
  "diverging_nodes here there =
     sort (map fst (filter (\<lambda>(i, h). h \<noteq> EMPTY_NODE \<and>
       (case map_of here i of None \<Rightarrow> EMPTY_NODE | Some h' \<Rightarrow> h') \<noteq> h) there))"

section \<open>Buckets partition the hash space by prefix\<close>

lemma big_endian_snoc [simp]: "big_endian (bs @ [b]) = big_endian bs * 256 + unat b"
  by (simp add: big_endian_def)

lemma big_endian_bound: "big_endian bs < 256 ^ length bs"
proof (induction bs rule: rev_induct)
  case Nil
  then show ?case by (simp add: big_endian_def)
next
  case (snoc b bs)
  have "unat b < 256"
    using unsigned_less [of b, where ?'a = nat] by simp
  with snoc show ?case by (simp)
qed

lemma prefix32_bound: "prefix32 item < 2 ^ 32"
proof -
  have "length (take 4 item @ replicate (4 - length (take 4 item)) (0 :: byte)) = 4"
    by simp
  then show ?thesis
    using big_endian_bound [of "take 4 item @ replicate (4 - length (take 4 item)) 0"]
    by (simp add: prefix32_def Let_def)
qed

lemma bucket_of_div: "d \<le> 32 \<Longrightarrow> bucket_of item d = prefix32 item div 2 ^ (32 - d)"
  using prefix32_bound [of item] by (auto simp: bucket_of_def drop_bit_eq_div)

lemma bucket_of_less: "d \<le> 32 \<Longrightarrow> bucket_of item d < 2 ^ d"
proof -
  assume "d \<le> 32"
  then have "(2 :: nat) ^ 32 = 2 ^ d * 2 ^ (32 - d)"
    by (simp flip: power_add)
  then show ?thesis
    using prefix32_bound [of item] \<open>d \<le> 32\<close>
    by (simp add: bucket_of_div div_less_iff_less_mult)
qed

text \<open>The bucket at one level is the parent of the bucket at the next.\<close>

lemma bucket_of_parent: "k < 32 \<Longrightarrow> bucket_of item (Suc k) div 2 = bucket_of item k"
proof -
  assume "k < 32"
  then have "(2 :: nat) ^ (32 - k) = 2 ^ (32 - Suc k) * 2"
    by (metis Suc_diff_Suc power_Suc2)
  then show ?thesis
    using \<open>k < 32\<close> by (simp add: bucket_of_div div_mult2_eq)
qed

lemma fill_buckets_eq: "fill_buckets items d i = filter (\<lambda>x. bucket_of x d = i) items"
proof -
  have "fold (\<lambda>item b. b(bucket_of item d := b (bucket_of item d) @ [item])) items b i =
      b i @ filter (\<lambda>x. bucket_of x d = i) items" for b
    by (induction items arbitrary: b) auto
  then show ?thesis by (simp add: fill_buckets_def)
qed

section \<open>Levels\<close>

text \<open>The node of a given height above the leaves, by recursion on the height.\<close>

fun node_at :: "(bytes \<Rightarrow> bytes) \<Rightarrow> (nat \<Rightarrow> bytes list) \<Rightarrow> nat \<Rightarrow> nat \<Rightarrow> bytes" where
  "node_at H b 0 i = hash_leaf H (b i)"
| "node_at H b (Suc h) i = hash_pair H (node_at H b h (2 * i)) (node_at H b h (2 * i + 1))"

lemma pair_up_nth: "i < length xs div 2 \<Longrightarrow> pair_up H xs ! i = hash_pair H (xs ! (2 * i)) (xs ! (2 * i + 1))"
proof (induction H xs arbitrary: i rule: pair_up.induct)
  case (1 H x y rest)
  then show ?case by (cases i) auto
qed auto

lemma build_levels_nodes:
  "length lower = 2 ^ n \<Longrightarrow> \<forall>i < 2 ^ n. lower ! i = node_at H b h i \<Longrightarrow>
   length (build_levels H lower) = Suc n \<and>
   (\<forall>k \<le> n. length (build_levels H lower ! k) = 2 ^ k \<and>
     (\<forall>i < 2 ^ k. build_levels H lower ! k ! i = node_at H b (h + (n - k)) i))"
proof (induction n arbitrary: lower h)
  case 0
  then show ?case by (simp add: build_levels.simps)
next
  case (Suc n)
  have "\<forall>i < 2 ^ n. pair_up H lower ! i = node_at H b (Suc h) i"
    using Suc.prems by (simp add: pair_up_nth)
  then have IH: "length (build_levels H (pair_up H lower)) = Suc n \<and>
      (\<forall>k \<le> n. length (build_levels H (pair_up H lower) ! k) = 2 ^ k \<and>
        (\<forall>i < 2 ^ k. build_levels H (pair_up H lower) ! k ! i = node_at H b (Suc h + (n - k)) i))"
    using Suc.prems(1) by (intro Suc.IH) simp_all
  have eq: "build_levels H lower = build_levels H (pair_up H lower) @ [lower]"
    using Suc.prems(1) power_gt1 [of "2 :: nat" n] by (subst build_levels.simps) simp
  show ?case
    unfolding eq using IH Suc.prems
    by (auto simp: nth_append le_Suc_eq Suc_diff_le less_Suc_eq_le)
qed

lemma make_tree_levels:
  assumes "make_tree H items depth = Inr t" and "k \<le> t_depth t"
  shows "length (t_levels t ! k) = 2 ^ k" and
    "i < 2 ^ k \<Longrightarrow> t_levels t ! k ! i = node_at H (fill_buckets items (t_depth t)) (t_depth t - k) i"
  using assms build_levels_nodes [of "map (\<lambda>i. hash_leaf H (fill_buckets items (nat depth) i)) [0..<2 ^ nat depth]"
      "nat depth" H "fill_buckets items (nat depth)" 0]
  by (auto simp: make_tree_def Let_def split: if_splits)

lemma make_tree_fields:
  assumes "make_tree H items depth = Inr t"
  shows "t_depth t = nat depth" "1 \<le> t_depth t" "t_depth t \<le> 24"
    "t_buckets t = fill_buckets items (nat depth)"
  using assms by (auto simp: make_tree_def Let_def split: if_splits)

text \<open>For the proofs below: the collision-freeness of a digest on the inputs at hand.\<close>

definition collision_free :: "(bytes \<Rightarrow> bytes) \<Rightarrow> bytes set \<Rightarrow> bool" where
  "collision_free H X \<longleftrightarrow> inj_on H X \<and> EMPTY_NODE \<notin> H ` X"

lemma collision_freeD:
  "collision_free H X \<Longrightarrow> x \<in> X \<Longrightarrow> H x \<noteq> EMPTY_NODE"
  "collision_free H X \<Longrightarrow> x \<in> X \<Longrightarrow> y \<in> X \<Longrightarrow> H x = H y \<longleftrightarrow> x = y"
  by (auto simp: collision_free_def inj_on_def rev_image_eqI)

text \<open>What building the tree of the buckets \<open>b\<close> feeds to the hash function.\<close>

definition hash_inputs :: "(bytes \<Rightarrow> bytes) \<Rightarrow> (nat \<Rightarrow> bytes list) \<Rightarrow> nat \<Rightarrow> bytes set" where
  "hash_inputs H b d =
     {concat (sort (b i)) |i. i < 2 ^ d \<and> b i \<noteq> []} \<union>
     {node_at H b h (2 * i) @ node_at H b h (2 * i + 1) |h i. h < d \<and> i < 2 ^ (d - Suc h) \<and>
        \<not> (node_at H b h (2 * i) = EMPTY_NODE \<and> node_at H b h (2 * i + 1) = EMPTY_NODE)}"

lemma root_eq:
  "make_tree H items depth = Inr t \<Longrightarrow> root t = node_at H (fill_buckets items (t_depth t)) (t_depth t) 0"
  using make_tree_levels [of H items depth t 0] by (simp add: root_def)

section \<open>Equal nodes, equal contents\<close>

lemma concat_same_length:
  "concat xs = concat ys \<Longrightarrow> \<forall>x \<in> set xs \<union> set ys. length x = n \<Longrightarrow> 0 < n \<Longrightarrow> xs = ys"
proof (induction xs arbitrary: ys)
  case Nil
  then show ?case by (cases ys) auto
next
  case (Cons x xs)
  then obtain y ys' where "ys = y # ys'"
    by (cases ys) auto
  with Cons show ?case by auto
qed

text \<open>The buckets under a node.\<close>

definition below :: "nat \<Rightarrow> nat \<Rightarrow> nat set" where
  "below h i = {j. j div 2 ^ h = i}"

lemma below_0 [simp]: "below 0 i = {i}"
  by (auto simp: below_def)

lemma below_Suc: "below (Suc h) i = below h (2 * i) \<union> below h (2 * i + 1)"
proof -
  have "j div 2 ^ Suc h = j div 2 ^ h div 2" for j :: nat
    by (simp only: power_Suc2 div_mult2_eq)
  moreover have "m div 2 = i \<longleftrightarrow> m = 2 * i \<or> m = 2 * i + 1" for m :: nat
    by auto
  ultimately show ?thesis
    unfolding below_def by simp (simp add: Collect_disj_eq)
qed

lemma EMPTY_NODE_length [simp]: "length EMPTY_NODE = 32"
  by (simp add: EMPTY_NODE_def)

lemma node_at_length: "\<forall>x. length (H x) = 32 \<Longrightarrow> length (node_at H b h i) = 32"
  by (cases h) (simp_all add: hash_leaf_def hash_pair_def)

lemma node_at_empty:
  assumes "collision_free H (hash_inputs H b d)"
  shows "h \<le> d \<Longrightarrow> i < 2 ^ (d - h) \<Longrightarrow>
    node_at H b h i = EMPTY_NODE \<longleftrightarrow> (\<forall>j \<in> below h i. b j = [])"
proof (induction h arbitrary: i)
  case 0
  then have "b i \<noteq> [] \<Longrightarrow> concat (sort (b i)) \<in> hash_inputs H b d"
    by (auto simp: hash_inputs_def)
  then show ?case
    using collision_freeD(1) [OF assms] by (auto simp: hash_leaf_def)
next
  case (Suc h)
  let ?l = "node_at H b h (2 * i)" and ?r = "node_at H b h (2 * i + 1)"
  have "2 ^ (d - h) = 2 * (2 :: nat) ^ (d - Suc h)"
    using Suc.prems(1) by (metis Suc_diff_Suc Suc_le_lessD power_Suc)
  then have lt: "2 * i < 2 ^ (d - h)" "2 * i + 1 < 2 ^ (d - h)"
    using Suc.prems(2) by simp_all
  have "\<not> (?l = EMPTY_NODE \<and> ?r = EMPTY_NODE) \<Longrightarrow> ?l @ ?r \<in> hash_inputs H b d"
    using Suc.prems by (auto simp: hash_inputs_def)
  then have "hash_pair H ?l ?r = EMPTY_NODE \<longleftrightarrow> ?l = EMPTY_NODE \<and> ?r = EMPTY_NODE"
    using collision_freeD(1) [OF assms] by (auto simp: hash_pair_def)
  also have "\<dots> \<longleftrightarrow> (\<forall>j \<in> below (Suc h) i. b j = [])"
    using Suc.IH [of "2 * i"] Suc.IH [of "2 * i + 1"] Suc.prems(1) lt
    by (auto simp: below_Suc)
  finally show ?case by simp
qed

text \<open>Two trees of the same depth: a node agrees exactly when all the buckets below it do.\<close>

lemma node_at_eq:
  assumes free: "collision_free H (hash_inputs H b1 d \<union> hash_inputs H b2 d)"
    and digest: "\<forall>x. length (H x) = 32"
    and width: "\<forall>i. \<forall>x \<in> set (b1 i) \<union> set (b2 i). length x = n" "0 < n"
  shows "h \<le> d \<Longrightarrow> i < 2 ^ (d - h) \<Longrightarrow>
    node_at H b1 h i = node_at H b2 h i \<longleftrightarrow> (\<forall>j \<in> below h i. sort (b1 j) = sort (b2 j))"
proof (induction h arbitrary: i)
  case 0
  have c: "concat (sort (b1 i)) = concat (sort (b2 i)) \<Longrightarrow> sort (b1 i) = sort (b2 i)"
    using width by (intro concat_same_length) auto
  let ?X = "hash_inputs H b1 d \<union> hash_inputs H b2 d"
  have X: "b1 i \<noteq> [] \<Longrightarrow> concat (sort (b1 i)) \<in> ?X" "b2 i \<noteq> [] \<Longrightarrow> concat (sort (b2 i)) \<in> ?X"
    using 0 by (auto simp: hash_inputs_def)
  have ne: "sort (b i) = [] \<longleftrightarrow> b i = []" for b :: "nat \<Rightarrow> bytes list"
    by (metis length_0_conv length_sort)
  show ?case
    using collision_freeD(1) [OF free X(1)] collision_freeD(1) [OF free X(2)]
      collision_freeD(2) [OF free X(1) X(2)] c ne [of b1] ne [of b2]
    by (auto simp: hash_leaf_def)
next
  case (Suc h)
  let ?l1 = "node_at H b1 h (2 * i)" and ?r1 = "node_at H b1 h (2 * i + 1)"
  let ?l2 = "node_at H b2 h (2 * i)" and ?r2 = "node_at H b2 h (2 * i + 1)"
  have "2 ^ (d - h) = 2 * (2 :: nat) ^ (d - Suc h)"
    using Suc.prems(1) by (metis Suc_diff_Suc Suc_le_lessD power_Suc)
  then have lt: "2 * i < 2 ^ (d - h)" "2 * i + 1 < 2 ^ (d - h)"
    using Suc.prems(2) by simp_all
  let ?X = "hash_inputs H b1 d \<union> hash_inputs H b2 d"
  have X: "\<not> (?l1 = EMPTY_NODE \<and> ?r1 = EMPTY_NODE) \<Longrightarrow> ?l1 @ ?r1 \<in> ?X"
    "\<not> (?l2 = EMPTY_NODE \<and> ?r2 = EMPTY_NODE) \<Longrightarrow> ?l2 @ ?r2 \<in> ?X"
    using Suc.prems by (auto simp: hash_inputs_def)
  have app: "?l1 @ ?r1 = ?l2 @ ?r2 \<longleftrightarrow> ?l1 = ?l2 \<and> ?r1 = ?r2"
    using digest by (simp add: node_at_length)
  have "hash_pair H ?l1 ?r1 = hash_pair H ?l2 ?r2 \<longleftrightarrow> ?l1 = ?l2 \<and> ?r1 = ?r2"
    using collision_freeD(1) [OF free X(1)] collision_freeD(1) [OF free X(2)]
      collision_freeD(2) [OF free X(1) X(2)] app
    unfolding hash_pair_def by (simp only: split: if_split) metis
  also have "\<dots> \<longleftrightarrow> (\<forall>j \<in> below (Suc h) i. sort (b1 j) = sort (b2 j))"
    using Suc.IH [of "2 * i"] Suc.IH [of "2 * i + 1"] Suc.prems(1) lt
    by (auto simp: below_Suc)
  finally show ?case by simp
qed

section \<open>Summaries of a set, and the descent between two of them\<close>

text \<open>
  What the federation client needs of a tree is less than the tree: nodes by level and index,
  such that two trusted summaries agree on a node exactly when the sets below it agree, and a
  peer's empty node means an empty range.
\<close>

locale set_summary =
  fixes node :: "'a \<Rightarrow> nat \<Rightarrow> nat \<Rightarrow> 'h"
    and items :: "'a \<Rightarrow> nat \<Rightarrow> nat \<Rightarrow> 'x set"
    and empty :: 'h
    and trusted :: "'a \<Rightarrow> 'a \<Rightarrow> bool"
    and depth :: nat
  assumes node_eq: "trusted a b \<Longrightarrow> k \<le> depth \<Longrightarrow> i < 2 ^ k \<Longrightarrow>
      node a k i = node b k i \<longleftrightarrow> items a k i = items b k i"
    and node_empty: "trusted a b \<Longrightarrow> k \<le> depth \<Longrightarrow> i < 2 ^ k \<Longrightarrow>
      node b k i = empty \<longleftrightarrow> items b k i = {}"
    and items_split: "k < depth \<Longrightarrow> items a k i = items a (Suc k) (2 * i) \<union> items a (Suc k) (2 * i + 1)"
    and items_disjoint: "k \<le> depth \<Longrightarrow> x \<in> items a k i \<Longrightarrow> x \<in> items b k j \<Longrightarrow> i = j"
begin

text \<open>The nodes still under suspicion after \<open>k\<close> rounds.\<close>

fun frontier :: "'a \<Rightarrow> 'a \<Rightarrow> nat \<Rightarrow> nat set" where
  "frontier a b 0 = {0}"
| "frontier a b (Suc k) = {j. j div 2 \<in> frontier a b k \<and> node b (Suc k) j \<noteq> empty \<and>
     node a (Suc k) j \<noteq> node b (Suc k) j}"

lemma frontier_bound: "j \<in> frontier a b k \<Longrightarrow> j < 2 ^ k"
  by (induction k arbitrary: j) fastforce+

lemma items_parent: "k < depth \<Longrightarrow> x \<in> items a (Suc k) j \<Longrightarrow> x \<in> items a k (j div 2)"
  using items_split [of k a "j div 2"] by (cases "even j") (auto simp: odd_two_times_div_two_succ)

lemma frontier_covers:
  "trusted a b \<Longrightarrow> k \<le> depth \<Longrightarrow> x \<in> items b k j \<Longrightarrow> x \<notin> items a 0 0 \<Longrightarrow> j < 2 ^ k \<Longrightarrow>
   j \<in> frontier a b k"
proof (induction k arbitrary: j)
  case (Suc k)
  have up: "x \<in> items a 0 0" if "x \<in> items a l i" "l \<le> depth" "i < 2 ^ l" for l i
    using that
  proof (induction l arbitrary: i)
    case (Suc l)
    then show ?case using items_parent [of l x a i] by (auto intro!: Suc.IH [of "i div 2"])
  qed simp
  have "x \<notin> items a (Suc k) j"
    using up Suc.prems by blast
  then have "items a (Suc k) j \<noteq> items b (Suc k) j" "items b (Suc k) j \<noteq> {}"
    using Suc.prems by auto
  moreover have "j div 2 \<in> frontier a b k"
    using Suc items_parent [of k x b j] by auto
  ultimately show ?case
    using Suc.prems node_eq [of a b "Suc k" j] node_empty [of a b "Suc k" j] by simp
qed simp

text \<open>The descent is complete and exact: what the peer holds under the last frontier, less what
  is here under the same leaves, is precisely what is missing.\<close>

lemma descent_exact:
  assumes "trusted a b"
    and leaves: "\<And>x c. x \<in> items c 0 0 \<Longrightarrow> \<exists>j < 2 ^ depth. x \<in> items c depth j"
    and up: "\<And>x c j. x \<in> items c depth j \<Longrightarrow> x \<in> items c 0 0"
  shows "(\<Union>j \<in> frontier a b depth. items b depth j - items a depth j) = items b 0 0 - items a 0 0"
proof (intro equalityI subsetI)
  fix x assume "x \<in> (\<Union>j \<in> frontier a b depth. items b depth j - items a depth j)"
  then obtain j where j: "x \<in> items b depth j" "x \<notin> items a depth j"
    by auto
  have "x \<notin> items a 0 0"
    using leaves [of x a] j items_disjoint [of depth x a] items_disjoint [of depth x b] by blast
  then show "x \<in> items b 0 0 - items a 0 0"
    using up j by auto
next
  fix x assume x: "x \<in> items b 0 0 - items a 0 0"
  then obtain j where j: "j < 2 ^ depth" "x \<in> items b depth j"
    using leaves by blast
  then have "j \<in> frontier a b depth"
    using frontier_covers assms(1) x by blast
  moreover have "x \<notin> items a depth j"
    using up x by auto
  ultimately show "x \<in> (\<Union>j \<in> frontier a b depth. items b depth j - items a depth j)"
    using j by auto
qed

end

section \<open>The tree is such a summary\<close>

definition tree_node :: "(bytes \<Rightarrow> bytes) \<Rightarrow> nat \<Rightarrow> bytes list \<Rightarrow> nat \<Rightarrow> nat \<Rightarrow> bytes" where
  "tree_node H d items k i = node_at H (fill_buckets items d) (d - k) i"

definition tree_items :: "bytes list \<Rightarrow> nat \<Rightarrow> nat \<Rightarrow> bytes set" where
  "tree_items items k i = {x \<in> set items. bucket_of x k = i}"

text \<open>Hash lists of two hubs whose trees can be trusted to tell their sets apart.\<close>

definition comparable :: "(bytes \<Rightarrow> bytes) \<Rightarrow> nat \<Rightarrow> bytes list \<Rightarrow> bytes list \<Rightarrow> bool" where
  "comparable H d xs ys \<longleftrightarrow> distinct xs \<and> distinct ys \<and> (\<forall>x. length (H x) = 32) \<and>
     (\<forall>x \<in> set xs \<union> set ys. length x = 32) \<and>
     collision_free H (hash_inputs H (fill_buckets xs d) d \<union> hash_inputs H (fill_buckets ys d) d)"

lemma below_bucket: "d \<le> 32 \<Longrightarrow> k \<le> d \<Longrightarrow> bucket_of x d \<in> below (d - k) i \<longleftrightarrow> bucket_of x k = i"
proof -
  assume "d \<le> 32" "k \<le> d"
  then have "32 - k = (32 - d) + (d - k)"
    by simp
  then have "(2 :: nat) ^ (32 - k) = 2 ^ (32 - d) * 2 ^ (d - k)"
    by (metis power_add)
  then show ?thesis
    using \<open>d \<le> 32\<close> \<open>k \<le> d\<close> by (simp add: below_def bucket_of_div div_mult2_eq)
qed

lemma tree_items_below:
  "d \<le> 32 \<Longrightarrow> k \<le> d \<Longrightarrow> tree_items xs k i = (\<Union>j \<in> below (d - k) i. set (fill_buckets xs d j))"
  using below_bucket [of d k] by (auto simp: tree_items_def fill_buckets_eq)

lemma sorted_buckets_eq:
  assumes "distinct xs" and "distinct ys"
  shows "sort (fill_buckets xs d j) = sort (fill_buckets ys d j) \<longleftrightarrow>
    set (fill_buckets xs d j) = set (fill_buckets ys d j)"
proof -
  have d: "distinct (sort (fill_buckets zs d j))" if "distinct zs" for zs
    using that by (simp add: fill_buckets_eq)
  show ?thesis
    using sorted_distinct_set_unique [OF sorted_sort d [OF assms(1)] sorted_sort d [OF assms(2)]]
    by (metis set_sort)
qed

lemma tree_node_eq:
  assumes "d \<le> 32" and "comparable H d xs ys" and "k \<le> d" and "i < 2 ^ k"
  shows "tree_node H d xs k i = tree_node H d ys k i \<longleftrightarrow> tree_items xs k i = tree_items ys k i"
proof -
  have "tree_node H d xs k i = tree_node H d ys k i \<longleftrightarrow>
      (\<forall>j \<in> below (d - k) i. sort (fill_buckets xs d j) = sort (fill_buckets ys d j))"
    unfolding tree_node_def
    using assms by (intro node_at_eq [where n = 32]) (auto simp: comparable_def fill_buckets_eq)
  also have "\<dots> \<longleftrightarrow> (\<forall>j \<in> below (d - k) i. set (fill_buckets xs d j) = set (fill_buckets ys d j))"
    using assms(2) by (simp add: comparable_def sorted_buckets_eq)
  also have "\<dots> \<longleftrightarrow> tree_items xs k i = tree_items ys k i"
    unfolding tree_items_below [OF assms(1,3)] by (auto simp: fill_buckets_eq)
  finally show ?thesis .
qed

lemma tree_node_empty:
  assumes "d \<le> 32" and "comparable H d xs ys" and "k \<le> d" and "i < 2 ^ k"
  shows "tree_node H d ys k i = EMPTY_NODE \<longleftrightarrow> tree_items ys k i = {}"
proof -
  have "collision_free H (hash_inputs H (fill_buckets ys d) d)"
    using assms(2) by (auto simp: comparable_def collision_free_def inj_on_Un)
  then show ?thesis
    unfolding tree_node_def tree_items_below [OF assms(1,3)]
    using assms by (subst node_at_empty) auto
qed

interpretation prefix_summary: set_summary "tree_node H (min d 24)" tree_items EMPTY_NODE
  "comparable H (min d 24)" "min d 24" for H d
proof unfold_locales
  fix k i and a :: "bytes list" assume "k < min d 24"
  then have "bucket_of x k = i \<longleftrightarrow> bucket_of x (Suc k) = 2 * i \<or> bucket_of x (Suc k) = 2 * i + 1" for x
    using bucket_of_parent [of k x] by auto
  then show "tree_items a k i = tree_items a (Suc k) (2 * i) \<union> tree_items a (Suc k) (2 * i + 1)"
    by (auto simp: tree_items_def)
qed (auto simp: tree_node_eq tree_node_empty, auto simp: tree_items_def)

end
