(* ===== verification/Python_Values.thy ===== *)
theory Python_Values
  imports Hub_Prelude
begin

text \<open>
  The dynamically typed values that reach the hub from outside: LXMF fields, msgpack bodies,
  parsed JSON. Only what the source inspects of them is modelled: their type, and the members
  of lists and dictionaries.
\<close>

datatype pyval =
    VNone
  | VBool bool
  | VInt int
  | VFloat real
  | VStr string
  | VBytes bytes
  | VList "pyval list"
  | VDict "(pyval \<times> pyval) list"

text \<open>\<open>isinstance(x, (int, float))\<close>: a \<open>bool\<close> is an \<open>int\<close> in Python.\<close>

fun as_number :: "pyval \<Rightarrow> real option" where
  "as_number (VBool b) = Some (if b then 1 else 0)"
| "as_number (VInt i) = Some (real_of_int i)"
| "as_number (VFloat x) = Some x"
| "as_number _ = None"

text \<open>LXMF's \<open>fields\<close>: a dictionary keyed by small integers.\<close>

type_synonym fields = "(int \<times> pyval) list"

text \<open>\<open>clean.pop(key, None)\<close> and \<open>fields[key] = value\<close>.\<close>

definition dict_pop :: "'k \<Rightarrow> ('k \<times> 'v) list \<Rightarrow> ('k \<times> 'v) list" where
  "dict_pop k d = AList.delete k d"

definition dict_set :: "'k \<Rightarrow> 'v \<Rightarrow> ('k \<times> 'v) list \<Rightarrow> ('k \<times> 'v) list" where
  "dict_set k v d = AList.update k v d"

lemma map_of_dict_pop [simp]: "map_of (dict_pop k d) k' = (if k' = k then None else map_of d k')"
  by (simp add: dict_pop_def delete_conv)

lemma map_of_dict_set [simp]: "map_of (dict_set k v d) k' = (if k' = k then Some v else map_of d k')"
  by (simp add: dict_set_def update_conv)

lemma dict_keys [simp]:
  "fst ` set (dict_set k v d) = insert k (fst ` set d)"
  "distinct (map fst d) \<Longrightarrow> distinct (map fst (dict_set k v d))"
  "fst ` set (dict_pop k d) = fst ` set d - {k}"
  "distinct (map fst d) \<Longrightarrow> distinct (map fst (dict_pop k d))"
proof -
  show "fst ` set (dict_pop k d) = fst ` set d - {k}"
    by (auto simp: dict_pop_def AList.delete_eq)
qed (simp_all add: dict_set_def dict_pop_def distinct_update dom_update distinct_delete)

section \<open>String methods\<close>

text \<open>\<open>str.isspace\<close> on ASCII: blank, the characters 9 to 13 and the separators 28 to 31.\<close>

definition is_space :: "char \<Rightarrow> bool" where
  "is_space c = (let n = of_char c :: nat in n = 32 \<or> (9 \<le> n \<and> n \<le> 13) \<or> (28 \<le> n \<and> n \<le> 31))"

definition strip_of :: "(char \<Rightarrow> bool) \<Rightarrow> string \<Rightarrow> string" where
  "strip_of P s = rev (dropWhile P (rev (dropWhile P s)))"

definition strip :: "string \<Rightarrow> string" where
  "strip s = strip_of is_space s"

definition upper_char :: "char \<Rightarrow> char" where
  "upper_char c =
     (let n = of_char c :: nat in if 97 \<le> n \<and> n \<le> 122 then char_of (n - 32) else c)"

definition lower_char :: "char \<Rightarrow> char" where
  "lower_char c =
     (let n = of_char c :: nat in if 65 \<le> n \<and> n \<le> 90 then char_of (n + 32) else c)"

definition upper :: "string \<Rightarrow> string" where
  "upper s = map upper_char s"

definition lower :: "string \<Rightarrow> string" where
  "lower s = map lower_char s"

text \<open>\<open>s.split()\<close> and \<open>s.split(maxsplit=1)\<close>: runs of white space separate.\<close>

function words :: "string \<Rightarrow> string list" where
  "words s =
     (let t = dropWhile is_space s
      in if t = [] then []
         else takeWhile (\<lambda>c. \<not> is_space c) t # words (dropWhile (\<lambda>c. \<not> is_space c) t))"
  by pat_completeness auto
termination
proof (relation "measure length")
  fix s t :: string
  assume t: "t = dropWhile is_space s" and "t \<noteq> []"
  then obtain c cs where c: "t = c # cs"
    by (meson neq_Nil_conv)
  then have "\<not> is_space c"
    using t hd_dropWhile [of is_space s] by simp
  then have "length (dropWhile (\<lambda>c. \<not> is_space c) t) < length t"
    using c length_dropWhile_le [of "\<lambda>c. \<not> is_space c" cs] by (simp add: less_Suc_eq_le)
  also have "length t \<le> length s"
    using t length_dropWhile_le by simp
  finally show "(dropWhile (\<lambda>c. \<not> is_space c) t, s) \<in> measure length"
    by simp
qed simp

declare words.simps [simp del]

definition split_once :: "string \<Rightarrow> string list" where
  "split_once s =
     (let t = dropWhile is_space s; rest = dropWhile is_space (dropWhile (\<lambda>c. \<not> is_space c) t)
      in if t = [] then []
         else if rest = [] then [takeWhile (\<lambda>c. \<not> is_space c) t]
         else [takeWhile (\<lambda>c. \<not> is_space c) t, rest])"

text \<open>\<open>s.ljust(width)\<close> and \<open>s.replace(c, "")\<close>.\<close>

definition ljust :: "nat \<Rightarrow> string \<Rightarrow> string" where
  "ljust width s = s @ replicate (width - length s) (CHR '' '')"

definition remove_char :: "char \<Rightarrow> string \<Rightarrow> string" where
  "remove_char c s = filter (\<lambda>d. d \<noteq> c) s"

lemma words_unfold:
  "words s = (if dropWhile is_space s = [] then []
     else takeWhile (\<lambda>c. \<not> is_space c) (dropWhile is_space s) #
       words (dropWhile (\<lambda>c. \<not> is_space c) (dropWhile is_space s)))"
  by (subst words.simps) (simp add: Let_def)

lemma words_Nil_iff: "words s = [] \<longleftrightarrow> dropWhile is_space s = []"
  by (subst words_unfold) simp

lemma split_once_words: "length (split_once s) = min 2 (length (words s))"
proof -
  define u where "u = dropWhile (\<lambda>c. \<not> is_space c) (dropWhile is_space s)"
  have w: "words s = (if dropWhile is_space s = [] then []
      else takeWhile (\<lambda>c. \<not> is_space c) (dropWhile is_space s) # words u)"
    unfolding u_def by (rule words_unfold)
  have "words u = [] \<longleftrightarrow> dropWhile is_space u = []"
    by (rule words_Nil_iff)
  then show ?thesis
    unfolding w split_once_def Let_def u_def [symmetric]
    by (cases "words u") auto
qed

section \<open>Hexadecimal text\<close>

text \<open>\<open>bytes.fromhex\<close>: two digits per byte, ASCII white space skipped between bytes.\<close>

definition is_ascii_space :: "char \<Rightarrow> bool" where
  "is_ascii_space c = (let n = of_char c :: nat in n = 32 \<or> (9 \<le> n \<and> n \<le> 13))"

definition hex_value :: "char \<Rightarrow> nat option" where
  "hex_value c =
     (let n = of_char c :: nat
      in if 48 \<le> n \<and> n \<le> 57 then Some (n - 48)
         else if 97 \<le> n \<and> n \<le> 102 then Some (n - 87)
         else if 65 \<le> n \<and> n \<le> 70 then Some (n - 55)
         else None)"

fun from_hex :: "string \<Rightarrow> bytes option" where
  "from_hex [] = Some []"
| "from_hex [c] = (if is_ascii_space c then Some [] else None)"
| "from_hex (c # d # cs) =
     (if is_ascii_space c then from_hex (d # cs)
      else case (hex_value c, hex_value d) of
        (Some m, Some n) \<Rightarrow> map_option (\<lambda>bs. of_nat (16 * m + n) # bs) (from_hex cs)
      | _ \<Rightarrow> None)"

lemma of_char_digit:
  "n < 16 \<Longrightarrow> (of_char (hex_digit n) :: nat) = (if n < 10 then 48 + n else 87 + n)"
  by (simp add: hex_digit_def of_char_of)

lemma hex_value_digit [simp]: "n < 16 \<Longrightarrow> hex_value (hex_digit n) = Some n"
  by (simp add: hex_value_def of_char_digit)

lemma hex_digit_not_space [simp]: "n < 16 \<Longrightarrow> \<not> is_ascii_space (hex_digit n)" "n < 16 \<Longrightarrow> \<not> is_space (hex_digit n)"
  by (simp_all add: is_ascii_space_def is_space_def of_char_digit)

lemma byte_digits: "(of_nat (16 * (unat b div 16) + unat b mod 16) :: byte) = b" "unat (b :: byte) div 16 < 16"
proof -
  have "unat b < 256"
    using unsigned_less [of b, where ?'a = nat] by simp
  then show "unat (b :: byte) div 16 < 16"
    by simp
  have "16 * (unat b div 16) + unat b mod 16 = unat b"
    by simp
  then show "(of_nat (16 * (unat b div 16) + unat b mod 16) :: byte) = b"
    by simp
qed

lemma from_hex_hex [simp]: "from_hex (hex bs) = Some bs"
proof (induction bs)
  case (Cons b bs)
  then show ?case
    using byte_digits [of b] by (simp add: hex_def hex_of_byte_def)
qed (simp add: hex_def)

end
