(* ===== verification/Config.thy ===== *)
theory Config
  imports Python_Values Store_State
begin

text \<open>
  The configuration sections of \<open>lxmf_hub/config.py\<close> as records, their defaults, and the
  validation of the hashes an operator writes into them. Reading the JSON file and resolving
  paths is not modelled.
\<close>

definition DESTINATION_HASH_LENGTH :: nat where "DESTINATION_HASH_LENGTH = 16"

record egress_config =
  tokens_per_second :: real
  burst :: real
  max_attempts :: nat
  retry_backoff_sec :: real
  retry_backoff_max_sec :: real
  batch_size :: nat
  prefer_propagation :: bool
  path_request_grace_sec :: real
  unverified_hold_sec :: real
  delivery_timeout_sec :: real

record federation_config =
  fed_enabled :: bool
  peers :: "string list"
  sync_interval_sec :: real
  epoch_seconds :: int
  merkle_depth :: int
  retention_epochs :: int
  max_fetch_batch :: nat

record failover_config =
  fo_enabled :: bool
  peer_timeout_sec :: real
  check_interval_sec :: real
  notify_clients :: bool
  notify_isolation :: bool

record directory_config =
  dir_enabled :: bool
  dir_min_reply_interval :: real

record commands_config =
  cmd_enabled :: bool
  cmd_min_reply_interval :: real

record hub_config =
  hub_name :: string
  announce_interval_sec :: real
  announce_jitter_sec :: real
  default_acl_mode :: string
  author_field :: int
  author_prefix_in_content :: bool
  operator_identity :: "string list"
  egress_cfg :: egress_config
  federation_cfg :: federation_config
  failover_cfg :: failover_config
  directory_cfg :: directory_config
  commands_cfg :: commands_config

definition default_egress :: egress_config where
  "default_egress = \<lparr>tokens_per_second = 1/2, burst = 4, max_attempts = 10, retry_backoff_sec = 60,
     retry_backoff_max_sec = 3600, batch_size = 8, prefer_propagation = True,
     path_request_grace_sec = 15, unverified_hold_sec = 120, delivery_timeout_sec = 600\<rparr>"

definition default_federation :: federation_config where
  "default_federation = \<lparr>fed_enabled = True, peers = [], sync_interval_sec = 300,
     epoch_seconds = 3600, merkle_depth = 8, retention_epochs = 168, max_fetch_batch = 256\<rparr>"

definition default_failover :: failover_config where
  "default_failover = \<lparr>fo_enabled = True, peer_timeout_sec = 1800, check_interval_sec = 60,
     notify_clients = True, notify_isolation = True\<rparr>"

definition default_directory :: directory_config where
  "default_directory = \<lparr>dir_enabled = True, dir_min_reply_interval = 60\<rparr>"

definition default_commands :: commands_config where
  "default_commands = \<lparr>cmd_enabled = True, cmd_min_reply_interval = 10\<rparr>"

definition default_config :: hub_config where
  "default_config = \<lparr>hub_name = ''LXMF Group Hub'', announce_interval_sec = 1800,
     announce_jitter_sec = 60, default_acl_mode = ''invite'', author_field = 253,
     author_prefix_in_content = True, operator_identity = [], egress_cfg = default_egress,
     federation_cfg = default_federation, failover_cfg = default_failover,
     directory_cfg = default_directory, commands_cfg = default_commands\<rparr>"

text \<open>The loop of \<open>peer_hashes\<close> and \<open>operator_hashes\<close>; \<open>label\<close> starts the error text. An
  \<open>operator_identity\<close> of \<open>None\<close> is the empty list here and a single string a list of one.\<close>

fun parse_hashes :: "string \<Rightarrow> string list \<Rightarrow> store_error + bytes list" where
  "parse_hashes label [] = Inr []"
| "parse_hashes label (v # vs) =
     (case from_hex (strip v) of
        None \<Rightarrow> Inl (ValueError (label @ '' '' @ CHR 0x27 # v @ CHR 0x27 # '' is not hex''))
      | Some h \<Rightarrow>
          if length h \<noteq> DESTINATION_HASH_LENGTH
          then Inl (ValueError (label @ '' '' @ CHR 0x27 # v @ CHR 0x27 # '' is not a '' @
            show_nat DESTINATION_HASH_LENGTH @ ''-byte destination hash''))
          else case parse_hashes label vs of Inl e \<Rightarrow> Inl e | Inr hs \<Rightarrow> Inr (h # hs))"

definition peer_hashes :: "federation_config \<Rightarrow> store_error + bytes list" where
  "peer_hashes cfg = parse_hashes ''federation peer'' (peers cfg)"

definition operator_hashes :: "hub_config \<Rightarrow> store_error + bytes list" where
  "operator_hashes cfg = parse_hashes ''operator_identity'' (operator_identity cfg)"

lemma parse_hashes_length:
  "parse_hashes label vs = Inr hs \<Longrightarrow> h \<in> set hs \<Longrightarrow> length h = DESTINATION_HASH_LENGTH"
  by (induction vs arbitrary: hs) (auto split: option.splits sum.splits if_splits)

lemma dropWhile_none: "list_all (\<lambda>c. \<not> P c) s \<Longrightarrow> dropWhile P s = s"
  by (cases s) simp_all

lemma strip_no_space: "list_all (\<lambda>c. \<not> is_space c) s \<Longrightarrow> strip s = s"
  by (simp add: strip_def strip_of_def dropWhile_none)

lemma hex_no_space: "list_all (\<lambda>c. \<not> is_space c) (hex bs)"
  using byte_digits(2) by (induction bs) (auto simp: hex_def hex_of_byte_def)

lemma parse_hashes_hex:
  "\<forall>h \<in> set hs. length h = DESTINATION_HASH_LENGTH \<Longrightarrow> parse_hashes label (map hex hs) = Inr hs"
  by (induction hs) (simp_all add: strip_no_space hex_no_space)

end
