(* ===== verification/Store_Groups.thy ===== *)
theory Store_Groups
  imports Store_State "HOL-Library.AList"
begin

text \<open>
  Groups, members and the \<open>meta\<close> flags of \<open>lxmf_hub/store.py\<close>. Every operation is one
  committed transaction, so it is a function from the store to the store; \<open>now\<close> is the
  value of \<open>time.time()\<close> during the call.
\<close>

section \<open>Groups\<close>

definition create_group ::
    "string \<Rightarrow> string \<Rightarrow> bytes \<Rightarrow> string \<Rightarrow> time option \<Rightarrow> time \<Rightarrow> store
     \<Rightarrow> store_error + (group_record \<times> store)" where
  "create_group gid name key acl created now s =
     (if acl \<notin> {ACL_PUBLIC, ACL_INVITE}
      then Inl (ValueError (''Invalid ACL mode: '' @ acl))
      else
        let r = \<lparr>g_id = gid, g_name = name, g_key = key,
                 g_created = (case created of None \<Rightarrow> now | Some t \<Rightarrow> t), g_acl = acl\<rparr>
        in case sql_insert g_id r (s_groups s) of
             None \<Rightarrow> Inl IntegrityError
           | Some rows \<Rightarrow> Inr (r, s\<lparr>s_groups := rows\<rparr>))"

definition get_group :: "string \<Rightarrow> store \<Rightarrow> group_record option" where
  "get_group gid s = sql_lookup g_id gid (s_groups s)"

definition list_groups :: "store \<Rightarrow> group_record list" where
  "list_groups s = sort_key g_id (s_groups s)"

definition set_acl_mode :: "string \<Rightarrow> string \<Rightarrow> store \<Rightarrow> store_error + store" where
  "set_acl_mode gid acl s =
     (if acl \<notin> {ACL_PUBLIC, ACL_INVITE}
      then Inl (ValueError (''Invalid ACL mode: '' @ acl))
      else Inr (s\<lparr>s_groups := sql_update (\<lambda>r. g_id r = gid) (\<lambda>r. r\<lparr>g_acl := acl\<rparr>) (s_groups s)\<rparr>))"

definition delete_group :: "string \<Rightarrow> store \<Rightarrow> store" where
  "delete_group gid s =
     s\<lparr>s_groups := sql_delete (\<lambda>r. g_id r = gid) (s_groups s),
       s_members := sql_delete (\<lambda>r. mb_group r = gid) (s_members s)\<rparr>"

section \<open>Members\<close>

definition add_member :: "string \<Rightarrow> bytes \<Rightarrow> role \<Rightarrow> time \<Rightarrow> store \<Rightarrow> store" where
  "add_member gid user role now s =
     s\<lparr>s_members := sql_upsert member_key (\<lambda>old new. old\<lparr>mb_role := mb_role new\<rparr>)
        \<lparr>mb_group = gid, mb_user = user, mb_role = role, mb_added = now\<rparr> (s_members s)\<rparr>"

definition remove_member :: "string \<Rightarrow> bytes \<Rightarrow> store \<Rightarrow> store" where
  "remove_member gid user s =
     s\<lparr>s_members := sql_delete (\<lambda>r. mb_group r = gid \<and> mb_user r = user) (s_members s)\<rparr>"

definition get_role :: "string \<Rightarrow> bytes \<Rightarrow> store \<Rightarrow> role option" where
  "get_role gid user s = map_option mb_role (sql_lookup member_key (gid, user) (s_members s))"

definition list_members :: "string \<Rightarrow> bool \<Rightarrow> store \<Rightarrow> (bytes \<times> role) list" where
  "list_members gid include_banned s =
     map (\<lambda>r. (mb_user r, mb_role r))
       (filter (\<lambda>r. mb_group r = gid \<and> (include_banned \<or> mb_role r \<noteq> ROLE_BANNED)) (s_members s))"

definition groups_for_member :: "bytes \<Rightarrow> store \<Rightarrow> string list" where
  "groups_for_member user s =
     sort (map mb_group (filter (\<lambda>r. mb_user r = user \<and> mb_role r \<noteq> ROLE_BANNED) (s_members s)))"

text \<open>The loop of \<open>memberships_for\<close> over the selected rows; the dictionary is an association
  list in insertion order.\<close>

fun best_roles :: "(string \<times> role) list \<Rightarrow> (string \<times> role) list \<Rightarrow> (string \<times> role) list" where
  "best_roles [] roles = roles"
| "best_roles ((gid, role) # rows) roles =
     best_roles rows
       (if role = ROLE_ADMIN \<or> map_of roles gid = None then AList.update gid role roles
        else roles)"

definition memberships_for :: "bytes list \<Rightarrow> store \<Rightarrow> (string \<times> role) list" where
  "memberships_for users s =
     best_roles
       (map (\<lambda>r. (mb_group r, mb_role r))
         (filter (\<lambda>r. mb_user r \<in> set users \<and> mb_role r \<noteq> ROLE_BANNED) (s_members s))) []"

section \<open>Flags\<close>

definition meta_get :: "string \<Rightarrow> store \<Rightarrow> bytes option" where
  "meta_get key s = s_meta s key"

definition meta_set :: "string \<Rightarrow> bytes \<Rightarrow> store \<Rightarrow> store" where
  "meta_set key val s = s\<lparr>s_meta := (s_meta s)(key := Some val)\<rparr>"

text \<open>\<open>b"1"\<close> is the byte 49 and \<open>b"0"\<close> the byte 48.\<close>

definition get_flag :: "string \<Rightarrow> store \<Rightarrow> bool" where
  "get_flag key s \<longleftrightarrow> meta_get (''flag_'' @ key) s = Some [49]"

definition set_flag :: "string \<Rightarrow> bool \<Rightarrow> store \<Rightarrow> store" where
  "set_flag key val s = meta_set (''flag_'' @ key) (if val then [49] else [48]) s"

lemmas group_defs [store_defs] = create_group_def get_group_def list_groups_def set_acl_mode_def
  delete_group_def add_member_def remove_member_def get_role_def list_members_def
  groups_for_member_def memberships_for_def meta_get_def meta_set_def get_flag_def set_flag_def

section \<open>The operations keep the tables well-formed\<close>

lemma member_row_key [simp]:
  "member_key \<lparr>mb_group = g, mb_user = u, mb_role = r, mb_added = t\<rparr> = (g, u)"
  "member_key (x\<lparr>mb_role := r\<rparr>) = member_key x"
  by (simp_all add: member_key_def)

lemma store_ok_create_group:
  "create_group gid name key acl created now s = Inr (r, s') \<Longrightarrow> store_ok s \<Longrightarrow> store_ok s'"
  by (auto simp: create_group_def store_ok_def groups_ok_def Let_def
      split: if_splits option.splits intro: keys_distinct_insert)

lemma store_ok_set_acl_mode:
  "set_acl_mode gid acl s = Inr s' \<Longrightarrow> store_ok s \<Longrightarrow> store_ok s'"
  by (auto simp: set_acl_mode_def store_ok_def groups_ok_def split: if_splits
      intro!: keys_intros)

lemma store_ok_delete_group [simp]: "store_ok s \<Longrightarrow> store_ok (delete_group gid s)"
  by (auto simp: delete_group_def store_ok_def groups_ok_def intro: keys_intros)

lemma store_ok_add_member [simp]: "store_ok s \<Longrightarrow> store_ok (add_member gid user role now s)"
  by (auto simp: add_member_def store_ok_def groups_ok_def intro!: keys_intros)

lemma store_ok_remove_member [simp]: "store_ok s \<Longrightarrow> store_ok (remove_member gid user s)"
  by (auto simp: remove_member_def store_ok_def groups_ok_def intro: keys_intros)

lemma store_ok_set_flag [simp]: "store_ok (set_flag key val s) = store_ok s"
  by (simp add: set_flag_def meta_set_def store_ok_def)

section \<open>What lookups return after an operation\<close>

lemma get_role_add_member [simp]:
  "get_role g u (add_member gid user role now s) =
     (if g = gid \<and> u = user then Some role else get_role g u s)"
  by (auto simp: get_role_def add_member_def sql_simps split: option.splits)

lemma sql_lookup_member:
  "sql_lookup member_key (g, u) rows = Some r \<Longrightarrow> mb_group r = g \<and> mb_user r = u"
  by (auto simp: member_key_def dest: sql_lookup_SomeD)

lemma get_role_remove_member:
  "groups_ok s \<Longrightarrow> get_role g u (remove_member gid user s) =
     (if g = gid \<and> u = user then None else get_role g u s)"
  by (auto simp: get_role_def remove_member_def groups_ok_def sql_simps
      dest: sql_lookup_member split: option.splits)

lemma get_role_delete_group:
  "groups_ok s \<Longrightarrow> get_role g u (delete_group gid s) = (if g = gid then None else get_role g u s)"
  by (auto simp: get_role_def delete_group_def groups_ok_def sql_simps
      dest: sql_lookup_member split: option.splits)

lemma get_group_delete_group:
  "groups_ok s \<Longrightarrow> get_group g (delete_group gid s) = (if g = gid then None else get_group g s)"
  by (auto simp: get_group_def delete_group_def groups_ok_def sql_simps
      dest: sql_lookup_SomeD split: option.splits)

lemma get_group_add_member [simp]: "get_group g (add_member gid user role now s) = get_group g s"
  by (simp add: get_group_def add_member_def)

lemma get_flag_set_flag [simp]:
  "get_flag k (set_flag key val s) = (if k = key then val else get_flag k s)"
  by (simp add: get_flag_def set_flag_def meta_get_def meta_set_def)

lemma add_member_frame [simp]:
  "s_messages (add_member g u r t s) = s_messages s" "s_egress (add_member g u r t s) = s_egress s"
  "s_adoptions (add_member g u r t s) = s_adoptions s"
  "s_peer_members (add_member g u r t s) = s_peer_members s"
  "s_users (add_member g u r t s) = s_users s" "s_groups (add_member g u r t s) = s_groups s"
  "s_personas (add_member g u r t s) = s_personas s"
  "s_identities (add_member g u r t s) = s_identities s"
  "s_links (add_member g u r t s) = s_links s" "s_unlinks (add_member g u r t s) = s_unlinks s"
  by (simp_all add: add_member_def)

lemma get_role_iff_row:
  "groups_ok s \<Longrightarrow> get_role g u s = Some role \<longleftrightarrow>
     (\<exists>r \<in> set (s_members s). mb_group r = g \<and> mb_user r = u \<and> mb_role r = role)"
  unfolding get_role_def groups_ok_def
  by (auto simp: sql_lookup_iff member_key_def)

lemma list_members_iff:
  "groups_ok s \<Longrightarrow> (u, role) \<in> set (list_members g include_banned s) \<longleftrightarrow>
     get_role g u s = Some role \<and> (include_banned \<or> role \<noteq> ROLE_BANNED)"
  by (auto simp: get_role_iff_row list_members_def)

lemma list_members_distinct: "groups_ok s \<Longrightarrow> distinct (map fst (list_members g b s))"
proof -
  assume "groups_ok s"
  then have "distinct (map member_key (filter (\<lambda>r. mb_group r = g \<and>
      (b \<or> mb_role r \<noteq> ROLE_BANNED)) (s_members s)))"
    by (simp add: groups_ok_def keys_distinct_def distinct_map_filter)
  then show ?thesis
    by (auto simp: list_members_def distinct_map inj_on_def member_key_def comp_def)
qed

lemma groups_for_member_iff:
  "groups_ok s \<Longrightarrow> g \<in> set (groups_for_member u s) \<longleftrightarrow>
     (\<exists>role. get_role g u s = Some role \<and> role \<noteq> ROLE_BANNED)"
  by (auto simp: get_role_iff_row groups_for_member_def)

subsection \<open>The best role per group\<close>

definition better :: "role option \<Rightarrow> role \<Rightarrow> role option" where
  "better old new = (if new = ROLE_ADMIN \<or> old = None then Some new else old)"

lemma map_of_best_roles:
  "map_of (best_roles rows roles) g =
     fold (\<lambda>r old. better old (snd r)) (filter (\<lambda>r. fst r = g) rows) (map_of roles g)"
  by (induction rows roles rule: best_roles.induct) (auto simp: better_def update_conv)

lemma fold_better:
  "ROLE_BANNED \<notin> snd ` set rows \<Longrightarrow> old \<noteq> Some ROLE_BANNED \<Longrightarrow>
   fold (\<lambda>r old. better old (snd r)) rows old =
     (if old = Some ROLE_ADMIN \<or> ROLE_ADMIN \<in> snd ` set rows then Some ROLE_ADMIN
      else if old = None \<and> rows = [] then None else Some ROLE_MEMBER)"
  by (induction rows arbitrary: old)
    (auto simp: better_def, (metis role.exhaust option.exhaust)+)

lemma memberships_for_spec:
  assumes "groups_ok s"
  shows "map_of (memberships_for users s) g =
    (if \<exists>u \<in> set users. get_role g u s = Some ROLE_ADMIN then Some ROLE_ADMIN
     else if \<exists>u \<in> set users. get_role g u s = Some ROLE_MEMBER then Some ROLE_MEMBER else None)"
proof -
  define rows where "rows = filter (\<lambda>r. fst r = g) (map (\<lambda>r. (mb_group r, mb_role r))
    (filter (\<lambda>r. mb_user r \<in> set users \<and> mb_role r \<noteq> ROLE_BANNED) (s_members s)))"
  have "map_of (memberships_for users s) g = fold (\<lambda>r old. better old (snd r)) rows None"
    by (simp add: memberships_for_def map_of_best_roles rows_def)
  also have "\<dots> = (if ROLE_ADMIN \<in> snd ` set rows then Some ROLE_ADMIN
      else if rows = [] then None else Some ROLE_MEMBER)"
    by (subst fold_better) (auto simp: rows_def)
  finally have eq: "map_of (memberships_for users s) g =
    (if ROLE_ADMIN \<in> snd ` set rows then Some ROLE_ADMIN
     else if rows = [] then None else Some ROLE_MEMBER)" .
  have mem: "role \<in> snd ` set rows \<longleftrightarrow>
      role \<noteq> ROLE_BANNED \<and> (\<exists>u \<in> set users. get_role g u s = Some role)" for role
    unfolding rows_def by (auto simp: get_role_iff_row [OF assms] image_iff)
  have "rows = [] \<longleftrightarrow> ROLE_ADMIN \<notin> snd ` set rows \<and> ROLE_MEMBER \<notin> snd ` set rows"
    using mem [of ROLE_BANNED] role.exhaust by (cases rows) (auto, metis)
  with eq show ?thesis
    by (simp only: mem) auto
qed

end
