(* ===== verification/Destinations.thy ===== *)
theory Destinations
  imports Config Store_Groups
begin

text \<open>
  \<open>VirtualDestinationManager\<close> of \<open>lxmf_hub/destinations.py\<close>: which groups are attached to
  the router, under which destination hash, and when each is next announced. An RNS identity
  is known by the destination hash of its key, \<open>dest_of key\<close>, which fails for a key RNS cannot
  load; the random jitter of an announce is an argument.
\<close>

record destinations =
  ds_dests :: "(string \<times> bytes) list"
  ds_by_hash :: "bytes \<Rightarrow> string option"
  ds_next :: "(string \<times> time) list"
  ds_router :: "bytes \<Rightarrow> bool"
  ds_announced :: "bytes list"

definition no_destinations :: destinations where
  "no_destinations = \<lparr>ds_dests = [], ds_by_hash = (\<lambda>_. None), ds_next = [],
     ds_router = (\<lambda>_. False), ds_announced = []\<rparr>"

definition destination_for :: "string \<Rightarrow> destinations \<Rightarrow> bytes option" where
  "destination_for gid d = map_of (ds_dests d) gid"

definition group_for_hash :: "bytes \<Rightarrow> destinations \<Rightarrow> string option" where
  "group_for_hash h d = ds_by_hash d h"

definition attached_groups :: "destinations \<Rightarrow> string list" where
  "attached_groups d = sort (map fst (ds_dests d))"

definition group_destination_hash :: "(bytes \<Rightarrow> bytes option) \<Rightarrow> bytes \<Rightarrow> store_error + bytes" where
  "group_destination_hash dest_of key =
     (case dest_of key of
        None \<Rightarrow> Inl (ValueError ''Stored group identity key could not be loaded'')
      | Some h \<Rightarrow> Inr h)"

definition attach ::
    "(bytes \<Rightarrow> bytes option) \<Rightarrow> group_record \<Rightarrow> time \<Rightarrow> destinations
     \<Rightarrow> store_error + (bytes \<times> destinations)" where
  "attach dest_of g now d =
     (case destination_for (g_id g) d of
        Some h \<Rightarrow> Inr (h, d)
      | None \<Rightarrow>
          (case group_destination_hash dest_of (g_key g) of
             Inl e \<Rightarrow> Inl e
           | Inr h \<Rightarrow>
               Inr (h, d\<lparr>ds_router := (ds_router d)(h := True),
                         ds_dests := dict_set (g_id g) h (ds_dests d),
                         ds_by_hash := (ds_by_hash d)(h := Some (g_id g)),
                         ds_next := dict_set (g_id g) now (ds_next d)\<rparr>)))"

definition detach :: "string \<Rightarrow> destinations \<Rightarrow> destinations" where
  "detach gid d =
     (case destination_for gid d of
        None \<Rightarrow> d
      | Some h \<Rightarrow> d\<lparr>ds_dests := dict_pop gid (ds_dests d),
                     ds_router := (ds_router d)(h := False),
                     ds_by_hash := (ds_by_hash d)(h := None),
                     ds_next := dict_pop gid (ds_next d)\<rparr>)"

text \<open>The loop of \<open>load_groups\<close>: the ids attached, in order, or the first failure.\<close>

fun attach_all ::
    "(bytes \<Rightarrow> bytes option) \<Rightarrow> group_record list \<Rightarrow> time \<Rightarrow> destinations
     \<Rightarrow> (store_error + string list) \<times> destinations" where
  "attach_all dest_of [] now d = (Inr [], d)"
| "attach_all dest_of (g # gs) now d =
     (if destination_for (g_id g) d \<noteq> None then attach_all dest_of gs now d
      else case attach dest_of g now d of
        Inl e \<Rightarrow> (Inl e, d)
      | Inr (h, d1) \<Rightarrow>
          (case attach_all dest_of gs now d1 of
             (Inl e, d2) \<Rightarrow> (Inl e, d2)
           | (Inr ids, d2) \<Rightarrow> (Inr (g_id g # ids), d2)))"

definition load_groups ::
    "(bytes \<Rightarrow> bytes option) \<Rightarrow> time \<Rightarrow> store \<Rightarrow> destinations
     \<Rightarrow> (store_error + string list) \<times> destinations" where
  "load_groups dest_of now s d = attach_all dest_of (list_groups s) now d"

definition announce_delay :: "hub_config \<Rightarrow> (real \<Rightarrow> real) \<Rightarrow> real" where
  "announce_delay cfg uniform = announce_interval_sec cfg + uniform (max 0 (announce_jitter_sec cfg))"

definition announce ::
    "hub_config \<Rightarrow> (real \<Rightarrow> real) \<Rightarrow> time \<Rightarrow> string \<Rightarrow> destinations \<Rightarrow> bool \<times> destinations" where
  "announce cfg uniform now gid d =
     (case destination_for gid d of
        None \<Rightarrow> (False, d)
      | Some h \<Rightarrow> (True, d\<lparr>ds_announced := ds_announced d @ [h],
          ds_next := dict_set gid (now + announce_delay cfg uniform) (ds_next d)\<rparr>))"

fun announce_each ::
    "hub_config \<Rightarrow> (real \<Rightarrow> real) \<Rightarrow> time \<Rightarrow> string list \<Rightarrow> destinations \<Rightarrow> string list \<times> destinations" where
  "announce_each cfg uniform now [] d = ([], d)"
| "announce_each cfg uniform now (gid # gids) d =
     (let (sent, d1) = announce cfg uniform now gid d;
          (ids, d2) = announce_each cfg uniform now gids d1
      in (if sent then gid # ids else ids, d2))"

definition announce_due ::
    "hub_config \<Rightarrow> (real \<Rightarrow> real) \<Rightarrow> time \<Rightarrow> destinations \<Rightarrow> string list \<times> destinations" where
  "announce_due cfg uniform now d =
     announce_each cfg uniform now (map fst (filter (\<lambda>(gid, when). when \<le> now) (ds_next d))) d"

section \<open>The two indexes agree\<close>

definition destinations_ok :: "destinations \<Rightarrow> bool" where
  "destinations_ok d \<longleftrightarrow> distinct (map fst (ds_dests d)) \<and> distinct (map fst (ds_next d)) \<and>
     fst ` set (ds_next d) = fst ` set (ds_dests d) \<and>
     (\<forall>g h. destination_for g d = Some h \<longleftrightarrow> group_for_hash h d = Some g) \<and>
     (\<forall>h. ds_router d h \<longleftrightarrow> group_for_hash h d \<noteq> None)"

lemma destinations_ok_empty [simp]: "destinations_ok no_destinations"
  by (simp add: destinations_ok_def no_destinations_def destination_for_def group_for_hash_def)

lemma destinations_okD:
  assumes "destinations_ok d"
  shows "distinct (map fst (ds_dests d))" "distinct (map fst (ds_next d))"
    "fst ` set (ds_next d) = fst ` set (ds_dests d)"
    "destination_for g d = Some h \<longleftrightarrow> group_for_hash h d = Some g"
    "ds_router d h \<longleftrightarrow> group_for_hash h d \<noteq> None"
  using assms unfolding destinations_ok_def by blast+

lemma destinations_ok_attach:
  assumes "destinations_ok d" and "attach dest_of g now d = Inr (h, d')"
    and "destination_for (g_id g) d = None \<Longrightarrow> group_for_hash h d = None"
  shows "destinations_ok d'" and "destination_for (g_id g) d' = Some h"
proof -
  note ok = destinations_okD [OF assms(1)]
  have "destinations_ok d' \<and> destination_for (g_id g) d' = Some h"
  proof (cases "destination_for (g_id g) d")
    case None
    have eq: "d' = d\<lparr>ds_router := (ds_router d)(h := True), ds_dests := dict_set (g_id g) h (ds_dests d),
        ds_by_hash := (ds_by_hash d)(h := Some (g_id g)), ds_next := dict_set (g_id g) now (ds_next d)\<rparr>"
      using assms(2) None by (auto simp: attach_def split: sum.splits)
    have d': "destination_for x d' = (if x = g_id g then Some h else destination_for x d)"
      "group_for_hash k d' = (if k = h then Some (g_id g) else group_for_hash k d)"
      "ds_router d' k = (k = h \<or> ds_router d k)" for x k
      by (simp_all add: eq destination_for_def group_for_hash_def)
    have keys: "distinct (map fst (ds_dests d'))" "distinct (map fst (ds_next d'))"
      "fst ` set (ds_next d') = fst ` set (ds_dests d')"
      using ok(1-3) by (simp_all add: eq)
    have "destination_for x d' = Some k \<longleftrightarrow> group_for_hash k d' = Some x" for x k
      using ok(4) [of x k] ok(4) [of x h] ok(4) [of "g_id g" k] None assms(3) [OF None] by (simp add: d')
    moreover have "ds_router d' k \<longleftrightarrow> group_for_hash k d' \<noteq> None" for k
      using ok(5) [of k] by (simp add: d')
    ultimately show ?thesis
      unfolding destinations_ok_def using keys d'(1) [of "g_id g"] by simp
  qed (use assms in \<open>simp add: attach_def\<close>)
  then show "destinations_ok d'" "destination_for (g_id g) d' = Some h"
    by simp_all
qed

lemma detach_lookups:
  assumes "destinations_ok d" and "destination_for gid d = Some h"
  shows "destination_for x (detach gid d) = (if x = gid then None else destination_for x d)"
    and "group_for_hash k (detach gid d) = (if k = h then None else group_for_hash k d)"
    and "ds_router (detach gid d) k = (k \<noteq> h \<and> ds_router d k)"
    and "destinations_ok (detach gid d)"
proof -
  note ok = destinations_okD [OF assms(1)]
  let ?d = "detach gid d"
  have eq: "?d = d\<lparr>ds_dests := dict_pop gid (ds_dests d), ds_router := (ds_router d)(h := False),
      ds_by_hash := (ds_by_hash d)(h := None), ds_next := dict_pop gid (ds_next d)\<rparr>"
    using assms(2) by (simp add: detach_def)
  have d': "destination_for x ?d = (if x = gid then None else destination_for x d)"
    "group_for_hash k ?d = (if k = h then None else group_for_hash k d)"
    "ds_router ?d k = (k \<noteq> h \<and> ds_router d k)" for x k
    unfolding eq by (simp_all add: destination_for_def group_for_hash_def)
  have keys: "distinct (map fst (ds_dests ?d))" "distinct (map fst (ds_next ?d))"
    "fst ` set (ds_next ?d) = fst ` set (ds_dests ?d)"
    using ok(1-3) unfolding eq by simp_all
  have "destination_for x ?d = Some k \<longleftrightarrow> group_for_hash k ?d = Some x" for x k
    using ok(4) [of x k] ok(4) [of x h] ok(4) [of gid k] assms(2) by (auto simp: d')
  moreover have "ds_router ?d k \<longleftrightarrow> group_for_hash k ?d \<noteq> None" for k
    using ok(5) [of k] by (simp add: d')
  ultimately show "destinations_ok ?d"
    unfolding destinations_ok_def using keys by blast
  show "destination_for x ?d = (if x = gid then None else destination_for x d)"
    "group_for_hash k ?d = (if k = h then None else group_for_hash k d)"
    "ds_router ?d k = (k \<noteq> h \<and> ds_router d k)"
    by (fact d')+
qed

lemma detach_absent: "destination_for gid d = None \<Longrightarrow> detach gid d = d"
  by (simp add: detach_def)

end
