(* ===== verification/Store_Messages.thy ===== *)
theory Store_Messages
  imports Store_Groups
begin

text \<open>
  The message log and the egress queue of \<open>lxmf_hub/store.py\<close>: deduplicating insertion,
  the transaction that stores a message and queues it for its recipients, the epoch queries
  that federation builds its Merkle trees from, and retention. The last section models the
  transaction statement by statement, with a crash possible after each.
\<close>

section \<open>Operations\<close>

definition has_message :: "bytes \<Rightarrow> store \<Rightarrow> bool" where
  "has_message h s \<longleftrightarrow> has_key m_hash h (s_messages s)"

definition message_row_of :: "message_record \<Rightarrow> time \<Rightarrow> message_row" where
  "message_row_of r now = message_record.extend r (message_row.fields now)"

definition store_message :: "message_record \<Rightarrow> time \<Rightarrow> store \<Rightarrow> bool \<times> store" where
  "store_message r now s =
     (let (stored, rows) = sql_ignore m_hash (message_row_of r now) (s_messages s)
      in (stored, s\<lparr>s_messages := rows\<rparr>))"

definition enqueue_egress ::
    "string \<Rightarrow> bytes \<Rightarrow> bytes \<Rightarrow> time \<Rightarrow> time \<Rightarrow> store \<Rightarrow> bool \<times> store" where
  "enqueue_egress gid user h not_before now s =
     (let (inserted, q) = queue_insert_ignore egress_key
            \<lparr>e_group = gid, e_recipient = user, e_msg = h\<rparr> (max now not_before) now (s_egress s)
      in (inserted, s\<lparr>s_egress := q\<rparr>))"

text \<open>The loop over the recipients inside the transaction, counting the rows inserted.\<close>

fun enqueue_all :: "string \<Rightarrow> bytes \<Rightarrow> bytes list \<Rightarrow> time \<Rightarrow> store \<Rightarrow> nat \<times> store" where
  "enqueue_all gid h [] now s = (0, s)"
| "enqueue_all gid h (user # users) now s =
     (let (inserted, s1) = enqueue_egress gid user h now now s;
          (n, s2) = enqueue_all gid h users now s1
      in ((if inserted then n + 1 else n), s2))"

definition store_and_enqueue ::
    "message_record \<Rightarrow> bytes list \<Rightarrow> time \<Rightarrow> store \<Rightarrow> (bool \<times> nat) \<times> store" where
  "store_and_enqueue r recipients now s =
     (let (stored, s1) = store_message r now s
      in if \<not> stored then ((False, 0), s1)
         else let (n, s2) = enqueue_all (m_group r) (m_hash r) recipients now s1
              in ((True, n), s2))"

definition get_message :: "bytes \<Rightarrow> store \<Rightarrow> message_record option" where
  "get_message h s = map_option message_record.truncate (sql_lookup m_hash h (s_messages s))"

definition get_messages :: "bytes list \<Rightarrow> store \<Rightarrow> message_record list" where
  "get_messages hs s =
     concat (map (\<lambda>chunk. map message_record.truncate
       (filter (\<lambda>r. m_hash r \<in> set chunk) (s_messages s))) (chunks 256 hs))"

definition epoch_hashes :: "string \<Rightarrow> int \<Rightarrow> int \<Rightarrow> store \<Rightarrow> bytes list" where
  "epoch_hashes gid epoch epoch_seconds s =
     (let start = epoch * epoch_seconds
      in sort (map m_hash (filter (\<lambda>r. m_group r = gid \<and> real_of_int start \<le> m_time r \<and>
           m_time r < real_of_int (start + epoch_seconds)) (s_messages s))))"

definition populated_epochs :: "string \<Rightarrow> int \<Rightarrow> time \<Rightarrow> store \<Rightarrow> int list" where
  "populated_epochs gid epoch_seconds since s =
     sort (remdups (map (\<lambda>r. py_int (m_time r / real_of_int epoch_seconds))
       (filter (\<lambda>r. m_group r = gid \<and> since \<le> m_time r) (s_messages s))))"

definition group_history :: "string \<Rightarrow> nat \<Rightarrow> store \<Rightarrow> message_record list" where
  "group_history gid limit s =
     rev (map message_record.truncate
       (take limit (sort_key (\<lambda>r. - m_time r) (filter (\<lambda>r. m_group r = gid) (s_messages s)))))"

definition due_egress :: "nat \<Rightarrow> time \<Rightarrow> store \<Rightarrow> egress_item qrow list" where
  "due_egress limit now s = queue_due limit now (s_egress s)"

definition egress_depth :: "store \<Rightarrow> nat" where
  "egress_depth s = queue_depth (s_egress s)"

definition complete_egress :: "nat \<Rightarrow> store \<Rightarrow> store" where
  "complete_egress i s = s\<lparr>s_egress := queue_complete i (s_egress s)\<rparr>"

definition defer_egress :: "nat \<Rightarrow> real \<Rightarrow> bool \<Rightarrow> time \<Rightarrow> store \<Rightarrow> store" where
  "defer_egress i delay count_attempt now s =
     s\<lparr>s_egress := queue_defer i delay count_attempt now (s_egress s)\<rparr>"

text \<open>The second \<open>DELETE\<close> of \<open>prune_messages\<close> runs in the same transaction.\<close>

definition prune_messages :: "time \<Rightarrow> store \<Rightarrow> nat \<times> store" where
  "prune_messages older_than s =
     (let kept = sql_delete (\<lambda>r. m_time r < older_than) (s_messages s)
      in (length (s_messages s) - length kept,
          s\<lparr>s_messages := kept,
            s_egress := (s_egress s)\<lparr>q_rows :=
              sql_delete (\<lambda>r. \<not> has_key m_hash (e_msg (q_item r)) kept) (q_rows (s_egress s))\<rparr>\<rparr>))"

lemmas message_defs [store_defs] = has_message_def message_row_of_def store_message_def
  enqueue_egress_def store_and_enqueue_def get_message_def get_messages_def epoch_hashes_def
  populated_epochs_def group_history_def due_egress_def egress_depth_def complete_egress_def
  defer_egress_def prune_messages_def

section \<open>Basic facts\<close>

lemma message_row_of_fields [simp]:
  "m_hash (message_row_of r now) = m_hash r" "m_group (message_row_of r now) = m_group r"
  "m_sender (message_row_of r now) = m_sender r" "m_time (message_row_of r now) = m_time r"
  "m_payload (message_row_of r now) = m_payload r" "m_origin (message_row_of r now) = m_origin r"
  "message_record.truncate (message_row_of r now) = r"
  by (simp_all add: message_row_of_def message_record.defs message_row.defs)

lemma store_message_known: "has_message (m_hash r) s \<Longrightarrow> store_message r now s = (False, s)"
  by (simp add: store_message_def has_message_def sql_ignore_def)

lemma store_message_new:
  "\<not> has_message (m_hash r) s \<Longrightarrow>
   store_message r now s = (True, s\<lparr>s_messages := s_messages s @ [message_row_of r now]\<rparr>)"
  by (simp add: store_message_def has_message_def sql_ignore_def)

lemma enqueue_egress_frame [simp]:
  "snd (enqueue_egress g u h nb now s) =
     s\<lparr>s_egress := snd (queue_insert_ignore egress_key
        \<lparr>e_group = g, e_recipient = u, e_msg = h\<rparr> (max now nb) now (s_egress s))\<rparr>"
  by (simp add: enqueue_egress_def split: prod.splits)

lemma enqueue_all_frame:
  "\<exists>q. snd (enqueue_all g h us now s) = s\<lparr>s_egress := q\<rparr>"
proof (induction us arbitrary: s)
  case Nil
  have "s = s\<lparr>s_egress := s_egress s\<rparr>" by simp
  then show ?case by (metis enqueue_all.simps(1) snd_conv)
next
  case (Cons u us)
  obtain b s1 where e: "enqueue_egress g u h now now s = (b, s1)"
    by (cases "enqueue_egress g u h now now s")
  then have "\<exists>q. s1 = s\<lparr>s_egress := q\<rparr>"
    using enqueue_egress_frame [of g u h now now s] by auto
  then show ?case
    using Cons.IH [of s1] e by (auto simp: case_prod_beta)
qed

lemma enqueue_all_fields [simp]:
  "s_messages (snd (enqueue_all g h us now s)) = s_messages s"
  "s_groups (snd (enqueue_all g h us now s)) = s_groups s"
  "s_members (snd (enqueue_all g h us now s)) = s_members s"
  "s_adoptions (snd (enqueue_all g h us now s)) = s_adoptions s"
  "s_peer_members (snd (enqueue_all g h us now s)) = s_peer_members s"
  using enqueue_all_frame [of g h us now s] by auto

lemma store_and_enqueue_fields [simp]:
  "s_groups (snd (store_and_enqueue r us now s)) = s_groups s"
  "s_members (snd (store_and_enqueue r us now s)) = s_members s"
  "s_adoptions (snd (store_and_enqueue r us now s)) = s_adoptions s"
  "s_peer_members (snd (store_and_enqueue r us now s)) = s_peer_members s"
  by (simp_all add: store_and_enqueue_def store_message_def case_prod_beta Let_def)

section \<open>Well-formedness\<close>

lemma messages_ok_store_message:
  assumes "messages_ok s"
  shows "messages_ok (snd (store_message r now s))"
proof (cases "has_message (m_hash r) s")
  case False
  with assms show ?thesis
    by (auto simp: store_message_new messages_ok_def has_message_def has_key_def list_all_iff)
qed (use assms in \<open>simp add: store_message_known\<close>)

lemma store_ok_store_message [simp]:
  "store_ok s \<Longrightarrow> store_ok (snd (store_message r now s))"
  using messages_ok_store_message [of s r now]
  by (simp add: store_ok_def store_message_def case_prod_beta Let_def)

lemma messages_ok_enqueue_egress:
  "messages_ok s \<Longrightarrow> has_message h s \<Longrightarrow> messages_ok (snd (enqueue_egress g u h nb now s))"
  by (auto simp: messages_ok_def has_message_def intro: keys_distinct_insert_ignore)
     (auto simp: queue_insert_ignore_def fresh_row_def)

lemma store_ok_enqueue_egress [simp]:
  "store_ok s \<Longrightarrow> has_message h s \<Longrightarrow> store_ok (snd (enqueue_egress g u h nb now s))"
  using messages_ok_enqueue_egress [of s h g u nb now] by (simp add: store_ok_def)

lemma has_message_enqueue_egress [simp]:
  "has_message h' (snd (enqueue_egress g u h nb now s)) = has_message h' s"
  by (simp add: has_message_def)

lemma store_ok_enqueue_all:
  "store_ok s \<Longrightarrow> has_message h s \<Longrightarrow> store_ok (snd (enqueue_all g h us now s))"
proof (induction us arbitrary: s)
  case (Cons u us)
  obtain b s1 where e: "enqueue_egress g u h now now s = (b, s1)"
    by (cases "enqueue_egress g u h now now s")
  then have "store_ok s1" and "has_message h s1"
    using Cons.prems store_ok_enqueue_egress [of s h g u now now]
      has_message_enqueue_egress [of h g u h now now s] by simp_all
  with Cons.IH e show ?case by (simp add: case_prod_beta)
qed simp

lemma has_message_store_message:
  "has_message h (snd (store_message r now s)) \<longleftrightarrow> has_message h s \<or> h = m_hash r"
  by (auto simp: store_message_def has_message_def has_key_def sql_ignore_def)

lemma store_ok_store_and_enqueue [simp]:
  assumes "store_ok s"
  shows "store_ok (snd (store_and_enqueue r us now s))"
proof -
  obtain b s1 where e: "store_message r now s = (b, s1)"
    by (cases "store_message r now s")
  then have "store_ok s1" and "has_message (m_hash r) s1"
    using store_ok_store_message [OF assms, of r now] has_message_store_message [of "m_hash r" r now s]
    by simp_all
  then show ?thesis
    by (simp add: store_and_enqueue_def e case_prod_beta Let_def store_ok_enqueue_all)
qed

lemma has_message_store_and_enqueue:
  "has_message h (snd (store_and_enqueue r us now s)) \<longleftrightarrow> has_message h s \<or> h = m_hash r"
  using has_message_store_message [of h r now s]
  by (simp add: store_and_enqueue_def case_prod_beta Let_def has_message_def)

lemma store_ok_complete_egress [simp]: "store_ok s \<Longrightarrow> store_ok (complete_egress i s)"
  by (auto simp: store_ok_def complete_egress_def messages_ok_def intro: map_key_complete)
     (auto simp: queue_complete_def list_all_iff)

lemma store_ok_defer_egress [simp]: "store_ok s \<Longrightarrow> store_ok (defer_egress i d c now s)"
  by (auto simp: store_ok_def defer_egress_def messages_ok_def intro: map_key_defer)
     (auto simp: queue_defer_def list_all_iff)

lemma store_ok_prune_messages [simp]: "store_ok s \<Longrightarrow> store_ok (snd (prune_messages t s))"
  by (auto simp: store_ok_def prune_messages_def Let_def messages_ok_def queue_ok_def
      list_all_iff intro: keys_intros)

section \<open>Who is queued for what\<close>

definition is_queued :: "bytes \<Rightarrow> bytes \<Rightarrow> store \<Rightarrow> bool" where
  "is_queued user h s \<longleftrightarrow> has_key (egress_key \<circ> q_item) (user, h) (q_rows (s_egress s))"

lemma is_queued_enqueue_egress [simp]:
  "is_queued u' h' (snd (enqueue_egress g u h nb now s)) \<longleftrightarrow>
     is_queued u' h' s \<or> (u' = u \<and> h' = h)"
  by (auto simp: is_queued_def queue_insert_ignore_def fresh_row_def has_key_def egress_key_def)

lemma enqueue_egress_fst [simp]:
  "fst (enqueue_egress g u h nb now s) \<longleftrightarrow> \<not> is_queued u h s"
  by (auto simp: enqueue_egress_def is_queued_def queue_insert_ignore_def egress_key_def
      split: prod.splits)

lemma is_queued_enqueue_all:
  "is_queued u h' (snd (enqueue_all g h us now s)) \<longleftrightarrow>
     is_queued u h' s \<or> (h' = h \<and> u \<in> set us)"
proof (induction us arbitrary: s)
  case (Cons v us)
  let ?s1 = "snd (enqueue_egress g v h now now s)"
  have "snd (enqueue_all g h (v # us) now s) = snd (enqueue_all g h us now ?s1)"
    by (simp add: case_prod_beta Let_def)
  then have "is_queued u h' (snd (enqueue_all g h (v # us) now s)) \<longleftrightarrow>
      is_queued u h' ?s1 \<or> (h' = h \<and> u \<in> set us)"
    by (simp only: Cons.IH)
  also have "\<dots> \<longleftrightarrow> is_queued u h' s \<or> (h' = h \<and> u \<in> set (v # us))"
    by (simp only: is_queued_enqueue_egress) auto
  finally show ?case .
qed simp

lemma enqueue_all_count:
  "fst (enqueue_all g h us now s) = card (set us - {u. is_queued u h s})"
proof (induction us arbitrary: s)
  case (Cons u us)
  let ?s1 = "snd (enqueue_egress g u h now now s)"
  have "{v. is_queued v h ?s1} = insert u {v. is_queued v h s}"
    by (auto simp del: enqueue_egress_frame)
  with Cons.IH [of ?s1] have IH:
    "fst (enqueue_all g h us now ?s1) = card (set us - insert u {v. is_queued v h s})"
    by simp
  let ?X = "set us - insert u {v. is_queued v h s}"
  have step: "fst (enqueue_all g h (u # us) now s) =
      (if is_queued u h s then 0 else 1) + fst (enqueue_all g h us now ?s1)"
    by (simp add: case_prod_beta Let_def)
  have "set (u # us) - {v. is_queued v h s} = (if is_queued u h s then ?X else insert u ?X)"
    by auto
  then have "card (set (u # us) - {v. is_queued v h s}) =
      (if is_queued u h s then 0 else 1) + card ?X"
    by (simp only:) simp
  then show ?case
    by (simp only: step IH)
qed simp

text \<open>Referential integrity: nobody is queued for a message the store does not know.\<close>

lemma is_queued_known: "messages_ok s \<Longrightarrow> is_queued u h s \<Longrightarrow> has_message h s"
  by (auto simp: messages_ok_def is_queued_def has_message_def has_key_def list_all_iff egress_key_def)

lemma is_queued_store_message [simp]:
  "is_queued u h (snd (store_message r now s)) = is_queued u h s"
  by (simp add: store_message_def is_queued_def case_prod_beta Let_def)

lemma store_and_enqueue_known:
  "has_message (m_hash r) s \<Longrightarrow> store_and_enqueue r us now s = ((False, 0), s)"
  by (simp add: store_and_enqueue_def store_message_known)

lemma store_and_enqueue_result:
  "messages_ok s \<Longrightarrow> \<not> has_message (m_hash r) s \<Longrightarrow>
   fst (store_and_enqueue r us now s) = (True, card (set us))"
proof -
  assume ok: "messages_ok s" and new: "\<not> has_message (m_hash r) s"
  have "{u. is_queued u (m_hash r) (snd (store_message r now s))} = {}"
    using is_queued_known [OF ok] new by auto
  then show ?thesis
    using store_message_new [OF new, of now]
    by (simp add: store_and_enqueue_def case_prod_beta Let_def enqueue_all_count)
qed

lemma is_queued_store_and_enqueue:
  "messages_ok s \<Longrightarrow> \<not> has_message (m_hash r) s \<Longrightarrow>
   is_queued u h (snd (store_and_enqueue r us now s)) \<longleftrightarrow>
     is_queued u h s \<or> (h = m_hash r \<and> u \<in> set us)"
  using store_message_new [of r s now] is_queued_store_message [of u h r now s]
  by (simp add: store_and_enqueue_def case_prod_beta Let_def is_queued_enqueue_all)

text \<open>Deduplication and delivery in one statement: a new message is stored and queued exactly
  once for each recipient; a known one changes nothing at all.\<close>

lemma get_message_store_message:
  "get_message h (snd (store_message r now s)) =
     (if h = m_hash r \<and> \<not> has_message h s then Some r else get_message h s)"
proof (cases "has_message (m_hash r) s")
  case False
  then show ?thesis
    using sql_lookup_None [of m_hash "m_hash r" "s_messages s"]
    by (auto simp: store_message_new get_message_def sql_lookup_append sql_simps has_message_def
        split: option.splits)
qed (auto simp: store_message_known)

lemma get_message_enqueue_all [simp]: "get_message h (snd (enqueue_all g k us now s)) = get_message h s"
  by (simp add: get_message_def)

lemma get_message_store_and_enqueue:
  "get_message h (snd (store_and_enqueue r us now s)) =
     (if h = m_hash r \<and> \<not> has_message h s then Some r else get_message h s)"
proof (cases "has_message (m_hash r) s")
  case False
  then have "snd (store_and_enqueue r us now s) =
      snd (enqueue_all (m_group r) (m_hash r) us now (snd (store_message r now s)))"
    by (simp add: store_and_enqueue_def case_prod_beta Let_def store_message_new)
  then show ?thesis
    by (simp only: get_message_enqueue_all get_message_store_message)
qed (auto simp: store_and_enqueue_known)

lemma get_message_has: "has_message h s \<longleftrightarrow> get_message h s \<noteq> None"
  by (simp add: has_message_def get_message_def sql_lookup_None)

section \<open>Deduplicating sinks\<close>

text \<open>
  What the ingest path relies on, local and federated alike: a put of a known hash is a
  no-op, a put of a new one makes exactly that hash known.
\<close>

locale dedup_sink =
  fixes invar :: "'s \<Rightarrow> bool"
    and known :: "'s \<Rightarrow> 'h \<Rightarrow> bool"
    and hash_of :: "'r \<Rightarrow> 'h"
    and put :: "'r \<Rightarrow> 's \<Rightarrow> bool \<times> 's"
  assumes put_known: "invar s \<Longrightarrow> known s (hash_of r) \<Longrightarrow> put r s = (False, s)"
    and put_new: "invar s \<Longrightarrow> \<not> known s (hash_of r) \<Longrightarrow> fst (put r s)"
    and known_put: "invar s \<Longrightarrow> known (snd (put r s)) h \<longleftrightarrow> known s h \<or> h = hash_of r"
    and invar_put: "invar s \<Longrightarrow> invar (snd (put r s))"
begin

fun ingest :: "'r list \<Rightarrow> 's \<Rightarrow> nat \<times> 's" where
  "ingest [] s = (0, s)"
| "ingest (r # rs) s =
     (let (stored, s1) = put r s; (n, s2) = ingest rs s1 in ((if stored then n + 1 else n), s2))"

lemma invar_ingest: "invar s \<Longrightarrow> invar (snd (ingest rs s))"
  by (induction rs arbitrary: s) (auto simp: case_prod_beta Let_def invar_put)

lemma known_ingest:
  "invar s \<Longrightarrow> known (snd (ingest rs s)) h \<longleftrightarrow> known s h \<or> h \<in> hash_of ` set rs"
  by (induction rs arbitrary: s) (auto simp: case_prod_beta Let_def invar_put known_put)

lemma put_fst: "invar s \<Longrightarrow> fst (put r s) \<longleftrightarrow> \<not> known s (hash_of r)"
  using put_known put_new by fastforce

lemma ingest_count:
  "invar s \<Longrightarrow> fst (ingest rs s) = card (hash_of ` set rs - Collect (known s))"
proof (induction rs arbitrary: s)
  case (Cons r rs)
  let ?s1 = "snd (put r s)"
  have "Collect (known ?s1) = insert (hash_of r) (Collect (known s))"
    using Cons.prems by (auto simp: known_put)
  then have IH: "fst (ingest rs ?s1) = card (hash_of ` set rs - insert (hash_of r) (Collect (known s)))"
    using Cons.IH [of ?s1] Cons.prems by (simp add: invar_put)
  let ?X = "hash_of ` set rs - insert (hash_of r) (Collect (known s))"
  have step: "fst (ingest (r # rs) s) =
      (if known s (hash_of r) then 0 else 1) + fst (ingest rs ?s1)"
    using Cons.prems by (simp add: case_prod_beta Let_def put_fst)
  have "hash_of ` set (r # rs) - Collect (known s) =
      (if known s (hash_of r) then ?X else insert (hash_of r) ?X)"
    by auto
  then have "card (hash_of ` set (r # rs) - Collect (known s)) =
      (if known s (hash_of r) then 0 else 1) + card ?X"
    by (simp only:) simp
  then show ?case
    by (simp only: step IH)
qed simp

lemma ingest_known:
  "invar s \<Longrightarrow> (\<forall>r \<in> set rs. known s (hash_of r)) \<Longrightarrow> ingest rs s = (0, s)"
  by (induction rs) (simp_all add: put_known)

text \<open>Replaying a batch ingests nothing and changes nothing.\<close>

lemma ingest_replay: "invar s \<Longrightarrow> ingest rs (snd (ingest rs s)) = (0, snd (ingest rs s))"
  by (rule ingest_known) (auto simp: invar_ingest known_ingest)

end

interpretation message_log: dedup_sink messages_ok "\<lambda>s h. has_message h s" m_hash
  "\<lambda>r. store_message r now" for now
  by unfold_locales
    (auto simp: store_message_known store_message_new has_message_store_message
      messages_ok_store_message)

section \<open>Retention and epochs\<close>

lemma has_message_prune:
  "messages_ok s \<Longrightarrow> has_message h (snd (prune_messages t s)) \<longleftrightarrow>
     (\<exists>r. get_message h s = Some r \<and> t \<le> m_time r)"
proof -
  assume "messages_ok s"
  then have "keys_distinct m_hash (s_messages s)"
    by (simp add: messages_ok_def)
  then have "has_message h (snd (prune_messages t s)) \<longleftrightarrow>
      (\<exists>r. sql_lookup m_hash h (s_messages s) = Some r \<and> \<not> m_time r < t)"
    by (auto simp: prune_messages_def Let_def has_message_def has_key_iff_lookup sql_simps
        split: option.splits if_splits)
  then show ?thesis
    by (auto simp: get_message_def message_record.defs not_less)
qed

lemma is_queued_prune:
  "is_queued u h (snd (prune_messages t s)) \<longleftrightarrow>
     is_queued u h s \<and> has_message h (snd (prune_messages t s))"
  by (fastforce simp: prune_messages_def Let_def has_message_def is_queued_def has_key_def
      egress_key_def image_iff)

lemma prune_count:
  "fst (prune_messages t s) + length (s_messages (snd (prune_messages t s))) = length (s_messages s)"
  by (simp add: prune_messages_def Let_def sql_delete_def)

text \<open>The window of an epoch and the epoch of a timestamp agree for timestamps after 1970.\<close>

lemma epoch_window:
  assumes "0 < es" and "0 \<le> t"
  shows "py_int (t / real_of_int es) = e \<longleftrightarrow>
    real_of_int (e * es) \<le> t \<and> t < real_of_int (e * es + es)"
proof -
  have "py_int (t / real_of_int es) = \<lfloor>t / real_of_int es\<rfloor>"
    using assms by (simp add: py_int_nonneg)
  also have "\<dots> = e \<longleftrightarrow> real_of_int e \<le> t / real_of_int es \<and> t / real_of_int es < real_of_int e + 1"
    by (rule floor_eq_iff)
  also have "\<dots> \<longleftrightarrow> real_of_int (e * es) \<le> t \<and> t < real_of_int (e * es + es)"
    using assms(1) by (simp add: field_simps)
  finally show ?thesis .
qed

lemma epoch_hashes_set:
  "set (epoch_hashes g e es s) = {m_hash r |r. r \<in> set (s_messages s) \<and> m_group r = g \<and>
     real_of_int (e * es) \<le> m_time r \<and> m_time r < real_of_int (e * es + es)}"
  by (auto simp: epoch_hashes_def Let_def)

lemma epoch_hashes_sorted [simp]: "sorted (epoch_hashes g e es s)"
  by (simp add: epoch_hashes_def Let_def)

lemma epoch_hashes_distinct: "messages_ok s \<Longrightarrow> distinct (epoch_hashes g e es s)"
  by (simp add: epoch_hashes_def Let_def messages_ok_def keys_distinct_def distinct_map_filter)

lemma populated_epochs_iff:
  assumes "0 < es" and "\<forall>r \<in> set (s_messages s). 0 \<le> m_time r"
  shows "e \<in> set (populated_epochs g es since s) \<longleftrightarrow>
    (\<exists>r \<in> set (s_messages s). m_group r = g \<and> since \<le> m_time r \<and> m_hash r \<in> set (epoch_hashes g e es s) \<and>
       real_of_int (e * es) \<le> m_time r \<and> m_time r < real_of_int (e * es + es))"
proof -
  have "e \<in> set (populated_epochs g es since s) \<longleftrightarrow>
    (\<exists>r \<in> set (s_messages s). m_group r = g \<and> since \<le> m_time r \<and>
       py_int (m_time r / real_of_int es) = e)"
    by (auto simp: populated_epochs_def)
  also have "\<dots> \<longleftrightarrow> (\<exists>r \<in> set (s_messages s). m_group r = g \<and> since \<le> m_time r \<and>
       real_of_int (e * es) \<le> m_time r \<and> m_time r < real_of_int (e * es + es))"
    using assms by (intro bex_cong refl) (simp add: epoch_window)
  also have "\<dots> \<longleftrightarrow> (\<exists>r \<in> set (s_messages s). m_group r = g \<and> since \<le> m_time r \<and>
       m_hash r \<in> set (epoch_hashes g e es s) \<and>
       real_of_int (e * es) \<le> m_time r \<and> m_time r < real_of_int (e * es + es))"
    by (intro bex_cong refl) (auto simp: epoch_hashes_set)
  finally show ?thesis .
qed

section \<open>The transaction, statement by statement\<close>

text \<open>
  SQLite keeps the statements of an open transaction to the connection until it commits: a
  connection has the committed database and the working one. A \<open>kill -9\<close> (or the
  \<open>rollback\<close> of an exception) leaves the committed one.
\<close>

datatype stmt =
    InsertMessage message_record time
  | InsertEgress string bytes bytes time
  | Commit

record conn =
  disk :: store
  work :: store

fun exec_stmt :: "stmt \<Rightarrow> conn \<Rightarrow> conn" where
  "exec_stmt (InsertMessage r now) c = c\<lparr>work := snd (store_message r now (work c))\<rparr>"
| "exec_stmt (InsertEgress g u h now) c = c\<lparr>work := snd (enqueue_egress g u h now now (work c))\<rparr>"
| "exec_stmt Commit c = c\<lparr>disk := work c\<rparr>"

definition crash :: "conn \<Rightarrow> conn" where
  "crash c = c\<lparr>work := disk c\<rparr>"

definition run_stmts :: "stmt list \<Rightarrow> conn \<Rightarrow> conn" where
  "run_stmts stmts c = fold exec_stmt stmts c"

text \<open>The statements \<open>store_and_enqueue\<close> sends, which depend on the row count of the first.\<close>

definition enqueue_stmts :: "message_record \<Rightarrow> bytes list \<Rightarrow> time \<Rightarrow> store \<Rightarrow> stmt list" where
  "enqueue_stmts r recipients now s =
     InsertMessage r now #
       (if has_message (m_hash r) s then []
        else map (\<lambda>u. InsertEgress (m_group r) u (m_hash r) now) recipients) @ [Commit]"

lemma run_no_commit: "Commit \<notin> set stmts \<Longrightarrow> disk (run_stmts stmts c) = disk c"
  unfolding run_stmts_def
proof (induction stmts arbitrary: c)
  case (Cons p stmts)
  then show ?case by (cases p) auto
qed simp

lemma run_enqueue_all:
  "work (run_stmts (map (\<lambda>u. InsertEgress g u h now) us) c) = snd (enqueue_all g h us now (work c))"
  unfolding run_stmts_def
  by (induction us arbitrary: c) (simp_all add: case_prod_beta Let_def)

lemma run_enqueue_stmts:
  "disk (run_stmts (enqueue_stmts r us now s) \<lparr>disk = s, work = s\<rparr>) =
     snd (store_and_enqueue r us now s)"
proof (cases "has_message (m_hash r) s")
  case True
  then show ?thesis
    by (simp add: enqueue_stmts_def run_stmts_def store_and_enqueue_known store_message_known)
next
  case False
  let ?c1 = "\<lparr>disk = s, work = snd (store_message r now s)\<rparr>"
  have "run_stmts (enqueue_stmts r us now s) \<lparr>disk = s, work = s\<rparr> =
      exec_stmt Commit (run_stmts (map (\<lambda>u. InsertEgress (m_group r) u (m_hash r) now) us) ?c1)"
    using False by (simp add: enqueue_stmts_def run_stmts_def)
  then show ?thesis
    using False
    by (simp add: run_enqueue_all store_and_enqueue_def store_message_new case_prod_beta Let_def)
qed

text \<open>Killed after any number of statements, the database is as before or as after.\<close>

lemma crash_before_commit:
  assumes "k < length (enqueue_stmts r us now s)"
  shows "work (crash (run_stmts (take k (enqueue_stmts r us now s)) \<lparr>disk = s, work = s\<rparr>)) = s"
proof -
  obtain body where body: "enqueue_stmts r us now s = body @ [Commit]" and "Commit \<notin> set body"
    by (cases "has_message (m_hash r) s") (auto simp: enqueue_stmts_def)
  with assms have "Commit \<notin> set (take k (enqueue_stmts r us now s))"
    by (auto dest: in_set_takeD)
  then show ?thesis
    by (simp add: crash_def run_no_commit)
qed

end
