(* ===== verification/Store_Queues.thy ===== *)
theory Store_Queues
  imports Store_Messages
begin

text \<open>
  The notice, control and user-answer queues of \<open>lxmf_hub/store.py\<close>, the shared deferral
  helper, and the proof that all four queue tables satisfy the contract \<open>durable_queue\<close>.
\<close>

section \<open>Notices: deduplicated on recipient and body\<close>

definition enqueue_notice ::
    "string \<Rightarrow> bytes \<Rightarrow> string \<Rightarrow> source \<Rightarrow> time \<Rightarrow> store \<Rightarrow> bool \<times> store" where
  "enqueue_notice gid user body src now s =
     (let (inserted, q) = queue_insert_ignore notice_key
            \<lparr>n_source = src, n_group = gid, n_recipient = user, n_body = body\<rparr> now now (s_notices s)
      in (inserted, s\<lparr>s_notices := q\<rparr>))"

definition due_notices :: "nat \<Rightarrow> time \<Rightarrow> store \<Rightarrow> notice_item qrow list" where
  "due_notices limit now s = queue_due limit now (s_notices s)"

definition notice_depth :: "store \<Rightarrow> nat" where
  "notice_depth s = queue_depth (s_notices s)"

definition complete_notice :: "nat \<Rightarrow> store \<Rightarrow> store" where
  "complete_notice i s = s\<lparr>s_notices := queue_complete i (s_notices s)\<rparr>"

definition defer_notice :: "nat \<Rightarrow> real \<Rightarrow> bool \<Rightarrow> time \<Rightarrow> store \<Rightarrow> store" where
  "defer_notice i delay count_attempt now s =
     s\<lparr>s_notices := queue_defer i delay count_attempt now (s_notices s)\<rparr>"

section \<open>Operator and member answers: never deduplicated\<close>

definition enqueue_control :: "bytes \<Rightarrow> string \<Rightarrow> time \<Rightarrow> store \<Rightarrow> nat \<times> store" where
  "enqueue_control user body now s =
     (let (i, q) = queue_insert \<lparr>c_recipient = user, c_body = body\<rparr> now (s_control s)
      in (i, s\<lparr>s_control := q\<rparr>))"

definition due_control :: "nat \<Rightarrow> time \<Rightarrow> store \<Rightarrow> control_item qrow list" where
  "due_control limit now s = queue_due limit now (s_control s)"

definition control_depth :: "store \<Rightarrow> nat" where
  "control_depth s = queue_depth (s_control s)"

definition complete_control :: "nat \<Rightarrow> store \<Rightarrow> store" where
  "complete_control i s = s\<lparr>s_control := queue_complete i (s_control s)\<rparr>"

definition defer_control :: "nat \<Rightarrow> real \<Rightarrow> bool \<Rightarrow> time \<Rightarrow> store \<Rightarrow> store" where
  "defer_control i delay count_attempt now s =
     s\<lparr>s_control := queue_defer i delay count_attempt now (s_control s)\<rparr>"

definition enqueue_user :: "string \<Rightarrow> bytes \<Rightarrow> string \<Rightarrow> time \<Rightarrow> store \<Rightarrow> nat \<times> store" where
  "enqueue_user gid user body now s =
     (let (i, q) = queue_insert \<lparr>u_group = gid, u_recipient = user, u_body = body\<rparr> now (s_users s)
      in (i, s\<lparr>s_users := q\<rparr>))"

definition due_user :: "nat \<Rightarrow> time \<Rightarrow> store \<Rightarrow> user_item qrow list" where
  "due_user limit now s = queue_due limit now (s_users s)"

definition user_depth :: "store \<Rightarrow> nat" where
  "user_depth s = queue_depth (s_users s)"

definition complete_user :: "nat \<Rightarrow> store \<Rightarrow> store" where
  "complete_user i s = s\<lparr>s_users := queue_complete i (s_users s)\<rparr>"

definition defer_user :: "nat \<Rightarrow> real \<Rightarrow> bool \<Rightarrow> time \<Rightarrow> store \<Rightarrow> store" where
  "defer_user i delay count_attempt now s =
     s\<lparr>s_users := queue_defer i delay count_attempt now (s_users s)\<rparr>"

text \<open>\<open>Store._defer\<close>: the table is named by the caller and refused unless it is a queue.\<close>

definition defer_table ::
    "string \<Rightarrow> nat \<Rightarrow> real \<Rightarrow> bool \<Rightarrow> time \<Rightarrow> store \<Rightarrow> store_error + store" where
  "defer_table table i delay count_attempt now s =
     (if table = ''egress_queue'' then Inr (defer_egress i delay count_attempt now s)
      else if table = ''notice_queue'' then Inr (defer_notice i delay count_attempt now s)
      else if table = ''control_queue'' then Inr (defer_control i delay count_attempt now s)
      else if table = ''user_queue'' then Inr (defer_user i delay count_attempt now s)
      else Inl (ValueError (CHR 0x27 # table @ CHR 0x27 # '' is not a queue table'')))"

lemmas answer_defs [store_defs] = enqueue_notice_def due_notices_def notice_depth_def
  complete_notice_def defer_notice_def enqueue_control_def due_control_def control_depth_def
  complete_control_def defer_control_def enqueue_user_def due_user_def user_depth_def
  complete_user_def defer_user_def defer_table_def

section \<open>Well-formedness\<close>

lemma store_ok_enqueue_notice [simp]:
  "store_ok s \<Longrightarrow> store_ok (snd (enqueue_notice g u body src now s))"
  by (auto simp: store_ok_def enqueue_notice_def answers_ok_def case_prod_beta Let_def
      intro: keys_distinct_insert_ignore)

lemma store_ok_complete_notice [simp]: "store_ok s \<Longrightarrow> store_ok (complete_notice i s)"
  by (auto simp: store_ok_def complete_notice_def answers_ok_def intro: map_key_complete)

lemma store_ok_defer_notice [simp]: "store_ok s \<Longrightarrow> store_ok (defer_notice i d c now s)"
  by (auto simp: store_ok_def defer_notice_def answers_ok_def intro: map_key_defer)

lemma store_ok_control [simp]:
  "store_ok s \<Longrightarrow> store_ok (snd (enqueue_control u body now s))"
  "store_ok s \<Longrightarrow> store_ok (complete_control i s)"
  "store_ok s \<Longrightarrow> store_ok (defer_control i d c now s)"
  by (simp_all add: store_ok_def answers_ok_def enqueue_control_def complete_control_def
      defer_control_def case_prod_beta Let_def)

lemma store_ok_user [simp]:
  "store_ok s \<Longrightarrow> store_ok (snd (enqueue_user g u body now s))"
  "store_ok s \<Longrightarrow> store_ok (complete_user i s)"
  "store_ok s \<Longrightarrow> store_ok (defer_user i d c now s)"
  by (simp_all add: store_ok_def answers_ok_def enqueue_user_def complete_user_def
      defer_user_def case_prod_beta Let_def)

lemma enqueue_user_frame [simp]:
  "s_groups (snd (enqueue_user g u b t s)) = s_groups s"
  "s_members (snd (enqueue_user g u b t s)) = s_members s"
  "s_messages (snd (enqueue_user g u b t s)) = s_messages s"
  "s_egress (snd (enqueue_user g u b t s)) = s_egress s"
  "s_adoptions (snd (enqueue_user g u b t s)) = s_adoptions s"
  "s_peer_members (snd (enqueue_user g u b t s)) = s_peer_members s"
  "s_personas (snd (enqueue_user g u b t s)) = s_personas s"
  "s_identities (snd (enqueue_user g u b t s)) = s_identities s"
  by (simp_all add: enqueue_user_def case_prod_beta Let_def)

lemma enqueue_notice_frame [simp]:
  "s_groups (snd (enqueue_notice g u b src t s)) = s_groups s"
  "s_members (snd (enqueue_notice g u b src t s)) = s_members s"
  "s_messages (snd (enqueue_notice g u b src t s)) = s_messages s"
  "s_egress (snd (enqueue_notice g u b src t s)) = s_egress s"
  "s_adoptions (snd (enqueue_notice g u b src t s)) = s_adoptions s"
  "s_peer_members (snd (enqueue_notice g u b src t s)) = s_peer_members s"
  "s_peer_groups (snd (enqueue_notice g u b src t s)) = s_peer_groups s"
  "s_liveness (snd (enqueue_notice g u b src t s)) = s_liveness s"
  "s_meta (snd (enqueue_notice g u b src t s)) = s_meta s"
  by (simp_all add: enqueue_notice_def case_prod_beta Let_def)

section \<open>The four tables are durable queues\<close>

interpretation egress_q: durable_queue queue_ok queue_item queue_ready
  "\<lambda>x t q. snd (queue_insert_ignore egress_key x t t q)" queue_defer queue_complete
  by (rule durable_queueI) (simp_all add: queue_row_insert_ignore_old)

interpretation notice_q: durable_queue queue_ok queue_item queue_ready
  "\<lambda>x t q. snd (queue_insert_ignore notice_key x t t q)" queue_defer queue_complete
  by (rule durable_queueI) (simp_all add: queue_row_insert_ignore_old)

interpretation plain_q: durable_queue queue_ok queue_item queue_ready
  "\<lambda>x t q. snd (queue_insert x t q)" queue_defer queue_complete
  by (rule durable_queueI) (simp_all add: queue_row_insert_old)

lemmas plain_q_laws = plain_q.item_push plain_q.ready_push plain_q.ready_rearm
  plain_q.ready_finish plain_q.ready_item

text \<open>The operator and member answers, as operations on the whole store.\<close>

interpretation control_q: durable_queue
  "\<lambda>s. queue_ok (s_control s)" "\<lambda>s. queue_item (s_control s)" "\<lambda>s. queue_ready (s_control s)"
  "\<lambda>x t s. snd (enqueue_control (c_recipient x) (c_body x) t s)" defer_control complete_control
  by unfold_locales
    (simp_all add: enqueue_control_def defer_control_def complete_control_def case_prod_beta
      Let_def plain_q_laws)

interpretation user_q: durable_queue
  "\<lambda>s. queue_ok (s_users s)" "\<lambda>s. queue_item (s_users s)" "\<lambda>s. queue_ready (s_users s)"
  "\<lambda>x t s. snd (enqueue_user (u_group x) (u_recipient x) (u_body x) t s)" defer_user complete_user
  by unfold_locales
    (simp_all add: enqueue_user_def defer_user_def complete_user_def case_prod_beta
      Let_def plain_q_laws)

end
