(* ===== verification/Store_Peers.thy ===== *)
theory Store_Peers
  imports Store_Queues
begin

text \<open>
  What \<open>lxmf_hub/store.py\<close> keeps about peer hubs: the sync log, the liveness evidence, the
  gossip about what each peer serves, and the adoptions made while a peer is silent.
\<close>

section \<open>Sync log and liveness\<close>

definition record_peer_sync :: "bytes \<Rightarrow> string option \<Rightarrow> time \<Rightarrow> store \<Rightarrow> store" where
  "record_peer_sync peer err now s = s\<lparr>s_peers := (s_peers s)(peer := Some (now, err))\<rparr>"

definition peer_state :: "bytes \<Rightarrow> store \<Rightarrow> (time \<times> string option) option" where
  "peer_state peer s = s_peers s peer"

definition record_peer_success :: "bytes \<Rightarrow> time \<Rightarrow> store \<Rightarrow> store" where
  "record_peer_success peer now s = s\<lparr>s_liveness := (s_liveness s)(peer := Some now)\<rparr>"

definition peer_last_success :: "bytes \<Rightarrow> store \<Rightarrow> time option" where
  "peer_last_success peer s = s_liveness s peer"

section \<open>Gossip\<close>

text \<open>\<open>executemany\<close>: rows are inserted until one violates the key; the flag says whether all
  were.\<close>

fun insert_many :: "('r \<Rightarrow> 'k) \<Rightarrow> 'r list \<Rightarrow> 'r list \<Rightarrow> bool \<times> 'r list" where
  "insert_many key [] rows = (True, rows)"
| "insert_many key (r # rs) rows =
     (case sql_insert key r rows of None \<Rightarrow> (False, rows) | Some rows' \<Rightarrow> insert_many key rs rows')"

text \<open>
  \<open>groups\<close> and \<open>members\<close> are dictionaries in the code, association lists here. A member
  list in which a hash occurs twice violates the primary key. The exception leaves the method
  with the transaction open and nothing rolled back, so what was deleted and inserted before it
  is what the connection goes on with, and what its next commit writes.
\<close>

definition record_peer_state ::
    "bytes \<Rightarrow> string \<Rightarrow> (string \<times> bytes \<times> string) list \<Rightarrow> (string \<times> bytes list) list \<Rightarrow> time \<Rightarrow>
     store \<Rightarrow> (store_error + unit) \<times> store" where
  "record_peer_state peer hub_name groups members now s =
     (let kept_groups = sql_delete (\<lambda>r. pg_peer r = peer) (s_peer_groups s);
          kept_members = sql_delete (\<lambda>r. pm_peer r = peer) (s_peer_members s);
          new_groups = map (\<lambda>(gid, dest, acl). \<lparr>pg_peer = peer, pg_group = gid, pg_dest = dest,
            pg_hub = hub_name, pg_acl = acl, pg_updated = now\<rparr>) groups;
          new_members = concat (map (\<lambda>(gid, users). map (\<lambda>u. \<lparr>pm_peer = peer, pm_group = gid,
            pm_user = u, pm_updated = now\<rparr>) users) members);
          (ok1, group_rows) = insert_many peer_group_key new_groups kept_groups;
          s1 = s\<lparr>s_peer_groups := group_rows, s_peer_members := kept_members\<rparr>
      in if \<not> ok1 then (Inl IntegrityError, s1)
         else
           let (ok2, member_rows) = insert_many peer_member_key new_members kept_members;
               s2 = s1\<lparr>s_peer_members := member_rows\<rparr>
           in ((if ok2 then Inr () else Inl IntegrityError), s2))"

definition list_peer_groups :: "string option \<Rightarrow> store \<Rightarrow> peer_group list" where
  "list_peer_groups gid s =
     sort_key (\<lambda>r. (pg_group r, pg_hub r))
       (filter (\<lambda>r. case gid of None \<Rightarrow> True | Some g \<Rightarrow> pg_group r = g) (s_peer_groups s))"

definition list_peer_members :: "bytes \<Rightarrow> string \<Rightarrow> store \<Rightarrow> bytes list" where
  "list_peer_members peer gid s =
     map pm_user (filter (\<lambda>r. pm_peer r = peer \<and> pm_group r = gid) (s_peer_members s))"

definition is_peer_member :: "string \<Rightarrow> bytes \<Rightarrow> store \<Rightarrow> bool" where
  "is_peer_member gid user s \<longleftrightarrow>
     list_ex (\<lambda>r. pm_group r = gid \<and> pm_user r = user) (s_peer_members s)"

section \<open>Adoptions\<close>

text \<open>The loop of \<open>adopt\<close>: the newly adopted hashes, in order.\<close>

fun adopt :: "bytes \<Rightarrow> string \<Rightarrow> bytes list \<Rightarrow> time \<Rightarrow> store \<Rightarrow> bytes list \<times> store" where
  "adopt peer gid [] now s = ([], s)"
| "adopt peer gid (user # users) now s =
     (let (inserted, rows) = sql_ignore adoption_key
            \<lparr>ad_peer = peer, ad_group = gid, ad_user = user, ad_at = now\<rparr> (s_adoptions s);
          (fresh, s') = adopt peer gid users now (s\<lparr>s_adoptions := rows\<rparr>)
      in (if inserted then user # fresh else fresh, s'))"

definition release_peer :: "bytes \<Rightarrow> store \<Rightarrow> (string \<times> bytes) list \<times> store" where
  "release_peer peer s =
     (map (\<lambda>r. (ad_group r, ad_user r)) (filter (\<lambda>r. ad_peer r = peer) (s_adoptions s)),
      s\<lparr>s_adoptions := sql_delete (\<lambda>r. ad_peer r = peer) (s_adoptions s)\<rparr>)"

definition adopted_peers :: "store \<Rightarrow> bytes list" where
  "adopted_peers s = remdups (map ad_peer (s_adoptions s))"

definition list_adopted :: "string \<Rightarrow> store \<Rightarrow> bytes list" where
  "list_adopted gid s = remdups (map ad_user (filter (\<lambda>r. ad_group r = gid) (s_adoptions s)))"

definition adopted_for_peer :: "bytes \<Rightarrow> string \<Rightarrow> store \<Rightarrow> bytes list" where
  "adopted_for_peer peer gid s =
     map ad_user (filter (\<lambda>r. ad_peer r = peer \<and> ad_group r = gid) (s_adoptions s))"

definition is_adopted :: "string \<Rightarrow> bytes \<Rightarrow> store \<Rightarrow> bool" where
  "is_adopted gid user s \<longleftrightarrow> list_ex (\<lambda>r. ad_group r = gid \<and> ad_user r = user) (s_adoptions s)"

lemmas peer_defs [store_defs] = record_peer_sync_def peer_state_def record_peer_success_def
  peer_last_success_def record_peer_state_def list_peer_groups_def list_peer_members_def
  is_peer_member_def release_peer_def adopted_peers_def list_adopted_def adopted_for_peer_def
  is_adopted_def

section \<open>Well-formedness\<close>

lemma store_ok_record_peer_sync [simp]: "store_ok (record_peer_sync p e t s) = store_ok s"
  by (simp add: record_peer_sync_def store_ok_def)

lemma store_ok_record_peer_success [simp]: "store_ok (record_peer_success p t s) = store_ok s"
  by (simp add: record_peer_success_def store_ok_def)

lemma keys_distinct_insert_many [keys_intros]:
  "keys_distinct key rows \<Longrightarrow> keys_distinct key (snd (insert_many key rs rows))"
  by (induction rs arbitrary: rows) (auto simp: sql_insert_def)

lemma insert_many_ok: "fst (insert_many key rs rows) \<Longrightarrow> snd (insert_many key rs rows) = rows @ rs"
  by (induction rs arbitrary: rows) (auto simp: sql_insert_def split: if_splits)

lemma insert_many_all:
  "distinct (map key (rows @ rs)) \<Longrightarrow> insert_many key rs rows = (True, rows @ rs)"
  by (induction rs arbitrary: rows) (auto simp: sql_insert_def has_key_def)

lemma store_ok_record_peer_state:
  "store_ok s \<Longrightarrow> store_ok (snd (record_peer_state peer hub groups members now s))"
  unfolding record_peer_state_def store_ok_def Let_def case_prod_beta
  by (auto simp: peers_ok_def intro!: keys_intros)

lemma adopt_frame: "\<exists>rows. snd (adopt peer g us now s) = s\<lparr>s_adoptions := rows\<rparr>"
proof (induction us arbitrary: s)
  case Nil
  have "s = s\<lparr>s_adoptions := s_adoptions s\<rparr>" by simp
  then show ?case by (metis adopt.simps(1) snd_conv)
next
  case (Cons u us)
  let ?rows = "snd (sql_ignore adoption_key
    \<lparr>ad_peer = peer, ad_group = g, ad_user = u, ad_at = now\<rparr> (s_adoptions s))"
  obtain rows where "snd (adopt peer g us now (s\<lparr>s_adoptions := ?rows\<rparr>)) = s\<lparr>s_adoptions := rows\<rparr>"
    using Cons.IH [of "s\<lparr>s_adoptions := ?rows\<rparr>"] by auto
  then show ?case by (auto simp: case_prod_beta Let_def)
qed

lemma adopt_fields [simp]:
  "s_groups (snd (adopt p g us now s)) = s_groups s" "s_members (snd (adopt p g us now s)) = s_members s"
  "s_peer_members (snd (adopt p g us now s)) = s_peer_members s"
  "s_peer_groups (snd (adopt p g us now s)) = s_peer_groups s"
  "s_liveness (snd (adopt p g us now s)) = s_liveness s" "s_meta (snd (adopt p g us now s)) = s_meta s"
  "s_messages (snd (adopt p g us now s)) = s_messages s" "s_egress (snd (adopt p g us now s)) = s_egress s"
  using adopt_frame [of p g us now s] by auto

lemma store_ok_adopt [simp]: "store_ok s \<Longrightarrow> store_ok (snd (adopt peer g us now s))"
proof (induction us arbitrary: s)
  case (Cons u us)
  have "store_ok (s\<lparr>s_adoptions := snd (sql_ignore adoption_key r (s_adoptions s))\<rparr>)" for r
    using Cons.prems by (auto simp: store_ok_def peers_ok_def intro: keys_intros)
  with Cons.IH show ?case by (simp add: case_prod_beta Let_def)
qed simp

lemma store_ok_release_peer [simp]: "store_ok s \<Longrightarrow> store_ok (snd (release_peer p s))"
  by (auto simp: release_peer_def store_ok_def peers_ok_def intro: keys_intros)

section \<open>Who is adopted\<close>

definition adopted :: "bytes \<Rightarrow> string \<Rightarrow> bytes \<Rightarrow> store \<Rightarrow> bool" where
  "adopted peer gid user s \<longleftrightarrow> has_key adoption_key (peer, gid, user) (s_adoptions s)"

lemma adopted_adopt:
  "adopted p g u (snd (adopt peer gid us now s)) \<longleftrightarrow>
     adopted p g u s \<or> (p = peer \<and> g = gid \<and> u \<in> set us)"
proof (induction us arbitrary: s)
  case (Cons v us)
  let ?rows = "snd (sql_ignore adoption_key
    \<lparr>ad_peer = peer, ad_group = gid, ad_user = v, ad_at = now\<rparr> (s_adoptions s))"
  have "adopted p g u (s\<lparr>s_adoptions := ?rows\<rparr>) \<longleftrightarrow>
      adopted p g u s \<or> (p = peer \<and> g = gid \<and> u = v)"
    by (auto simp: adopted_def sql_ignore_def has_key_def adoption_key_def)
  moreover have "snd (adopt peer gid (v # us) now s) =
      snd (adopt peer gid us now (s\<lparr>s_adoptions := ?rows\<rparr>))"
    by (simp add: case_prod_beta Let_def)
  ultimately show ?case
    using Cons.IH [of "s\<lparr>s_adoptions := ?rows\<rparr>"] by auto
qed simp

lemma adopt_fresh:
  "set (fst (adopt peer gid us now s)) = {u \<in> set us. \<not> adopted peer gid u s}"
proof (induction us arbitrary: s)
  case (Cons v us)
  let ?r = "\<lparr>ad_peer = peer, ad_group = gid, ad_user = v, ad_at = now\<rparr>"
  let ?s1 = "s\<lparr>s_adoptions := snd (sql_ignore adoption_key ?r (s_adoptions s))\<rparr>"
  have "adopted peer gid u ?s1 \<longleftrightarrow> adopted peer gid u s \<or> u = v" for u
    by (auto simp: adopted_def sql_ignore_def has_key_def adoption_key_def)
  moreover have "fst (sql_ignore adoption_key ?r (s_adoptions s)) \<longleftrightarrow> \<not> adopted peer gid v s"
    by (simp add: adopted_def sql_ignore_def adoption_key_def)
  ultimately show ?case
    using Cons.IH [of ?s1] by (auto simp: case_prod_beta Let_def)
qed simp

lemma adopted_release_peer [simp]:
  "adopted p g u (snd (release_peer peer s)) \<longleftrightarrow> adopted p g u s \<and> p \<noteq> peer"
  by (auto simp: adopted_def release_peer_def has_key_def adoption_key_def)

lemma list_adopted_iff: "u \<in> set (list_adopted g s) \<longleftrightarrow> (\<exists>p. adopted p g u s)"
  by (force simp: list_adopted_def adopted_def has_key_def adoption_key_def)

lemma list_adopted_distinct [simp]: "distinct (list_adopted g s)"
  by (simp add: list_adopted_def)

lemma adopted_peers_iff: "p \<in> set (adopted_peers s) \<longleftrightarrow> (\<exists>g u. adopted p g u s)"
  by (force simp: adopted_peers_def adopted_def has_key_def adoption_key_def)

lemma release_peer_fst:
  "(g, u) \<in> set (fst (release_peer p s)) \<longleftrightarrow> adopted p g u s"
  by (force simp: release_peer_def adopted_def has_key_def adoption_key_def)

lemma is_adopted_iff: "is_adopted g u s \<longleftrightarrow> (\<exists>p. adopted p g u s)"
  by (force simp: is_adopted_def list_ex_iff adopted_def has_key_def adoption_key_def)

text \<open>Gossip replaces: after a round a peer is known to serve exactly what it said it serves.\<close>

lemma set_list_peer_members:
  "set (list_peer_members p g s) =
     {u. \<exists>r \<in> set (s_peer_members s). pm_peer r = p \<and> pm_group r = g \<and> pm_user r = u}"
  by (auto simp: list_peer_members_def)

lemma list_peer_members_record:
  assumes "record_peer_state peer hub groups members now s = (Inr (), s')"
  shows "set (list_peer_members p g s') =
     (if p = peer then {u. \<exists>us. (g, us) \<in> set members \<and> u \<in> set us}
      else set (list_peer_members p g s))"
proof -
  let ?row = "\<lambda>gid u. \<lparr>pm_peer = peer, pm_group = gid, pm_user = u, pm_updated = now\<rparr>"
  have rows: "s_peer_members s' = sql_delete (\<lambda>r. pm_peer r = peer) (s_peer_members s) @
      concat (map (\<lambda>(gid, users). map (?row gid) users) members)"
    using assms insert_many_ok unfolding record_peer_state_def Let_def case_prod_beta
    by (auto split: if_splits)
  have new: "set (concat (map (\<lambda>(gid, users). map (?row gid) users) members)) =
      (\<Union>(gid, users) \<in> set members. ?row gid ` set users)"
    by auto
  have "set (list_peer_members p g s') =
      {u. \<exists>r \<in> set (s_peer_members s). pm_peer r \<noteq> peer \<and> pm_peer r = p \<and> pm_group r = g \<and> pm_user r = u} \<union>
      {u. \<exists>(gid, users) \<in> set members. \<exists>v \<in> set users. peer = p \<and> gid = g \<and> v = u}"
    unfolding set_list_peer_members rows set_append new bex_Un Collect_disj_eq
    by (intro arg_cong2 [where f = "(\<union>)"]) (auto split: prod.splits)
  then show ?thesis
    by (auto simp: set_list_peer_members)
qed

lemma is_peer_member_iff: "is_peer_member g u s \<longleftrightarrow> (\<exists>p. u \<in> set (list_peer_members p g s))"
  by (auto simp: is_peer_member_def list_ex_iff list_peer_members_def)

end
