(* ===== verification/Store_Personas.thy ===== *)
theory Store_Personas
  imports Store_Peers
begin

text \<open>
  Personas, their devices and the one-time codes of \<open>lxmf_hub/store.py\<close>. The unique index
  on \<open>name_folded\<close> makes three of the operations fallible: they return \<open>IntegrityError\<close>
  and leave the tables alone, as SQLite does.
\<close>

section \<open>Personas\<close>

definition get_persona :: "bytes \<Rightarrow> store \<Rightarrow> persona_record option" where
  "get_persona pid s = sql_lookup p_id pid (s_personas s)"

definition persona_by_name :: "string \<Rightarrow> store \<Rightarrow> persona_record option" where
  "persona_by_name name s = sql_lookup name_folded (fold_name (Some name)) (s_personas s)"

definition get_persona_identity :: "bytes \<Rightarrow> store \<Rightarrow> persona_identity option" where
  "get_persona_identity user s = sql_lookup i_user user (s_identities s)"

text \<open>The join of the device row with its persona; \<open>user_hash\<close> is a primary key.\<close>

definition persona_for_identity :: "bytes \<Rightarrow> store \<Rightarrow> persona_record option" where
  "persona_for_identity user s =
     (case get_persona_identity user s of
        None \<Rightarrow> None
      | Some r \<Rightarrow> if identity_active r then get_persona (i_persona r) s else None)"

definition list_personas :: "store \<Rightarrow> persona_record list" where
  "list_personas s =
     sort_key (\<lambda>p. case name_folded p of None \<Rightarrow> (True, '''') | Some n \<Rightarrow> (False, n)) (s_personas s)"

definition persona_devices :: "bytes \<Rightarrow> bool \<Rightarrow> store \<Rightarrow> persona_identity list" where
  "persona_devices pid include_removed s =
     sort_key i_added (filter (\<lambda>r. i_persona r = pid \<and> (include_removed \<or> identity_active r))
       (s_identities s))"

definition display_name_for :: "bytes \<Rightarrow> store \<Rightarrow> string option" where
  "display_name_for user s =
     (case persona_for_identity user s of None \<Rightarrow> None | Some p \<Rightarrow> p_name p)"

definition list_persona_identities :: "store \<Rightarrow> persona_identity list" where
  "list_persona_identities s = s_identities s"

text \<open>What the unique index checks when the row of persona \<open>pid\<close> gets the name \<open>name\<close>.\<close>

definition name_taken :: "bytes \<Rightarrow> string option \<Rightarrow> store \<Rightarrow> bool" where
  "name_taken pid name s \<longleftrightarrow>
     name \<noteq> None \<and> list_ex (\<lambda>p. p_id p \<noteq> pid \<and> name_folded p = fold_name name) (s_personas s)"

definition put_identity :: "persona_identity \<Rightarrow> store \<Rightarrow> store" where
  "put_identity r s = s\<lparr>s_identities := sql_upsert i_user (\<lambda>old new. new) r (s_identities s)\<rparr>"

definition link_identity :: "bytes \<Rightarrow> bytes \<Rightarrow> time option \<Rightarrow> time \<Rightarrow> store \<Rightarrow> store" where
  "link_identity pid user added now s =
     put_identity \<lparr>i_user = user, i_persona = pid,
       i_added = (case added of None \<Rightarrow> now | Some t \<Rightarrow> t), i_removed = None\<rparr> s"

definition create_persona ::
    "bytes \<Rightarrow> string option \<Rightarrow> bytes \<Rightarrow> time option \<Rightarrow> time \<Rightarrow> store
     \<Rightarrow> store_error + (persona_record \<times> store)" where
  "create_persona pid name user claimed now s =
     (let p = \<lparr>p_id = pid, p_name = name,
               p_claimed = (case claimed of None \<Rightarrow> now | Some t \<Rightarrow> t),
               p_revision = 1, p_updated = now\<rparr>
      in if has_key p_id pid (s_personas s) \<or> name_taken pid name s then Inl IntegrityError
         else Inr (p, link_identity pid user None now (s\<lparr>s_personas := s_personas s @ [p]\<rparr>)))"

definition set_persona_name ::
    "bytes \<Rightarrow> string option \<Rightarrow> int option \<Rightarrow> time option \<Rightarrow> time \<Rightarrow> store
     \<Rightarrow> store_error + store" where
  "set_persona_name pid name revision updated now s =
     (let stamp = (case updated of None \<Rightarrow> now | Some t \<Rightarrow> t);
          upd = (\<lambda>p. p\<lparr>p_name := name,
            p_revision := (case revision of None \<Rightarrow> p_revision p + 1 | Some r \<Rightarrow> r), p_updated := stamp\<rparr>)
      in if has_key p_id pid (s_personas s) \<and> name_taken pid name s then Inl IntegrityError
         else Inr (s\<lparr>s_personas := sql_update (\<lambda>p. p_id p = pid) upd (s_personas s)\<rparr>))"

definition upsert_persona :: "persona_record \<Rightarrow> store \<Rightarrow> store_error + store" where
  "upsert_persona p s =
     (if name_taken (p_id p) (p_name p) s then Inl IntegrityError
      else Inr (s\<lparr>s_personas := sql_upsert p_id (\<lambda>old new. new) p (s_personas s)\<rparr>))"

section \<open>Devices\<close>

definition unlink_identity :: "bytes \<Rightarrow> time option \<Rightarrow> time \<Rightarrow> store \<Rightarrow> bool \<times> store" where
  "unlink_identity user removed now s =
     (let stamp = (case removed of None \<Rightarrow> now | Some t \<Rightarrow> t);
          live = (\<lambda>r. i_user r = user \<and> identity_active r)
      in (list_ex live (s_identities s),
          s\<lparr>s_identities := sql_update live (\<lambda>r. r\<lparr>i_removed := Some stamp\<rparr>) (s_identities s)\<rparr>))"

definition upsert_persona_identity :: "persona_identity \<Rightarrow> store \<Rightarrow> store" where
  "upsert_persona_identity r s = put_identity r s"

section \<open>Codes\<close>

definition put_code :: "code_row \<Rightarrow> code_row list \<Rightarrow> code_row list" where
  "put_code c rows = sql_upsert k_code (\<lambda>old new. new) c rows"

text \<open>A code is deleted whether or not it has expired; only a live one names a persona.\<close>

definition take_code :: "string \<Rightarrow> time \<Rightarrow> code_row list \<Rightarrow> bytes option \<times> code_row list" where
  "take_code code now rows =
     (case sql_lookup k_code code rows of
        None \<Rightarrow> (None, rows)
      | Some c \<Rightarrow> (if k_expires c < now then None else Some (k_persona c),
                   sql_delete (\<lambda>r. k_code r = code) rows))"

definition create_link_code :: "string \<Rightarrow> bytes \<Rightarrow> time \<Rightarrow> time \<Rightarrow> store \<Rightarrow> store" where
  "create_link_code code pid expires now s =
     s\<lparr>s_links := put_code \<lparr>k_code = code, k_persona = pid, k_created = now, k_expires = expires\<rparr>
        (s_links s)\<rparr>"

definition claim_link_code :: "string \<Rightarrow> time \<Rightarrow> store \<Rightarrow> bytes option \<times> store" where
  "claim_link_code code now s =
     (let (pid, rows) = take_code code now (s_links s) in (pid, s\<lparr>s_links := rows\<rparr>))"

definition create_unlink_code :: "string \<Rightarrow> bytes \<Rightarrow> time \<Rightarrow> time \<Rightarrow> store \<Rightarrow> store" where
  "create_unlink_code code pid expires now s =
     s\<lparr>s_unlinks := put_code \<lparr>k_code = code, k_persona = pid, k_created = now, k_expires = expires\<rparr>
        (s_unlinks s)\<rparr>"

definition claim_unlink_code :: "string \<Rightarrow> time \<Rightarrow> store \<Rightarrow> bytes option \<times> store" where
  "claim_unlink_code code now s =
     (let (pid, rows) = take_code code now (s_unlinks s) in (pid, s\<lparr>s_unlinks := rows\<rparr>))"

definition prune_link_codes :: "time \<Rightarrow> store \<Rightarrow> nat \<times> store" where
  "prune_link_codes now s =
     (let kept = sql_delete (\<lambda>c. k_expires c < now) (s_links s)
      in (length (s_links s) - length kept, s\<lparr>s_links := kept\<rparr>))"

definition prune_unlink_codes :: "time \<Rightarrow> store \<Rightarrow> nat \<times> store" where
  "prune_unlink_codes now s =
     (let kept = sql_delete (\<lambda>c. k_expires c < now) (s_unlinks s)
      in (length (s_unlinks s) - length kept, s\<lparr>s_unlinks := kept\<rparr>))"

lemmas persona_defs [store_defs] = get_persona_def persona_by_name_def get_persona_identity_def
  persona_for_identity_def list_personas_def persona_devices_def display_name_for_def
  list_persona_identities_def put_identity_def link_identity_def create_persona_def
  set_persona_name_def upsert_persona_def unlink_identity_def upsert_persona_identity_def
  create_link_code_def claim_link_code_def create_unlink_code_def claim_unlink_code_def
  prune_link_codes_def prune_unlink_codes_def

section \<open>Well-formedness\<close>

lemma store_ok_put_identity [simp]: "store_ok s \<Longrightarrow> store_ok (put_identity r s)"
  by (auto simp: put_identity_def store_ok_def personas_ok_def intro!: keys_intros)

lemma store_ok_link_identity [simp]: "store_ok s \<Longrightarrow> store_ok (link_identity pid u a now s)"
  by (simp add: link_identity_def)

lemma store_ok_upsert_persona_identity [simp]:
  "store_ok s \<Longrightarrow> store_ok (upsert_persona_identity r s)"
  by (simp add: upsert_persona_identity_def)

lemma store_ok_unlink_identity [simp]:
  "store_ok s \<Longrightarrow> store_ok (snd (unlink_identity u a now s))"
  by (auto simp: unlink_identity_def store_ok_def personas_ok_def Let_def intro!: keys_intros)

lemma keys_distinct_take_code [simp]:
  "keys_distinct k_code rows \<Longrightarrow> keys_distinct k_code (snd (take_code code now rows))"
  by (auto simp: take_code_def intro: keys_intros split: option.splits)

lemma store_ok_codes [simp]:
  "store_ok s \<Longrightarrow> store_ok (create_link_code c pid e now s)"
  "store_ok s \<Longrightarrow> store_ok (create_unlink_code c pid e now s)"
  "store_ok s \<Longrightarrow> store_ok (snd (claim_link_code c now s))"
  "store_ok s \<Longrightarrow> store_ok (snd (claim_unlink_code c now s))"
  "store_ok s \<Longrightarrow> store_ok (snd (prune_link_codes now s))"
  "store_ok s \<Longrightarrow> store_ok (snd (prune_unlink_codes now s))"
  by (auto simp: store_ok_def personas_ok_def create_link_code_def create_unlink_code_def
      claim_link_code_def claim_unlink_code_def prune_link_codes_def prune_unlink_codes_def
      put_code_def case_prod_beta Let_def intro!: keys_intros)

subsection \<open>Unique names\<close>

lemma names_unique_iff:
  assumes "keys_distinct p_id ps"
  shows "names_unique ps \<longleftrightarrow> (\<forall>p \<in> set ps. \<forall>q \<in> set ps.
    p_name p \<noteq> None \<longrightarrow> name_folded p = name_folded q \<longrightarrow> p_id p = p_id q)"
proof -
  have dist: "distinct (named ps)" and inj: "inj_on p_id (set ps)"
    using assms by (auto simp: named_def keys_distinct_def distinct_map)
  have name: "p_name q = None \<longleftrightarrow> name_folded q = None" for q
    by (simp add: name_folded_def fold_name_def)
  have "names_unique ps \<longleftrightarrow> inj_on name_folded (set (named ps))"
    using dist by (simp add: names_unique_def keys_distinct_def distinct_map)
  also have "\<dots> \<longleftrightarrow> (\<forall>p \<in> set ps. \<forall>q \<in> set ps.
      p_name p \<noteq> None \<longrightarrow> name_folded p = name_folded q \<longrightarrow> p = q)"
    using name by (auto simp: inj_on_def named_def)
  also have "\<dots> \<longleftrightarrow> (\<forall>p \<in> set ps. \<forall>q \<in> set ps.
      p_name p \<noteq> None \<longrightarrow> name_folded p = name_folded q \<longrightarrow> p_id p = p_id q)"
    using inj by (auto simp: inj_on_def)
  finally show ?thesis .
qed

lemma name_taken_iff:
  "name_taken pid name s \<longleftrightarrow> (\<exists>n. name = Some n \<and>
     (\<exists>p \<in> set (s_personas s). p_id p \<noteq> pid \<and> name_folded p = fold_name (Some n)))"
  by (auto simp: name_taken_def list_ex_iff)

text \<open>Writing a row whose name is free keeps the index unique.\<close>

lemma names_unique_write:
  assumes "keys_distinct p_id ps" and "names_unique ps" and "keys_distinct p_id qs"
    and old: "\<And>q. q \<in> set qs \<Longrightarrow> p_id q \<noteq> pid \<Longrightarrow> q \<in> set ps"
    and own: "\<And>q. q \<in> set qs \<Longrightarrow> p_id q = pid \<Longrightarrow> p_name q = name"
    and free: "name = None \<or> (\<forall>p \<in> set ps. p_id p \<noteq> pid \<longrightarrow> name_folded p \<noteq> fold_name name)"
  shows "names_unique qs"
proof (unfold names_unique_iff [OF assms(3)], intro ballI impI)
  have other: "name_folded b \<noteq> name_folded a"
    if "a \<in> set qs" "b \<in> set qs" "p_id a = pid" "p_id b \<noteq> pid" "p_name a \<noteq> None" for a b
    using free own [OF that(1,3)] old [OF that(2,4)] that(4,5)
    by (auto simp: name_folded_def)
  fix p q
  assume pq: "p \<in> set qs" "q \<in> set qs" "p_name p \<noteq> None" "name_folded p = name_folded q"
  then have qn: "p_name q \<noteq> None"
    by (cases "p_name q") (auto simp: name_folded_def fold_name_def)
  show "p_id p = p_id q"
  proof (cases "p_id p = pid \<or> p_id q = pid")
    case True
    then show ?thesis
      using other [OF pq(1,2)] other [OF pq(2,1)] pq(3,4) qn by metis
  next
    case False
    then have "p \<in> set ps" "q \<in> set ps"
      using pq old by auto
    then show ?thesis
      using pq(3,4) iffD1 [OF names_unique_iff [OF assms(1)] assms(2)] by blast
  qed
qed

lemma sql_upsert_set_replace:
  "set (sql_upsert key (\<lambda>old new. new) r rows) =
     insert r {x \<in> set rows. key x \<noteq> key r}"
  by (auto simp: sql_upsert_def has_key_def) (metis imageI)

lemma store_ok_upsert_persona:
  assumes "upsert_persona p s = Inr s'" and "store_ok s"
  shows "store_ok s'"
proof -
  have s': "s' = s\<lparr>s_personas := sql_upsert p_id (\<lambda>old new. new) p (s_personas s)\<rparr>"
    and free: "\<not> name_taken (p_id p) (p_name p) s"
    using assms(1) by (auto simp: upsert_persona_def split: if_splits)
  have ok: "keys_distinct p_id (s_personas s)" "names_unique (s_personas s)"
    using assms(2) by (simp_all add: store_ok_def personas_ok_def)
  have kd: "keys_distinct p_id (s_personas s')"
    unfolding s' using ok by (auto intro!: keys_intros)
  have "names_unique (s_personas s')"
    by (rule names_unique_write [OF ok kd, of "p_id p" "p_name p"])
      (use free in \<open>auto simp: s' sql_upsert_set_replace name_taken_iff\<close>)
  then show ?thesis
    using assms(2) kd by (simp add: store_ok_def personas_ok_def s')
qed

lemma store_ok_set_persona_name:
  assumes "set_persona_name pid name rv upd now s = Inr s'" and "store_ok s"
  shows "store_ok s'"
proof -
  obtain f where s': "s' = s\<lparr>s_personas := sql_update (\<lambda>p. p_id p = pid) f (s_personas s)\<rparr>"
    and f: "\<And>p. p_id (f p) = p_id p" "\<And>p. p_name (f p) = name"
    and free: "\<not> (has_key p_id pid (s_personas s) \<and> name_taken pid name s)"
    using assms(1) by (auto simp: set_persona_name_def Let_def split: if_splits)
  have ok: "keys_distinct p_id (s_personas s)" "names_unique (s_personas s)"
    using assms(2) by (simp_all add: store_ok_def personas_ok_def)
  have kd: "keys_distinct p_id (s_personas s')"
    unfolding s' using ok f by (auto intro!: keys_intros)
  have "names_unique (s_personas s')"
  proof (cases "has_key p_id pid (s_personas s)")
    case True
    show ?thesis
      by (rule names_unique_write [OF ok kd, of pid name])
        (use free True f in \<open>auto simp: s' name_taken_iff split: if_splits\<close>)
  next
    case False
    then have "sql_update (\<lambda>p. p_id p = pid) f (s_personas s) = s_personas s"
      by (auto simp: sql_update_def has_key_def intro!: map_idI)
    then show ?thesis using ok by (simp add: s')
  qed
  then show ?thesis
    using assms(2) kd by (simp add: store_ok_def personas_ok_def s')
qed

lemma store_ok_create_persona:
  assumes "create_persona pid name u claimed now s = Inr (p, s')" and "store_ok s"
  shows "store_ok s'"
proof -
  have s': "s' = link_identity pid u None now (s\<lparr>s_personas := s_personas s @ [p]\<rparr>)"
    and p: "p_id p = pid" "p_name p = name"
    and free: "\<not> has_key p_id pid (s_personas s)" "\<not> name_taken pid name s"
    using assms(1) by (auto simp: create_persona_def Let_def split: if_splits)
  have ok: "keys_distinct p_id (s_personas s)" "names_unique (s_personas s)"
    using assms(2) by (simp_all add: store_ok_def personas_ok_def)
  have kd: "keys_distinct p_id (s_personas s @ [p])"
    using ok free p by simp
  have "names_unique (s_personas s @ [p])"
    by (rule names_unique_write [OF ok kd, of pid name])
      (use free p in \<open>auto simp: name_taken_iff has_key_def\<close>)
  then have "store_ok (s\<lparr>s_personas := s_personas s @ [p]\<rparr>)"
    using assms(2) kd by (simp add: store_ok_def personas_ok_def)
  then show ?thesis by (simp add: s')
qed

section \<open>What lookups return after an operation\<close>

lemma get_persona_put_identity [simp]: "get_persona pid (put_identity r s) = get_persona pid s"
  by (simp add: get_persona_def put_identity_def)

lemma get_persona_identity_put [simp]:
  "get_persona_identity u (put_identity r s) =
     (if u = i_user r then Some r else get_persona_identity u s)"
  by (auto simp: get_persona_identity_def put_identity_def sql_simps split: option.splits)

lemma get_persona_upsert:
  "upsert_persona p s = Inr s' \<Longrightarrow>
   get_persona pid s' = (if pid = p_id p then Some p else get_persona pid s)"
  by (auto simp: upsert_persona_def get_persona_def sql_simps split: if_splits option.splits)

lemma get_persona_id: "get_persona pid s = Some p \<Longrightarrow> p_id p = pid"
  by (auto simp: get_persona_def dest: sql_lookup_SomeD)

lemma get_persona_update:
  "(\<And>p. p_id (f p) = p_id p) \<Longrightarrow>
   get_persona q (s\<lparr>s_personas := sql_update (\<lambda>p. p_id p = pid) f (s_personas s)\<rparr>) =
     (if q = pid then map_option f (get_persona pid s) else get_persona q s)"
  by (cases "get_persona q s")
    (auto simp: get_persona_def sql_simps dest: sql_lookup_SomeD)

lemma get_persona_set_name:
  "set_persona_name pid name rv upd now s = Inr s' \<Longrightarrow>
   get_persona q s' = (if q = pid
     then map_option (\<lambda>p. p\<lparr>p_name := name,
       p_revision := (case rv of None \<Rightarrow> p_revision p + 1 | Some r \<Rightarrow> r),
       p_updated := (case upd of None \<Rightarrow> now | Some t \<Rightarrow> t)\<rparr>) (get_persona pid s)
     else get_persona q s)"
  unfolding set_persona_name_def Let_def
  by (simp only: get_persona_update split: if_splits) (auto simp: get_persona_update)

lemma get_persona_iff:
  "personas_ok s \<Longrightarrow> get_persona pid s = Some p \<longleftrightarrow> p \<in> set (s_personas s) \<and> p_id p = pid"
  by (simp add: get_persona_def personas_ok_def sql_lookup_iff)

lemma persona_by_name_SomeD:
  "persona_by_name name s = Some p \<Longrightarrow>
   p \<in> set (s_personas s) \<and> name_folded p = fold_name (Some name)"
  by (auto simp: persona_by_name_def dest: sql_lookup_SomeD)

lemma persona_by_name_None:
  "persona_by_name name s = None \<longleftrightarrow>
     (\<forall>p \<in> set (s_personas s). name_folded p \<noteq> fold_name (Some name))"
  by (auto simp: persona_by_name_def sql_lookup_None has_key_def) (metis imageI)

text \<open>One name, one persona: what the unique index gives every reader.\<close>

lemma same_name_same_persona:
  "personas_ok s \<Longrightarrow> get_persona i s = Some p \<Longrightarrow> get_persona j s = Some q \<Longrightarrow>
   p_name p \<noteq> None \<Longrightarrow> name_folded p = name_folded q \<Longrightarrow> i = j"
  using names_unique_iff [of "s_personas s"] get_persona_iff [of s]
  by (metis personas_ok_def)

lemma persona_devices_iff:
  "r \<in> set (persona_devices pid b s) \<longleftrightarrow>
     r \<in> set (s_identities s) \<and> i_persona r = pid \<and> (b \<or> identity_active r)"
  by (auto simp: persona_devices_def)

lemma get_persona_identity_iff:
  "personas_ok s \<Longrightarrow>
   get_persona_identity u s = Some r \<longleftrightarrow> r \<in> set (s_identities s) \<and> i_user r = u"
  by (simp add: get_persona_identity_def personas_ok_def sql_lookup_iff)

lemma get_persona_identity_unlink:
  "get_persona_identity u (snd (unlink_identity v rem now s)) =
     map_option (\<lambda>r. if u = v \<and> identity_active r
       then r\<lparr>i_removed := Some (case rem of None \<Rightarrow> now | Some t \<Rightarrow> t)\<rparr> else r)
       (get_persona_identity u s)"
  by (cases "get_persona_identity u s")
    (auto simp: unlink_identity_def get_persona_identity_def sql_simps Let_def
      dest: sql_lookup_SomeD)

section \<open>A code is spent once\<close>

lemma take_code_spent [simp]: "take_code code t (snd (take_code code now rows)) =
    (None, snd (take_code code now rows))"
proof -
  have "sql_lookup k_code code (snd (take_code code now rows)) = None"
    by (auto simp: take_code_def sql_lookup_None has_key_def split: option.splits)
  then show ?thesis
    by (simp add: take_code_def [of code t])
qed

lemma take_code_put:
  "fst (take_code code now (put_code c rows)) =
     (if code = k_code c then (if k_expires c < now then None else Some (k_persona c))
      else fst (take_code code now rows))"
  by (auto simp: take_code_def put_code_def sql_simps split: option.splits)

lemma claim_link_code_spent:
  "fst (claim_link_code code t (snd (claim_link_code code now s))) = None"
  by (simp add: claim_link_code_def case_prod_beta Let_def)

lemma claim_unlink_code_spent:
  "fst (claim_unlink_code code t (snd (claim_unlink_code code now s))) = None"
  by (simp add: claim_unlink_code_def case_prod_beta Let_def)

lemma persona_ops_frame [simp]:
  "s_members (put_identity r s) = s_members s" "s_groups (put_identity r s) = s_groups s"
  "s_members (snd (claim_link_code c now s)) = s_members s"
  "s_identities (snd (claim_link_code c now s)) = s_identities s"
  "s_personas (snd (claim_link_code c now s)) = s_personas s"
  "s_groups (snd (claim_link_code c now s)) = s_groups s"
  "s_members (snd (claim_unlink_code c now s)) = s_members s"
  "s_identities (snd (claim_unlink_code c now s)) = s_identities s"
  "s_personas (snd (claim_unlink_code c now s)) = s_personas s"
  by (simp_all add: put_identity_def claim_link_code_def claim_unlink_code_def
      case_prod_beta Let_def)

end
