(* ===== verification/Failover.thy ===== *)
theory Failover
  imports Destinations Store_Personas
begin

text \<open>
  \<open>lxmf_hub/failover.py\<close>: judging a peer from the last round it answered, serving the members
  of a peer that fell silent, handing them back, and telling members when this hub is isolated.
  \<open>pretty\<close> is \<open>RNS.prettyhexrep\<close>; a whole check reads the clock once.
\<close>

section \<open>Liveness\<close>

datatype peer_status = LIVE | STALE | UNKNOWN

definition MIN_TIMEOUT_INTERVALS :: real where "MIN_TIMEOUT_INTERVALS = 2"

definition FLAG_ISOLATED :: string where "FLAG_ISOLATED = ''isolated''"

definition effective_peer_timeout :: "hub_config \<Rightarrow> real" where
  "effective_peer_timeout cfg =
     (let configured = peer_timeout_sec (failover_cfg cfg);
          floor = MIN_TIMEOUT_INTERVALS * sync_interval_sec (federation_cfg cfg)
      in if \<not> fed_enabled (federation_cfg cfg) \<or> floor \<le> configured then configured else floor)"

definition format_age :: "real \<Rightarrow> string" where
  "format_age seconds =
     (if seconds < 120 then show_int (py_int seconds) @ ''s''
      else if seconds < 7200 then show_int (py_int (seconds / 60)) @ ''m''
      else show_int (py_int (seconds / 3600)) @ ''h'')"

record failover =
  fo_started :: time
  fo_peers :: "bytes list"
  fo_last_check :: time
  fo_timeout :: real

definition new_failover :: "hub_config \<Rightarrow> bytes list \<Rightarrow> time \<Rightarrow> failover" where
  "new_failover cfg hashes now = \<lparr>fo_started = now, fo_peers = hashes, fo_last_check = 0,
     fo_timeout = effective_peer_timeout cfg\<rparr>"

definition peer_status :: "failover \<Rightarrow> bytes \<Rightarrow> time \<Rightarrow> store \<Rightarrow> peer_status" where
  "peer_status f peer now s =
     (if (case peer_last_success peer s of None \<Rightarrow> False | Some t \<Rightarrow> now - t \<le> fo_timeout f) then LIVE
      else if now - fo_started f \<le> fo_timeout f then UNKNOWN
      else STALE)"

definition stale_peers :: "failover \<Rightarrow> time \<Rightarrow> store \<Rightarrow> bytes list" where
  "stale_peers f now s = filter (\<lambda>p. peer_status f p now s = STALE) (fo_peers f)"

section \<open>Endpoints and notice texts\<close>

definition local_endpoint :: "string \<Rightarrow> destinations \<Rightarrow> string" where
  "local_endpoint gid d = (case destination_for gid d of None \<Rightarrow> ''unknown'' | Some h \<Rightarrow> hex h)"

definition peer_endpoint :: "bytes \<Rightarrow> string \<Rightarrow> store \<Rightarrow> string option" where
  "peer_endpoint peer gid s =
     map_option (\<lambda>r. hex (pg_dest r)) (find (\<lambda>r. pg_peer r = peer) (list_peer_groups (Some gid) s))"

definition other_endpoints :: "string \<Rightarrow> time \<Rightarrow> store \<Rightarrow> string list" where
  "other_endpoints gid now s =
     map (\<lambda>r. pg_hub r @ '' '' @ hex (pg_dest r) @ '' (last seen '' @
            format_age (now - pg_updated r) @ '' ago)'')
       (list_peer_groups (Some gid) s)"

definition peer_name :: "(bytes \<Rightarrow> string) \<Rightarrow> bytes \<Rightarrow> store \<Rightarrow> string" where
  "peer_name pretty peer s =
     (case find (\<lambda>r. pg_peer r = peer) (list_peer_groups None s) of
        None \<Rightarrow> pretty peer | Some r \<Rightarrow> pg_hub r)"

definition adoption_notice :: "hub_config \<Rightarrow> failover \<Rightarrow> destinations \<Rightarrow> string \<Rightarrow> string \<Rightarrow> string" where
  "adoption_notice cfg f d gid name =
     gid @ '': your hub ('' @ name @ '') has not answered this hub for '' @
     format_age (fo_timeout f) @ ''. '' @ hub_name cfg @ '' is serving '' @ gid @
     '' in the meantime. To post, add this contact: '' @ local_endpoint gid d @
     ''. You keep receiving messages here either way.''"

definition handback_notice :: "hub_config \<Rightarrow> string \<Rightarrow> string \<Rightarrow> bytes \<Rightarrow> store \<Rightarrow> string" where
  "handback_notice cfg gid name peer s =
     (let endpoint = peer_endpoint peer gid s;
          home = (case endpoint of None \<Rightarrow> '''' | Some e \<Rightarrow>
            if e = '''' then '''' else '' Its address is '' @ e @ ''.'')
      in gid @ '': '' @ name @ '' is answering again, so '' @ hub_name cfg @
         '' has stopped serving you.'' @ home)"

definition isolation_notice :: "hub_config \<Rightarrow> string \<Rightarrow> time \<Rightarrow> store \<Rightarrow> string" where
  "isolation_notice cfg gid now s =
     (let others = other_endpoints gid now s;
          alternatives = (if others = [] then ''''
            else '' Other hubs for this group: '' @ join_with ''; '' others)
      in gid @ '': '' @ hub_name cfg @ '' cannot reach any peer hub. Messages here still reach '' @
         ''everybody on this hub, but may not be reaching members on the others.'' @ alternatives)"

section \<open>Adoption\<close>

fun enqueue_notices :: "string \<Rightarrow> bytes list \<Rightarrow> string \<Rightarrow> time \<Rightarrow> store \<Rightarrow> store" where
  "enqueue_notices gid [] body now s = s"
| "enqueue_notices gid (user # users) body now s =
     enqueue_notices gid users body now (snd (enqueue_notice gid user body SOURCE_GROUP now s))"

text \<open>The body of the loop of \<open>adopt_peer\<close>, and the loop.\<close>

definition adopt_group ::
    "hub_config \<Rightarrow> failover \<Rightarrow> destinations \<Rightarrow> bytes \<Rightarrow> string \<Rightarrow> time \<Rightarrow> string \<Rightarrow> store \<Rightarrow> nat \<times> store" where
  "adopt_group cfg f d peer name now gid s =
     (let members = list_peer_members peer gid s
      in if members = [] then (0, s)
         else
           let here = map fst (list_members gid True s);
               (fresh, s1) = adopt peer gid (filter (\<lambda>u. u \<notin> set here) members) now s
           in if fresh = [] then (0, s1)
              else (length fresh,
                if notify_clients (failover_cfg cfg)
                then enqueue_notices gid fresh (adoption_notice cfg f d gid name) now s1 else s1))"

fun adopt_groups ::
    "hub_config \<Rightarrow> failover \<Rightarrow> destinations \<Rightarrow> bytes \<Rightarrow> string \<Rightarrow> time \<Rightarrow> group_record list \<Rightarrow> store
     \<Rightarrow> nat \<times> store" where
  "adopt_groups cfg f d peer name now [] s = (0, s)"
| "adopt_groups cfg f d peer name now (g # gs) s =
     (let (n, s1) = adopt_group cfg f d peer name now (g_id g) s;
          (m, s2) = adopt_groups cfg f d peer name now gs s1
      in (n + m, s2))"

definition adopt_peer ::
    "hub_config \<Rightarrow> failover \<Rightarrow> destinations \<Rightarrow> (bytes \<Rightarrow> string) \<Rightarrow> bytes \<Rightarrow> time \<Rightarrow> store
     \<Rightarrow> nat \<times> store" where
  "adopt_peer cfg f d pretty peer now s =
     adopt_groups cfg f d peer (peer_name pretty peer s) now (list_groups s) s"

fun handback_notices ::
    "hub_config \<Rightarrow> string \<Rightarrow> bytes \<Rightarrow> time \<Rightarrow> (string \<times> bytes) list \<Rightarrow> store \<Rightarrow> store" where
  "handback_notices cfg name peer now [] s = s"
| "handback_notices cfg name peer now ((gid, user) # rest) s =
     handback_notices cfg name peer now rest
       (snd (enqueue_notice gid user (handback_notice cfg gid name peer s) SOURCE_GROUP now s))"

definition release ::
    "hub_config \<Rightarrow> (bytes \<Rightarrow> string) \<Rightarrow> bytes \<Rightarrow> time \<Rightarrow> store \<Rightarrow> nat \<times> store" where
  "release cfg pretty peer now s =
     (let (released, s1) = release_peer peer s
      in if released = [] then (0, s1)
         else (length released,
           if notify_clients (failover_cfg cfg)
           then handback_notices cfg (peer_name pretty peer s1) peer now released s1 else s1))"

section \<open>Isolation\<close>

fun isolation_notices ::
    "hub_config \<Rightarrow> bool \<Rightarrow> time \<Rightarrow> group_record list \<Rightarrow> store \<Rightarrow> store" where
  "isolation_notices cfg isolated now [] s = s"
| "isolation_notices cfg isolated now (g # gs) s =
     (let body = (if isolated then isolation_notice cfg (g_id g) now s
            else g_id g @ '': this hub is back in contact with its peers.'' @
                 '' Messages are crossing to the other hubs again.'')
      in isolation_notices cfg isolated now gs
           (enqueue_notices (g_id g) (map fst (list_members (g_id g) False s)) body now s))"

text \<open>\<open>stale\<close> is a set in the code: a list without repetitions here.\<close>

definition check_isolation ::
    "hub_config \<Rightarrow> failover \<Rightarrow> bytes list \<Rightarrow> time \<Rightarrow> store \<Rightarrow> bool \<times> store" where
  "check_isolation cfg f stale now s =
     (if fo_peers f = [] then (False, s)
      else
        let isolated = (length stale = length (fo_peers f));
            was_isolated = get_flag FLAG_ISOLATED s
        in if isolated = was_isolated then (False, s)
           else
             let s1 = set_flag FLAG_ISOLATED isolated s
             in if \<not> notify_isolation (failover_cfg cfg) then (True, s1)
                else (True, isolation_notices cfg isolated now (list_groups s1) s1))"

section \<open>The check\<close>

fun react ::
    "hub_config \<Rightarrow> failover \<Rightarrow> destinations \<Rightarrow> (bytes \<Rightarrow> string) \<Rightarrow> time
     \<Rightarrow> (bytes \<times> peer_status) list \<Rightarrow> store \<Rightarrow> store" where
  "react cfg f d pretty now [] s = s"
| "react cfg f d pretty now ((peer, status) # rest) s =
     react cfg f d pretty now rest
       (if status = STALE then snd (adopt_peer cfg f d pretty peer now s)
        else if status = LIVE \<and> peer \<in> set (adopted_peers s) then snd (release cfg pretty peer now s)
        else s)"

definition check ::
    "hub_config \<Rightarrow> failover \<Rightarrow> destinations \<Rightarrow> (bytes \<Rightarrow> string) \<Rightarrow> time \<Rightarrow> store \<Rightarrow> store" where
  "check cfg f d pretty now s =
     (let statuses = dict_of (map (\<lambda>p. (p, peer_status f p now s)) (fo_peers f));
          s1 = react cfg f d pretty now statuses s
      in if UNKNOWN \<in> snd ` set statuses then s1
         else snd (check_isolation cfg f
           (map fst (filter (\<lambda>(p, st). st = STALE) statuses)) now s1))"

definition check_due ::
    "hub_config \<Rightarrow> failover \<Rightarrow> destinations \<Rightarrow> (bytes \<Rightarrow> string) \<Rightarrow> time \<Rightarrow> store
     \<Rightarrow> bool \<times> failover \<times> store" where
  "check_due cfg f d pretty now s =
     (if now - fo_last_check f < check_interval_sec (failover_cfg cfg) then (False, f, s)
      else (True, f\<lparr>fo_last_check := now\<rparr>, check cfg (f\<lparr>fo_last_check := now\<rparr>) d pretty now s))"

section \<open>What the operations leave alone\<close>

text \<open>Everything the judgement and the adoptions depend on, apart from the adoptions, and the tables that
  failover does not touch: the log, the queue of deliveries and the codes.\<close>

lemma code_frames [simp]:
  "s_links (snd (enqueue_notice g u body src now s)) = s_links s" "s_unlinks (snd (enqueue_notice g u body src now s)) = s_unlinks s"
  "s_links (snd (adopt p g us now s)) = s_links s" "s_unlinks (snd (adopt p g us now s)) = s_unlinks s"
  "s_links (snd (release_peer p s)) = s_links s" "s_unlinks (snd (release_peer p s)) = s_unlinks s"
  using adopt_frame [of p g us now s] by (auto simp: enqueue_notice_def release_peer_def Let_def case_prod_beta)

definition same_basis :: "store \<Rightarrow> store \<Rightarrow> bool" where
  "same_basis s s' \<longleftrightarrow> s_groups s' = s_groups s \<and> s_members s' = s_members s \<and>
     s_peer_members s' = s_peer_members s \<and> s_peer_groups s' = s_peer_groups s \<and>
     s_liveness s' = s_liveness s \<and> s_messages s' = s_messages s \<and> s_egress s' = s_egress s \<and>
     s_links s' = s_links s \<and> s_unlinks s' = s_unlinks s"

lemma same_basis_refl [simp]: "same_basis s s"
  by (simp add: same_basis_def)

lemma same_basis_trans: "same_basis s t \<Longrightarrow> same_basis t u \<Longrightarrow> same_basis s u"
  by (simp add: same_basis_def)

lemma same_basis_reads:
  assumes "same_basis s s'"
  shows "list_groups s' = list_groups s" "get_role g u s' = get_role g u s"
    "list_peer_members p g s' = list_peer_members p g s" "peer_status f p now s' = peer_status f p now s"
    "list_members g b s' = list_members g b s" "groups_ok s' = groups_ok s"
  using assms by (simp_all add: same_basis_def list_groups_def get_role_def list_peer_members_def
      peer_status_def peer_last_success_def list_members_def groups_ok_def)

lemma enqueue_notices_frame [simp]:
  "same_basis s (enqueue_notices gid us body now s)"
  "s_adoptions (enqueue_notices gid us body now s) = s_adoptions s"
  "s_meta (enqueue_notices gid us body now s) = s_meta s"
  by (induction us arbitrary: s) (simp_all add: same_basis_def)

lemma same_basis_enqueue [intro]:
  "same_basis s t \<Longrightarrow> same_basis s (enqueue_notices gid us body now t)"
  using enqueue_notices_frame(1) same_basis_trans by blast

lemma store_ok_enqueue_notices [simp]:
  "store_ok s \<Longrightarrow> store_ok (enqueue_notices gid us body now s)"
  by (induction us arbitrary: s) simp_all

lemma handback_notices_frame [simp]:
  "same_basis s (handback_notices cfg name peer now rs s)"
  "s_adoptions (handback_notices cfg name peer now rs s) = s_adoptions s"
  "s_meta (handback_notices cfg name peer now rs s) = s_meta s"
  by (induction rs arbitrary: s) (auto simp: same_basis_def)

lemma same_basis_handback [intro]:
  "same_basis s t \<Longrightarrow> same_basis s (handback_notices cfg name peer now rs t)"
  using handback_notices_frame(1) same_basis_trans by blast

lemma store_ok_handback_notices [simp]:
  "store_ok s \<Longrightarrow> store_ok (handback_notices cfg name peer now rs s)"
  by (induction rs arbitrary: s) auto

lemma isolation_notices_frame [simp]:
  "same_basis s (isolation_notices cfg b now gs s)"
  "s_adoptions (isolation_notices cfg b now gs s) = s_adoptions s"
  "s_meta (isolation_notices cfg b now gs s) = s_meta s"
proof -
  have "same_basis s (isolation_notices cfg b now gs s) \<and>
      s_adoptions (isolation_notices cfg b now gs s) = s_adoptions s \<and>
      s_meta (isolation_notices cfg b now gs s) = s_meta s"
  proof (induction gs arbitrary: s)
    case (Cons g gs)
    define body where "body = (if b then isolation_notice cfg (g_id g) now s
      else g_id g @ '': this hub is back in contact with its peers.'' @
           '' Messages are crossing to the other hubs again.'')"
    let ?s1 = "enqueue_notices (g_id g) (map fst (list_members (g_id g) False s)) body now s"
    have "isolation_notices cfg b now (g # gs) s = isolation_notices cfg b now gs ?s1"
      by (simp add: body_def Let_def)
    with Cons.IH [of ?s1] same_basis_trans [of s ?s1] show ?case by simp
  qed simp
  then show "same_basis s (isolation_notices cfg b now gs s)"
    "s_adoptions (isolation_notices cfg b now gs s) = s_adoptions s"
    "s_meta (isolation_notices cfg b now gs s) = s_meta s"
    by simp_all
qed

lemma store_ok_isolation_notices [simp]:
  "store_ok s \<Longrightarrow> store_ok (isolation_notices cfg b now gs s)"
  by (induction gs arbitrary: s) (simp_all add: Let_def)

lemma adopt_basis [simp]: "same_basis s (snd (adopt p g us now s))"
  by (simp add: same_basis_def)

lemma adopted_cong: "s_adoptions s' = s_adoptions s \<Longrightarrow> adopted p g u s' = adopted p g u s"
  by (simp add: adopted_def)

section \<open>Adoption\<close>

lemma adopt_group_eq:
  assumes "us = filter (\<lambda>u. u \<notin> set (map fst (list_members gid True s))) (list_peer_members peer gid s)"
    and "list_peer_members peer gid s \<noteq> []"
  shows "adopt_group cfg f d peer name now gid s =
    (length (fst (adopt peer gid us now s)),
     if fst (adopt peer gid us now s) \<noteq> [] \<and> notify_clients (failover_cfg cfg)
     then enqueue_notices gid (fst (adopt peer gid us now s)) (adoption_notice cfg f d gid name) now
       (snd (adopt peer gid us now s))
     else snd (adopt peer gid us now s))"
  using assms by (simp add: adopt_group_def Let_def case_prod_beta)

lemma adopt_group_empty:
  "list_peer_members peer gid s = [] \<Longrightarrow> adopt_group cfg f d peer name now gid s = (0, s)"
  by (simp add: adopt_group_def)

lemma adopt_group_frame:
  "same_basis s (snd (adopt_group cfg f d peer name now gid s)) \<and>
   s_meta (snd (adopt_group cfg f d peer name now gid s)) = s_meta s"
  by (cases "list_peer_members peer gid s = []")
    (auto simp: adopt_group_empty adopt_group_eq [OF refl])

lemma adopt_groups_basis:
  "same_basis s (snd (adopt_groups cfg f d peer name now gs s)) \<and>
   s_meta (snd (adopt_groups cfg f d peer name now gs s)) = s_meta s"
proof (induction gs arbitrary: s)
  case (Cons g gs)
  then show ?case
    using adopt_group_frame [of s cfg f d peer name now "g_id g"]
    by (auto simp: Let_def case_prod_beta intro: same_basis_trans)
qed simp

lemma store_ok_adopt_group: "store_ok s \<Longrightarrow> store_ok (snd (adopt_group cfg f d peer name now gid s))"
  by (cases "list_peer_members peer gid s = []")
    (auto simp: adopt_group_empty adopt_group_eq [OF refl])

lemma store_ok_adopt_groups:
  "store_ok s \<Longrightarrow> store_ok (snd (adopt_groups cfg f d peer name now gs s))"
  by (induction gs arbitrary: s) (simp_all add: Let_def case_prod_beta store_ok_adopt_group)

lemma list_members_users:
  assumes "groups_ok s"
  shows "u \<in> fst ` set (list_members g True s) \<longleftrightarrow> get_role g u s \<noteq> None"
proof
  assume "u \<in> fst ` set (list_members g True s)"
  then obtain r where "(u, r) \<in> set (list_members g True s)"
    by auto
  then show "get_role g u s \<noteq> None"
    by (simp add: list_members_iff [OF assms])
next
  assume "get_role g u s \<noteq> None"
  then obtain r where "(u, r) \<in> set (list_members g True s)"
    by (auto simp: list_members_iff [OF assms])
  then show "u \<in> fst ` set (list_members g True s)"
    by (rule image_eqI [rotated]) simp
qed

lemma adopt_group_adopted:
  assumes "groups_ok s"
  shows "adopted p g u (snd (adopt_group cfg f d peer name now gid s)) \<longleftrightarrow>
    adopted p g u s \<or> (p = peer \<and> g = gid \<and> u \<in> set (list_peer_members peer gid s) \<and>
      get_role gid u s = None)"
proof (cases "list_peer_members peer gid s = []")
  case False
  define us where "us = filter (\<lambda>u. u \<notin> set (map fst (list_members gid True s))) (list_peer_members peer gid s)"
  have us: "u \<in> set us \<longleftrightarrow> u \<in> set (list_peer_members peer gid s) \<and> get_role gid u s = None"
    using list_members_users [OF assms, of u gid] by (simp add: us_def)
  have "s_adoptions (snd (adopt_group cfg f d peer name now gid s)) = s_adoptions (snd (adopt peer gid us now s))"
    by (simp add: adopt_group_eq [OF us_def False])
  from adopted_cong [OF this, of p g u] adopted_adopt [of p g u peer gid us now s] us show ?thesis
    by blast
qed (simp add: adopt_group_empty)

lemma adopt_groups_adopted:
  "groups_ok s \<Longrightarrow> adopted p g u (snd (adopt_groups cfg f d peer name now gs s)) \<longleftrightarrow>
     adopted p g u s \<or> (p = peer \<and> g \<in> g_id ` set gs \<and> u \<in> set (list_peer_members peer g s) \<and>
       get_role g u s = None)"
proof (induction gs arbitrary: s)
  case (Cons x gs)
  let ?s1 = "snd (adopt_group cfg f d peer name now (g_id x) s)"
  have basis: "same_basis s ?s1"
    using adopt_group_frame by blast
  have "snd (adopt_groups cfg f d peer name now (x # gs) s) =
      snd (adopt_groups cfg f d peer name now gs ?s1)"
    by (simp add: Let_def case_prod_beta)
  then show ?case
    using Cons.IH [of ?s1] Cons.prems adopt_group_adopted [OF Cons.prems, of p g u cfg f d peer name now "g_id x"]
      same_basis_reads [OF basis] by auto
qed simp

lemma list_groups_ids: "g \<in> g_id ` set (list_groups s) \<longleftrightarrow> get_group g s \<noteq> None"
  by (simp add: list_groups_def get_group_def sql_lookup_None has_key_def)

lemma adopt_peer_adopted:
  "groups_ok s \<Longrightarrow> adopted p g u (snd (adopt_peer cfg f d pretty peer now s)) \<longleftrightarrow>
     adopted p g u s \<or> (p = peer \<and> get_group g s \<noteq> None \<and> u \<in> set (list_peer_members peer g s) \<and>
       get_role g u s = None)"
  unfolding adopt_peer_def by (simp only: adopt_groups_adopted list_groups_ids)

lemma adopt_peer_basis: "same_basis s (snd (adopt_peer cfg f d pretty peer now s))"
  using adopt_groups_basis unfolding adopt_peer_def by blast

lemma store_ok_adopt_peer: "store_ok s \<Longrightarrow> store_ok (snd (adopt_peer cfg f d pretty peer now s))"
  unfolding adopt_peer_def by (rule store_ok_adopt_groups)

section \<open>Release\<close>

lemma release_peer_basis [simp]: "same_basis s (snd (release_peer p s))"
  by (simp add: release_peer_def same_basis_def)

lemma release_adoptions: "s_adoptions (snd (release cfg pretty peer now s)) = s_adoptions (snd (release_peer peer s))"
  by (simp add: release_def case_prod_beta Let_def)

lemma release_adopted:
  "adopted p g u (snd (release cfg pretty peer now s)) \<longleftrightarrow> adopted p g u s \<and> p \<noteq> peer"
  using adopted_cong [OF release_adoptions] adopted_release_peer by blast

lemma release_basis: "same_basis s (snd (release cfg pretty peer now s))"
  by (auto simp: release_def case_prod_beta Let_def)

lemma store_ok_release: "store_ok s \<Longrightarrow> store_ok (snd (release cfg pretty peer now s))"
  by (simp add: release_def case_prod_beta Let_def)

section \<open>Repeating an adoption\<close>

lemma adopt_known: "\<forall>u \<in> set us. adopted peer gid u s \<Longrightarrow> adopt peer gid us now s = ([], s)"
  by (induction us) (auto simp: adopted_def sql_ignore_def adoption_key_def Let_def)

lemma adopt_groups_settled:
  "groups_ok s \<Longrightarrow> \<forall>g \<in> set gs. \<forall>u \<in> set (list_peer_members peer (g_id g) s).
     get_role (g_id g) u s = None \<longrightarrow> adopted peer (g_id g) u s \<Longrightarrow>
   adopt_groups cfg f d peer name now gs s = (0, s)"
proof (induction gs)
  case (Cons x gs)
  define us where "us = filter (\<lambda>u. u \<notin> set (map fst (list_members (g_id x) True s)))
    (list_peer_members peer (g_id x) s)"
  have "\<forall>u \<in> set us. adopted peer (g_id x) u s"
    using Cons.prems(2) list_members_users [OF Cons.prems(1)] by (simp add: us_def)
  then have "adopt peer (g_id x) us now s = ([], s)"
    by (rule adopt_known)
  then have "adopt_group cfg f d peer name now (g_id x) s = (0, s)"
    by (cases "list_peer_members peer (g_id x) s = []")
      (simp_all add: adopt_group_empty adopt_group_eq [OF us_def])
  then show ?case
    using Cons by simp
qed simp

text \<open>A second look at a peer that is still silent adopts nobody and tells nobody.\<close>

lemma adopt_peer_again:
  assumes "groups_ok s" and "s1 = snd (adopt_peer cfg f d pretty peer now s)"
  shows "adopt_peer cfg f d pretty peer later s1 = (0, s1)"
proof -
  have basis: "same_basis s s1"
    using adopt_peer_basis assms(2) by blast
  have "get_group (g_id g) s \<noteq> None" if "g \<in> set (list_groups s)" for g
    using that list_groups_ids [of "g_id g" s] by blast
  then have "adopted peer (g_id g) u s1"
    if "g \<in> set (list_groups s1)" "u \<in> set (list_peer_members peer (g_id g) s1)" "get_role (g_id g) u s1 = None" for g u
    using that adopt_peer_adopted [OF assms(1)] same_basis_reads [OF basis] unfolding assms(2) by simp
  then show ?thesis
    unfolding adopt_peer_def using same_basis_reads(6) [OF basis] assms(1)
    by (intro adopt_groups_settled) auto
qed

section \<open>One check\<close>

lemma react_basis: "same_basis s (react cfg f d pretty now sts s)"
proof (induction sts arbitrary: s)
  case (Cons x sts)
  obtain p st where x: "x = (p, st)"
    by (cases x)
  have "same_basis s (if st = STALE then snd (adopt_peer cfg f d pretty p now s)
      else if st = LIVE \<and> p \<in> set (adopted_peers s) then snd (release cfg pretty p now s) else s)"
    using adopt_peer_basis release_basis by simp
  from same_basis_trans [OF this Cons.IH] show ?case
    unfolding x react.simps .
qed simp

lemma react_store_ok: "store_ok s \<Longrightarrow> store_ok (react cfg f d pretty now sts s)"
proof (induction sts arbitrary: s)
  case (Cons x sts)
  then show ?case
    by (cases x) (simp add: store_ok_adopt_peer store_ok_release)
qed simp

definition after_check ::
    "peer_status option \<Rightarrow> bytes \<Rightarrow> string \<Rightarrow> bytes \<Rightarrow> store \<Rightarrow> bool" where
  "after_check status p g u s \<longleftrightarrow>
     (case status of
        Some LIVE \<Rightarrow> False
      | Some STALE \<Rightarrow> adopted p g u s \<or> (get_group g s \<noteq> None \<and>
          u \<in> set (list_peer_members p g s) \<and> get_role g u s = None)
      | _ \<Rightarrow> adopted p g u s)"

lemma after_check_basis:
  "same_basis s t \<Longrightarrow> adopted p g u t = adopted p g u s \<Longrightarrow> after_check st p g u t = after_check st p g u s"
proof -
  assume b: "same_basis s t" and a: "adopted p g u t = adopted p g u s"
  then have "get_group g t = get_group g s"
    by (simp add: same_basis_def get_group_def)
  with a same_basis_reads [OF b] show ?thesis
    by (simp add: after_check_def split: option.splits peer_status.splits)
qed

lemma react_adopted:
  "groups_ok s \<Longrightarrow> distinct (map fst sts) \<Longrightarrow>
   adopted p g u (react cfg f d pretty now sts s) \<longleftrightarrow> after_check (map_of sts p) p g u s"
proof (induction sts arbitrary: s)
  case Nil
  then show ?case by (simp add: after_check_def)
next
  case (Cons x sts)
  obtain q st where x: "x = (q, st)"
    by (cases x)
  define s1 where "s1 = (if st = STALE then snd (adopt_peer cfg f d pretty q now s)
    else if st = LIVE \<and> q \<in> set (adopted_peers s) then snd (release cfg pretty q now s) else s)"
  have basis: "same_basis s s1"
    using adopt_peer_basis release_basis by (simp add: s1_def)
  have IH: "adopted p g u (react cfg f d pretty now (x # sts) s) = after_check (map_of sts p) p g u s1"
    using Cons.IH [of s1] Cons.prems same_basis_reads(6) [OF basis] by (simp add: x s1_def)
  show ?case
  proof (cases "p = q")
    case True
    then have "map_of sts p = None"
      using Cons.prems(2) x by (auto simp: map_of_eq_None_iff)
    then have "adopted p g u (react cfg f d pretty now (x # sts) s) = adopted p g u s1"
      using IH by (simp add: after_check_def)
    also have "\<dots> = after_check (Some st) p g u s"
      using True adopt_peer_adopted [OF Cons.prems(1), of p g u cfg f d pretty q now]
        release_adopted [of p g u cfg pretty q now s] adopted_peers_iff [of q s]
      by (cases st) (auto simp: s1_def after_check_def)
    finally show ?thesis
      using True x by simp
  next
    case False
    then have "adopted p g u s1 = adopted p g u s"
      using adopt_peer_adopted [OF Cons.prems(1), of p g u cfg f d pretty q now]
        release_adopted [of p g u cfg pretty q now s] by (auto simp: s1_def)
    then show ?thesis
      using IH after_check_basis [OF basis] False x by simp
  qed
qed

lemma check_isolation_frame:
  "same_basis s (snd (check_isolation cfg f stale now s))"
  "s_adoptions (snd (check_isolation cfg f stale now s)) = s_adoptions s"
proof -
  have flag: "same_basis s (set_flag k b s)" "s_adoptions (set_flag k b s) = s_adoptions s" for k b
    by (simp_all add: set_flag_def meta_set_def same_basis_def)
  note both = same_basis_trans [OF flag(1) isolation_notices_frame(1)]
  show "same_basis s (snd (check_isolation cfg f stale now s))"
    "s_adoptions (snd (check_isolation cfg f stale now s)) = s_adoptions s"
    by (simp_all add: check_isolation_def Let_def flag both)
qed

lemma store_ok_check_isolation: "store_ok s \<Longrightarrow> store_ok (snd (check_isolation cfg f stale now s))"
  by (simp add: check_isolation_def Let_def)

lemma store_ok_check: "store_ok s \<Longrightarrow> store_ok (check cfg f d pretty now s)"
  by (simp add: check_def Let_def react_store_ok store_ok_check_isolation)

lemma check_basis: "same_basis s (check cfg f d pretty now s)"
  unfolding check_def Let_def using react_basis check_isolation_frame(1) same_basis_trans by (simp, blast)

lemma check_adopted:
  assumes "groups_ok s"
  shows "adopted p g u (check cfg f d pretty now s) \<longleftrightarrow>
    after_check (if p \<in> set (fo_peers f) then Some (peer_status f p now s) else None) p g u s"
proof -
  let ?sts = "dict_of (map (\<lambda>p. (p, peer_status f p now s)) (fo_peers f))"
  have "map_of ?sts p = (if p \<in> set (fo_peers f) then Some (peer_status f p now s) else None)"
    by (simp add: map_of_dict_of rev_map map_of_pairs)
  moreover have "adopted p g u (check cfg f d pretty now s) = adopted p g u (react cfg f d pretty now ?sts s)"
    by (rule adopted_cong) (simp add: check_def Let_def check_isolation_frame)
  ultimately show ?thesis
    using react_adopted [OF assms distinct_dict_of] by simp
qed

section \<open>Isolation is reported when it changes\<close>

lemma check_isolation_flag:
  "fo_peers f \<noteq> [] \<Longrightarrow>
   get_flag FLAG_ISOLATED (snd (check_isolation cfg f stale now s)) \<longleftrightarrow>
     length stale = length (fo_peers f)"
proof -
  assume "fo_peers f \<noteq> []"
  moreover have "get_flag k (isolation_notices cfg b now gs s) = get_flag k s" for k b gs s
    by (simp add: get_flag_def meta_get_def)
  ultimately show ?thesis
    by (simp add: check_isolation_def Let_def)
qed

lemma check_isolation_again:
  "snd (check_isolation cfg f stale now s) = s1 \<Longrightarrow>
   check_isolation cfg f stale later s1 = (False, s1)"
proof (cases "fo_peers f = []")
  case False
  assume s1: "snd (check_isolation cfg f stale now s) = s1"
  have "get_flag FLAG_ISOLATED s1 = (length stale = length (fo_peers f))"
    using check_isolation_flag [OF False, of cfg stale now s] unfolding s1 .
  then show ?thesis
    using False by (simp add: check_isolation_def)
qed (simp add: check_isolation_def)

section \<open>The timeout\<close>

lemma effective_timeout_floor:
  "fed_enabled (federation_cfg cfg) \<Longrightarrow>
   MIN_TIMEOUT_INTERVALS * sync_interval_sec (federation_cfg cfg) \<le> effective_peer_timeout cfg"
  by (simp add: effective_peer_timeout_def Let_def)

text \<open>A peer that answered within the last two sync intervals is live whatever was configured.\<close>

lemma recent_answer_live:
  assumes "fed_enabled (federation_cfg cfg)" and "peer_last_success peer s = Some t"
    and "now - t \<le> 2 * sync_interval_sec (federation_cfg cfg)"
  shows "peer_status (new_failover cfg hashes started) peer now s = LIVE"
  using assms effective_timeout_floor [OF assms(1)]
  by (simp add: peer_status_def new_failover_def MIN_TIMEOUT_INTERVALS_def)

text \<open>A restart is no evidence: within the timeout of the start no peer is judged stale.\<close>

lemma no_stale_after_start:
  "now - fo_started f \<le> fo_timeout f \<Longrightarrow> stale_peers f now s = []"
  by (auto simp: stale_peers_def peer_status_def filter_empty_conv split: option.splits)

end
