(* ===== verification/Admin.thy ===== *)
theory Admin
  imports Failover
begin

text \<open>
  \<open>lxmf_hub/admin.py\<close> and \<open>lxmf_hub/aliases.py\<close>: the administrative verbs shared by the
  command line and the control channel. A command is what \<open>argparse\<close> hands over, as a
  datatype with the parser's verbs; the parser is in \<open>Command_Line\<close>. \<open>key\<close> is the private
  key of the identity RNS generates, \<open>pick\<close> the random choice of a codename.
\<close>

datatype admin_error =
    CommandError string
  | AdminRaised store_error

section \<open>Codenames\<close>

definition PUBLIC_ALIASES :: "string list" where
  "PUBLIC_ALIASES = [''Arctic Canopy'', ''Frost Vector'', ''Static Architect'', ''Logic Tether'']"

definition numbered_alias :: "nat \<Rightarrow> string" where
  "numbered_alias n = hd PUBLIC_ALIASES @ '' '' @ show_nat n"

text \<open>Decimal digits determine the number, so the numbered codenames are all different.\<close>

definition digits_value :: "string \<Rightarrow> nat" where
  "digits_value s = foldl (\<lambda>a c. a * 10 + (of_char c - 48)) 0 s"

lemma digits_value_show [simp]: "digits_value (show_nat n) = n"
proof (induction n rule: show_nat.induct)
  case (1 n)
  show ?case
  proof (cases "n < 10")
    case True
    then show ?thesis
      by (subst show_nat.simps) (simp add: digits_value_def of_char_of)
  next
    case False
    then have "digits_value (show_nat n) = digits_value (show_nat (n div 10)) * 10 + n mod 10"
      by (subst show_nat.simps) (simp add: digits_value_def of_char_of)
    then show ?thesis
      using 1 False by simp
  qed
qed

lemma numbered_alias_inj: "numbered_alias m = numbered_alias n \<longleftrightarrow> m = n"
  unfolding numbered_alias_def by (metis append_same_eq digits_value_show same_append_eq)

text \<open>The \<open>while\<close> loop ends because the used names are finite.\<close>

function free_suffix :: "string list \<Rightarrow> nat \<Rightarrow> nat" where
  "free_suffix used n = (if numbered_alias n \<in> set used then free_suffix used (n + 1) else n)"
  by pat_completeness auto
termination
proof (relation "measure (\<lambda>(used, n). card {m. n \<le> m \<and> numbered_alias m \<in> set used})")
  fix used :: "string list" and n
  assume used: "numbered_alias n \<in> set used"
  let ?S = "\<lambda>n. {m. n \<le> m \<and> numbered_alias m \<in> set used}"
  have "inj_on numbered_alias (?S n)"
    by (simp add: inj_on_def numbered_alias_inj)
  moreover have "numbered_alias ` ?S n \<subseteq> set used"
    by auto
  ultimately have "finite (?S n)"
    by (rule inj_on_finite) simp
  moreover have "?S (n + 1) \<subset> ?S n"
  proof (rule psubsetI)
    show "?S (n + 1) \<noteq> ?S n"
      using used by (metis (mono_tags, lifting) Suc_eq_plus1 Suc_n_not_le_n le_refl mem_Collect_eq)
  qed auto
  ultimately show "((used, n + 1), used, n) \<in> measure (\<lambda>(used, n). card {m. n \<le> m \<and> numbered_alias m \<in> set used})"
    by (simp add: psubset_card_mono)
qed simp

declare free_suffix.simps [simp del]

definition choose_alias :: "(string list \<Rightarrow> string) \<Rightarrow> string list \<Rightarrow> string" where
  "choose_alias pick used =
     (let available = filter (\<lambda>a. a \<notin> set used) PUBLIC_ALIASES
      in if available \<noteq> [] then pick available else numbered_alias (free_suffix used 2))"

lemma free_suffix_free: "numbered_alias (free_suffix used n) \<notin> set used"
proof (induction used n rule: free_suffix.induct)
  case (1 used n)
  then show ?case
    by (subst free_suffix.simps) (simp split: if_split)
qed

lemma choose_alias_unused:
  "(\<And>xs. xs \<noteq> [] \<Longrightarrow> pick xs \<in> set xs) \<Longrightarrow> choose_alias pick used \<notin> set used"
proof -
  assume pick: "\<And>xs :: string list. xs \<noteq> [] \<Longrightarrow> pick xs \<in> set xs"
  show ?thesis
    using pick [of "filter (\<lambda>a. a \<notin> set used) PUBLIC_ALIASES"] free_suffix_free [of used 2]
    by (auto simp: choose_alias_def Let_def)
qed

section \<open>Hashes as operators type them\<close>

definition user_hash :: "string \<Rightarrow> admin_error + bytes" where
  "user_hash value =
     (let cleaned = remove_char (CHR '' '') (remove_char (CHR ''-'') (remove_char (CHR '':'')
            (strip_of (\<lambda>c. c = CHR ''<'' \<or> c = CHR ''>'') (strip value))));
          digits = (if lower (take 2 cleaned) = ''0x'' then drop 2 cleaned else cleaned)
      in case from_hex digits of
           None \<Rightarrow> Inl (CommandError (CHR 0x27 # value @ CHR 0x27 # '' is not a hex LXMF address''))
         | Some parsed \<Rightarrow>
             if length parsed \<noteq> DESTINATION_HASH_LENGTH
             then Inl (CommandError (CHR 0x27 # value @ CHR 0x27 # '' is '' @ show_nat (length parsed) @
               '' byte(s); an LXMF address (delivery destination hash) is '' @
               show_nat DESTINATION_HASH_LENGTH @ '' ('' @ show_nat (DESTINATION_HASH_LENGTH * 2) @
               '' hex characters)''))
             else Inr parsed)"

lemma user_hash_length: "user_hash v = Inr h \<Longrightarrow> length h = DESTINATION_HASH_LENGTH"
  by (auto simp: user_hash_def Let_def split: option.splits if_splits)

section \<open>The verbs\<close>

datatype admin_cmd =
    CreateGroup string "string option" "string option"
  | Groups
  | DeleteGroup string
  | SetAcl string string
  | AddMember string string role
  | RemoveMember string string
  | Members string
  | Peers
  | Status

fun role_text :: "role \<Rightarrow> string" where
  "role_text ROLE_MEMBER = ''member''"
| "role_text ROLE_ADMIN = ''admin''"
| "role_text ROLE_BANNED = ''banned''"

definition TAB :: string where "TAB = [CHR 0x09]"

definition NEWLINE :: string where "NEWLINE = [CHR 0x0A]"

definition or_text :: "string \<Rightarrow> string \<Rightarrow> string" where
  "or_text s t = (if s = [] then t else s)"

definition no_such_group :: "string \<Rightarrow> admin_error" where
  "no_such_group gid = CommandError (''No such group: '' @ gid)"

fun sequence_results :: "('e + 'a) list \<Rightarrow> 'e + 'a list" where
  "sequence_results [] = Inr []"
| "sequence_results (Inl e # rs) = Inl e"
| "sequence_results (Inr x # rs) = (case sequence_results rs of Inl e \<Rightarrow> Inl e | Inr xs \<Rightarrow> Inr (x # xs))"

definition group_line :: "(bytes \<Rightarrow> bytes option) \<Rightarrow> store \<Rightarrow> group_record \<Rightarrow> admin_error + string" where
  "group_line dest_of s g =
     (case group_destination_hash dest_of (g_key g) of
        Inl e \<Rightarrow> Inl (AdminRaised e)
      | Inr h \<Rightarrow> Inr (g_id g @ TAB @ g_acl g @ TAB @
          show_nat (length (list_members (g_id g) False s)) @ '' member(s)'' @ TAB @ hex h))"

definition peer_lines :: "time \<Rightarrow> store \<Rightarrow> bytes \<Rightarrow> string list" where
  "peer_lines now s peer =
     (let last = peer_last_success peer s;
          seen = (case last of None \<Rightarrow> ''never''
            | Some t \<Rightarrow> if t = 0 then ''never'' else format_age (now - t) @ '' ago'');
          adopted = sum_list (map (\<lambda>g. length (list_peer_members peer (g_id g) s)) (list_groups s))
      in (hex peer @ TAB @ ''last answered '' @ seen @ TAB @ show_nat adopted @ '' member(s) known'') #
         map (\<lambda>r. ''  '' @ pg_group r @ TAB @ pg_hub r @ TAB @ hex (pg_dest r))
           (filter (\<lambda>r. pg_peer r = peer) (list_peer_groups None s)))"

text \<open>\<open>control\<close> is the hash of the hub's own delivery destination, once the hub has an identity.\<close>

definition administer ::
    "hub_config \<Rightarrow> (bytes \<Rightarrow> bytes option) \<Rightarrow> bytes option \<Rightarrow> bytes \<Rightarrow> (string list \<Rightarrow> string) \<Rightarrow> time
     \<Rightarrow> admin_cmd \<Rightarrow> store \<Rightarrow> (admin_error + string) \<times> store" where
  "administer cfg dest_of control key pick now cmd s =
     (case cmd of
        CreateGroup gid name acl \<Rightarrow>
          (if get_group gid s \<noteq> None
           then (Inl (CommandError (''Group '' @ CHR 0x27 # gid @ CHR 0x27 # '' already exists'')), s)
           else
             let used = map g_name (list_groups s);
                 display = (case name of None \<Rightarrow> choose_alias pick used
                   | Some n \<Rightarrow> if n = [] then choose_alias pick used else n);
                 mode = (case acl of None \<Rightarrow> default_acl_mode cfg
                   | Some a \<Rightarrow> if a = [] then default_acl_mode cfg else a)
             in case create_group gid display key mode None now s of
                  Inl e \<Rightarrow> (Inl (AdminRaised e), s)
                | Inr (g, s1) \<Rightarrow>
                    (case group_destination_hash dest_of (g_key g) of
                       Inl e \<Rightarrow> (Inl (AdminRaised e), s1)
                     | Inr h \<Rightarrow> (Inr (g_id g @ TAB @ g_acl g @ TAB @ hex h), s1)))
      | Groups \<Rightarrow>
          (case sequence_results (map (group_line dest_of s) (list_groups s)) of
             Inl e \<Rightarrow> (Inl e, s)
           | Inr lines \<Rightarrow> (Inr (or_text (join_with NEWLINE lines) ''no groups''), s))
      | DeleteGroup gid \<Rightarrow>
          (if get_group gid s = None then (Inl (no_such_group gid), s)
           else (Inr (gid @ '' deleted''), delete_group gid s))
      | SetAcl gid acl \<Rightarrow>
          (if get_group gid s = None then (Inl (no_such_group gid), s)
           else case set_acl_mode gid acl s of
             Inl e \<Rightarrow> (Inl (AdminRaised e), s)
           | Inr s1 \<Rightarrow> (Inr (gid @ '' is now '' @ acl), s1))
      | AddMember gid value role \<Rightarrow>
          (if get_group gid s = None then (Inl (no_such_group gid), s)
           else case user_hash value of
             Inl e \<Rightarrow> (Inl e, s)
           | Inr u \<Rightarrow> (Inr (hex u @ '' is '' @ role_text role @ '' in '' @ gid),
                      add_member gid u role now s))
      | RemoveMember gid value \<Rightarrow>
          (if get_group gid s = None then (Inl (no_such_group gid), s)
           else case user_hash value of
             Inl e \<Rightarrow> (Inl e, s)
           | Inr u \<Rightarrow>
               if get_role gid u s = None then (Inr (hex u @ '' was not a member of '' @ gid), s)
               else (Inr (hex u @ '' removed from '' @ gid), remove_member gid u s))
      | Members gid \<Rightarrow>
          (if get_group gid s = None then (Inl (no_such_group gid), s)
           else (Inr (or_text (join_with NEWLINE
               (map (\<lambda>(u, r). hex u @ TAB @ role_text r) (list_members gid True s) @
                map (\<lambda>u. hex u @ TAB @ ''adopted'') (list_adopted gid s))) ''no members''), s))
      | Peers \<Rightarrow>
          (case peer_hashes (federation_cfg cfg) of
             Inl e \<Rightarrow> (Inl (AdminRaised e), s)
           | Inr ps \<Rightarrow> (Inr (or_text (join_with NEWLINE (concat (map (peer_lines now s) ps)))
               ''no peers configured''), s))
      | Status \<Rightarrow>
          (case operator_hashes cfg of
             Inl e \<Rightarrow> (Inl (AdminRaised e), s)
           | Inr ops \<Rightarrow>
               (Inr (join_with NEWLINE
                 ([''groups'' @ TAB @ show_nat (length (list_groups s)),
                   ''egress_queue'' @ TAB @ show_nat (egress_depth s),
                   ''notice_queue'' @ TAB @ show_nat (notice_depth s),
                   ''control_queue'' @ TAB @ show_nat (control_depth s)] @
                  (if ops = [] then [] else case control of None \<Rightarrow> []
                   | Some c \<Rightarrow> [''control'' @ TAB @ hex c]))), s)))"

lemma store_ok_administer:
  "store_ok s \<Longrightarrow> store_ok (snd (administer cfg dest_of control key pick now cmd s))"
  by (cases cmd)
    (auto simp: administer_def Let_def split: sum.splits
      dest: store_ok_create_group store_ok_set_acl_mode)

section \<open>Pasted hashes\<close>

lemma remove_char_none: "c \<notin> set s \<Longrightarrow> remove_char c s = s"
  by (simp add: remove_char_def filter_id_conv) metis

lemma hex_chars:
  "c \<in> set (hex bs) \<Longrightarrow> \<exists>n < 16. c = hex_digit n"
proof -
  assume "c \<in> set (hex bs)"
  then obtain b where "b \<in> set bs" "c \<in> set (hex_of_byte b)"
    by (auto simp: hex_def)
  then have "c = hex_digit (unat b div 16) \<or> c = hex_digit (unat b mod 16)"
    by (simp add: hex_of_byte_def)
  moreover have "unat b mod 16 < 16"
    by simp
  ultimately show ?thesis
    using byte_digits(2) [of b] by blast
qed

lemma hex_digit_neq:
  "n < 16 \<Longrightarrow> of_char c \<notin> {48 ..< 58 :: nat} \<union> {97 ..< 103} \<Longrightarrow> hex_digit n \<noteq> c"
  using of_char_digit [of n] by (auto split: if_splits)

lemma hex_clean: "of_char c \<notin> {48 ..< 58 :: nat} \<union> {97 ..< 103} \<Longrightarrow> c \<notin> set (hex bs)"
  using hex_chars hex_digit_neq by metis

text \<open>What the hub prints for a hash is what it accepts back, bare or in angle brackets.\<close>

lemma user_hash_hex:
  assumes "length bs = DESTINATION_HASH_LENGTH"
  shows "user_hash (hex bs) = Inr bs"
    and "user_hash (''<'' @ hex bs @ ''>'') = Inr bs"
proof -
  let ?P = "\<lambda>c. c = CHR ''<'' \<or> c = CHR ''>''"
  have "list_all (\<lambda>c. \<not> ?P c) (hex bs)"
    using hex_clean [of "CHR ''<''" bs] hex_clean [of "CHR ''>''" bs] by (auto simp: list_all_iff)
  then have core: "dropWhile ?P (hex bs) = hex bs" "dropWhile ?P (rev (hex bs)) = rev (hex bs)"
    by (simp_all add: dropWhile_none)
  obtain b rest where b: "bs = b # rest"
    using assms by (cases bs) (auto simp: DESTINATION_HASH_LENGTH_def)
  have ne: "hex bs \<noteq> []"
    using b by (simp add: hex_def hex_of_byte_def)
  have s1: "strip_of ?P (strip (hex bs)) = hex bs"
    by (simp add: strip_no_space hex_no_space) (simp add: strip_of_def core)
  have "list_all (\<lambda>c. \<not> is_space c) (''<'' @ hex bs @ ''>'')"
    using hex_no_space [of bs] by (simp add: is_space_def)
  then have "strip (''<'' @ hex bs @ ''>'') = ''<'' @ hex bs @ ''>''"
    by (rule strip_no_space)
  moreover have hd_core: "\<not> ?P (hd (hex bs))"
    using \<open>list_all (\<lambda>c. \<not> ?P c) (hex bs)\<close> ne by (cases "hex bs") auto
  moreover have "dropWhile ?P (hex bs @ ''>'') = hex bs @ ''>''"
    using ne hd_core by (cases "hex bs") auto
  ultimately have s2: "strip_of ?P (strip (''<'' @ hex bs @ ''>'')) = hex bs"
    by (simp add: strip_of_def core)
  have "take 2 (hex bs) = hex_of_byte b"
    by (simp add: b hex_def hex_of_byte_def)
  moreover have "lower (hex_of_byte b) ! 1 \<noteq> CHR ''x''"
  proof -
    have n: "unat b mod 16 < 16" by simp
    show ?thesis
      using of_char_digit [OF n] by (auto simp: lower_def hex_of_byte_def lower_char_def Let_def split: if_splits)
  qed
  ultimately have x: "lower (take 2 (hex bs)) \<noteq> ''0x''"
    by (auto simp: hex_of_byte_def)
  have clean: "remove_char (CHR '' '') (remove_char (CHR ''-'') (remove_char (CHR '':'') (hex bs))) = hex bs"
    using hex_clean [of "CHR '' ''" bs] hex_clean [of "CHR ''-''" bs] hex_clean [of "CHR '':''" bs]
    by (simp add: remove_char_none)
  show "user_hash (hex bs) = Inr bs" "user_hash (''<'' @ hex bs @ ''>'') = Inr bs"
    unfolding user_hash_def Let_def s1 s2 clean using x assms by simp_all
qed

end
