(* ===== verification/Personas.thy ===== *)
theory Personas
  imports Store_Personas Python_Values
begin

text \<open>
  The persona registry of \<open>lxmf_hub/personas.py\<close>: claiming a username, one-time codes that
  link and unlink devices, and the federation merge. What the operating system draws at random
  (a persona id, a code) is an argument; a raised exception is the left of a sum, beside the
  store as the exception leaves it.
\<close>

section \<open>Constants and errors\<close>

definition NAME_MIN_LENGTH :: nat where "NAME_MIN_LENGTH = 2"
definition NAME_MAX_LENGTH :: nat where "NAME_MAX_LENGTH = 32"
definition CODE_ALPHABET :: string where
  "CODE_ALPHABET = ''ABCDEFGHJKLMNPQRSTUVWXYZ23456789''"
definition CODE_LENGTH :: nat where "CODE_LENGTH = 6"
definition CODE_TTL_SEC :: real where "CODE_TTL_SEC = 900"

datatype registry_error =
    PersonaError string
  | Raised store_error

section \<open>Names\<close>

definition is_alnum :: "char \<Rightarrow> bool" where
  "is_alnum c = (let n = of_char c :: nat in
     (48 \<le> n \<and> n \<le> 57) \<or> (65 \<le> n \<and> n \<le> 90) \<or> (97 \<le> n \<and> n \<le> 122))"

text \<open>\<open>NAME_PATTERN\<close>. The one string \<open>$\<close> would accept beyond this ends with a newline, which
  the stripped name cannot.\<close>

fun name_pattern :: "string \<Rightarrow> bool" where
  "name_pattern [] = False"
| "name_pattern (c # cs) \<longleftrightarrow>
     is_alnum c \<and> list_all (\<lambda>d. is_alnum d \<or> d \<in> {CHR ''.'', CHR ''_'', CHR ''-''}) cs"

definition validate_name :: "string \<Rightarrow> registry_error + string" where
  "validate_name name =
     (let cleaned = strip name
      in if length cleaned < NAME_MIN_LENGTH \<or> NAME_MAX_LENGTH < length cleaned
         then Inl (PersonaError (''A username is '' @ show_nat NAME_MIN_LENGTH @ ''-'' @
           show_nat NAME_MAX_LENGTH @ '' characters; '' @ CHR 0x27 # cleaned @ CHR 0x27 # '' is '' @
           show_nat (length cleaned) @ ''.''))
         else if \<not> name_pattern cleaned
         then Inl (PersonaError (''A username starts with a letter or digit and may then use '' @
           ''letters, digits, dot, dash and underscore.''))
         else Inr cleaned)"

text \<open>The order in which claims win: earlier first, the persona id breaking ties.\<close>

datatype claim = Claim (claim_time: time) (claim_id: bytes)

instantiation claim :: linorder
begin

definition less_claim :: "claim \<Rightarrow> claim \<Rightarrow> bool" where
  "less_claim a b \<longleftrightarrow> (claim_time a, claim_id a) < (claim_time b, claim_id b)"

definition less_eq_claim :: "claim \<Rightarrow> claim \<Rightarrow> bool" where
  "less_eq_claim a b \<longleftrightarrow> (claim_time a, claim_id a) \<le> (claim_time b, claim_id b)"

instance
proof
  fix x y z :: claim
  show "x < y \<longleftrightarrow> x \<le> y \<and> \<not> y \<le> x" "x \<le> x" "x \<le> y \<or> y \<le> x"
    by (auto simp: less_claim_def less_eq_claim_def)
  show "x \<le> y \<Longrightarrow> y \<le> z \<Longrightarrow> x \<le> z"
    unfolding less_eq_claim_def by (rule order_trans)
  show "x \<le> y \<Longrightarrow> y \<le> x \<Longrightarrow> x = y"
    unfolding less_eq_claim_def by (cases x; cases y) auto
qed

end

definition claim_of :: "persona_record \<Rightarrow> claim" where
  "claim_of p = Claim (p_claimed p) (p_id p)"

definition wins :: "persona_record \<Rightarrow> persona_record \<Rightarrow> bool" where
  "wins first second \<longleftrightarrow> claim_of first < claim_of second"

lemma wins_asym: "wins p q \<Longrightarrow> \<not> wins q p"
  by (simp add: wins_def)

lemma wins_total: "p_id p \<noteq> p_id q \<Longrightarrow> wins p q \<or> wins q p"
  unfolding wins_def claim_of_def by (metis claim.inject linorder_neqE)

section \<open>Claiming\<close>

definition persona_for :: "bytes \<Rightarrow> store \<Rightarrow> persona_record option" where
  "persona_for user s = persona_for_identity user s"

definition quoted :: "string \<Rightarrow> string" where
  "quoted s = CHR 0x27 # s @ [CHR 0x27]"

definition claim ::
    "bytes \<Rightarrow> time \<Rightarrow> bytes \<Rightarrow> string \<Rightarrow> store \<Rightarrow> (registry_error + persona_record) \<times> store" where
  "claim new_id now user name s =
     (case validate_name name of
        Inl e \<Rightarrow> (Inl e, s)
      | Inr wanted \<Rightarrow>
          let mine = persona_for user s; holder = persona_by_name wanted s
          in if (case holder of None \<Rightarrow> False
                 | Some h \<Rightarrow> (case mine of None \<Rightarrow> True | Some m \<Rightarrow> p_id h \<noteq> p_id m))
             then (Inl (PersonaError (quoted wanted @ '' is already taken. Pick another username.'')), s)
             else case mine of
               None \<Rightarrow>
                 (case create_persona new_id (Some wanted) user None now s of
                    Inl IntegrityError \<Rightarrow>
                      (Inl (PersonaError (quoted wanted @ '' was just taken. Pick another username.'')), s)
                  | Inl e \<Rightarrow> (Inl (Raised e), s)
                  | Inr (p, s') \<Rightarrow> (Inr p, s'))
             | Some m \<Rightarrow>
                 if name_folded m = fold_name (Some wanted) \<and> p_name m = Some wanted then (Inr m, s)
                 else case set_persona_name (p_id m) (Some wanted) None None now s of
                   Inl IntegrityError \<Rightarrow>
                     (Inl (PersonaError (quoted wanted @ '' was just taken. Pick another username.'')), s)
                 | Inl e \<Rightarrow> (Inl (Raised e), s)
                 | Inr s' \<Rightarrow>
                     (case get_persona (p_id m) s' of
                        None \<Rightarrow> (Inl (PersonaError ''That persona no longer exists.''), s')
                      | Some p \<Rightarrow> (Inr p, s')))"

section \<open>Devices\<close>

definition mint_code ::
    "bytes \<Rightarrow> string \<Rightarrow> time \<Rightarrow> bytes \<Rightarrow> store \<Rightarrow> (registry_error + string \<times> time) \<times> store" where
  "mint_code new_id code now user s =
     (let persona = (case persona_for user s of
            None \<Rightarrow> create_persona new_id None user None now s
          | Some p \<Rightarrow> Inr (p, s))
      in case persona of
           Inl e \<Rightarrow> (Inl (Raised e), s)
         | Inr (p, s1) \<Rightarrow>
             (Inr (code, now + CODE_TTL_SEC),
              create_link_code code (p_id p) (now + CODE_TTL_SEC) now s1))"

definition add_roles :: "bytes \<Rightarrow> time \<Rightarrow> (string \<times> role) list \<Rightarrow> store \<Rightarrow> store" where
  "add_roles user now roles s = fold (\<lambda>(gid, role) s. add_member gid user role now s) roles s"

definition join :: "time \<Rightarrow> bytes \<Rightarrow> string \<Rightarrow> store \<Rightarrow> (registry_error + persona_record) \<times> store" where
  "join now user code s =
     (let (found, s1) = claim_link_code (upper (strip code)) now s
      in case found of
           None \<Rightarrow> (Inl (PersonaError ''That code is not valid. Codes are single-use and expire.''), s1)
         | Some pid \<Rightarrow>
             (case get_persona pid s1 of
                None \<Rightarrow> (Inl (PersonaError ''The persona that code belonged to is gone.''), s1)
              | Some p \<Rightarrow>
                  let existing = map i_user (persona_devices pid False s1);
                      roles = memberships_for existing s1
                  in (Inr p, add_roles user now roles (link_identity pid user None now s1))))"

definition mint_unlink_code ::
    "string \<Rightarrow> time \<Rightarrow> bytes \<Rightarrow> store \<Rightarrow> (registry_error + string \<times> time) \<times> store" where
  "mint_unlink_code code now user s =
     (case persona_for user s of
        None \<Rightarrow> (Inl (PersonaError ''You have no persona to unlink anything from.''), s)
      | Some p \<Rightarrow>
          if length (persona_devices (p_id p) False s) = 1
          then (Inl (PersonaError ''You only have one device on this persona.''), s)
          else (Inr (code, now + CODE_TTL_SEC),
                create_unlink_code code (p_id p) (now + CODE_TTL_SEC) now s))"

definition unlink :: "time \<Rightarrow> bytes \<Rightarrow> bytes \<Rightarrow> store \<Rightarrow> (registry_error + persona_record) \<times> store" where
  "unlink now user target s =
     (case persona_for user s of
        None \<Rightarrow> (Inl (PersonaError ''You have no persona to unlink anything from.''), s)
      | Some mine \<Rightarrow>
          if (case get_persona_identity target s of None \<Rightarrow> True
              | Some t \<Rightarrow> \<not> identity_active t \<or> i_persona t \<noteq> p_id mine)
          then (Inl (PersonaError (hex target @ '' is not one of your devices.'')), s)
          else if length (persona_devices (p_id mine) False s) = 1
          then (Inl (PersonaError
            ''That is your only device. Claim the name from another device first.''), s)
          else (Inr mine, snd (unlink_identity target None now s)))"

definition unlink_with_code ::
    "time \<Rightarrow> bytes \<Rightarrow> string \<Rightarrow> store \<Rightarrow> (registry_error + persona_record) \<times> store" where
  "unlink_with_code now user code s =
     (let (found, s1) = claim_unlink_code (upper (strip code)) now s
      in case found of
           None \<Rightarrow> (Inl (PersonaError ''That code is not valid. Codes are single-use and expire.''), s1)
         | Some pid \<Rightarrow>
             if (case persona_for user s1 of None \<Rightarrow> True | Some m \<Rightarrow> p_id m \<noteq> pid)
             then (Inl (PersonaError ''That code is not for this device.''), s1)
             else unlink now user user s1)"

definition registry_devices :: "bytes \<Rightarrow> store \<Rightarrow> persona_identity list" where
  "registry_devices pid s = persona_devices pid False s"

section \<open>Federation\<close>

definition snapshot :: "store \<Rightarrow> persona_record list \<times> persona_identity list" where
  "snapshot s = (list_personas s, list_persona_identities s)"

definition newer :: "persona_record \<Rightarrow> persona_record \<Rightarrow> bool" where
  "newer remote here \<longleftrightarrow>
     (p_revision remote, p_updated remote) > (p_revision here, p_updated here)"

type_synonym losers = "(persona_record \<times> string) list"

definition adopt_persona ::
    "time \<Rightarrow> persona_record \<Rightarrow> store \<Rightarrow> (store_error + losers) \<times> store" where
  "adopt_persona now remote s =
     (let holder = (case p_name remote of
            None \<Rightarrow> None
          | Some n \<Rightarrow> if n = [] then None else persona_by_name n s);
          write = (\<lambda>p losers s. case upsert_persona p s of
            Inl e \<Rightarrow> (Inl e, s) | Inr s' \<Rightarrow> (Inr losers, s'))
      in case holder of
           None \<Rightarrow> write remote [] s
         | Some h \<Rightarrow>
             if p_id h = p_id remote then write remote [] s
             else if wins h remote then write (remote\<lparr>p_name := None\<rparr>) [] s
             else
               case set_persona_name (p_id h) None None None now s of
                 Inl e \<Rightarrow> (Inl e, s)
               | Inr s1 \<Rightarrow>
                   let cleared = (case get_persona (p_id h) s1 of None \<Rightarrow> h | Some c \<Rightarrow> c);
                       lost = (case p_name h of None \<Rightarrow> [] | Some n \<Rightarrow> n)
                   in write remote [(cleared, lost)] s1)"

definition adopt_identity :: "persona_identity \<Rightarrow> store \<Rightarrow> store" where
  "adopt_identity remote s =
     (if get_persona (i_persona remote) s = None then s
      else case get_persona_identity (i_user remote) s of
        Some here \<Rightarrow> if identity_version remote \<le> identity_version here then s
                     else upsert_persona_identity remote s
      | None \<Rightarrow> upsert_persona_identity remote s)"

fun merge_personas ::
    "time \<Rightarrow> persona_record list \<Rightarrow> store \<Rightarrow> (store_error + losers) \<times> store" where
  "merge_personas now [] s = (Inr [], s)"
| "merge_personas now (remote # rest) s =
     (if (case get_persona (p_id remote) s of None \<Rightarrow> False | Some here \<Rightarrow> \<not> newer remote here)
      then merge_personas now rest s
      else case adopt_persona now remote s of
        (Inl e, s1) \<Rightarrow> (Inl e, s1)
      | (Inr ls, s1) \<Rightarrow>
          (case merge_personas now rest s1 of
             (Inl e, s2) \<Rightarrow> (Inl e, s2)
           | (Inr ls', s2) \<Rightarrow> (Inr (ls @ ls'), s2)))"

definition merge_identities :: "persona_identity list \<Rightarrow> store \<Rightarrow> store" where
  "merge_identities rows s = fold adopt_identity rows s"

definition registry_merge ::
    "time \<Rightarrow> persona_record list \<Rightarrow> persona_identity list \<Rightarrow> store
     \<Rightarrow> (store_error + losers) \<times> store" where
  "registry_merge now personas identities s =
     (case merge_personas now personas s of
        (Inl e, s1) \<Rightarrow> (Inl e, s1)
      | (Inr losers, s1) \<Rightarrow> (Inr losers, merge_identities identities s1))"

section \<open>Well-formedness\<close>

lemma store_ok_claim: "store_ok s \<Longrightarrow> store_ok (snd (claim new_id now user name s))"
  by (auto simp: claim_def Let_def split: sum.splits option.splits store_error.splits
      dest: store_ok_create_persona store_ok_set_persona_name)

lemma store_ok_mint_code: "store_ok s \<Longrightarrow> store_ok (snd (mint_code new_id code now user s))"
  by (auto simp: mint_code_def Let_def split: sum.splits option.splits
      dest: store_ok_create_persona)

lemma store_ok_add_roles: "store_ok s \<Longrightarrow> store_ok (add_roles user now roles s)"
  unfolding add_roles_def by (induction roles arbitrary: s) auto

lemma store_ok_join: "store_ok s \<Longrightarrow> store_ok (snd (join now user code s))"
  by (auto simp: join_def case_prod_beta Let_def store_ok_add_roles split: option.splits)

lemma store_ok_mint_unlink_code: "store_ok s \<Longrightarrow> store_ok (snd (mint_unlink_code code now user s))"
  by (auto simp: mint_unlink_code_def split: option.splits)

lemma store_ok_unlink: "store_ok s \<Longrightarrow> store_ok (snd (unlink now user target s))"
  by (auto simp: unlink_def split: option.splits)

lemma store_ok_unlink_with_code: "store_ok s \<Longrightarrow> store_ok (snd (unlink_with_code now user code s))"
  by (auto simp: unlink_with_code_def case_prod_beta Let_def store_ok_unlink split: option.splits)

lemma store_ok_adopt_persona: "store_ok s \<Longrightarrow> store_ok (snd (adopt_persona now remote s))"
  by (auto simp: adopt_persona_def Let_def split: option.splits sum.splits
      dest: store_ok_upsert_persona store_ok_set_persona_name)

lemma store_ok_adopt_identity: "store_ok s \<Longrightarrow> store_ok (adopt_identity r s)"
  by (auto simp: adopt_identity_def split: option.splits)

lemma store_ok_merge_personas: "store_ok s \<Longrightarrow> store_ok (snd (merge_personas now rs s))"
proof (induction rs arbitrary: s)
  case (Cons r rs)
  have "store_ok (snd (adopt_persona now r s))"
    using Cons.prems by (rule store_ok_adopt_persona)
  with Cons show ?case
    by (cases "adopt_persona now r s") (auto split: sum.splits option.splits prod.splits, force+)
qed simp

lemma store_ok_merge_identities: "store_ok s \<Longrightarrow> store_ok (merge_identities rows s)"
  unfolding merge_identities_def by (induction rows arbitrary: s) (auto simp: store_ok_adopt_identity)

lemma store_ok_registry_merge: "store_ok s \<Longrightarrow> store_ok (snd (registry_merge now ps is s))"
  using store_ok_merge_personas [of s now ps]
  by (auto simp: registry_merge_def store_ok_merge_identities split: prod.splits sum.splits)

end
