(* ===== verification/Persona_Facts.thy ===== *)
theory Persona_Facts
  imports Personas
begin

text \<open>
  What the persona registry guarantees: a username names one persona, a claim that fails leaves
  no trace, a code is spent once, a persona keeps a device, a joining device gets the best role
  of its new siblings, and the federation merge keeps the newest row and settles a name clash
  the same way on both sides.
\<close>

section \<open>Frames\<close>

lemma link_identity_frame [simp]:
  "s_links (link_identity pid u a now s) = s_links s"
  "s_unlinks (link_identity pid u a now s) = s_unlinks s"
  "s_personas (link_identity pid u a now s) = s_personas s"
  "s_members (link_identity pid u a now s) = s_members s"
  by (simp_all add: link_identity_def put_identity_def)

lemma add_roles_frame [simp]:
  "s_links (add_roles u now roles s) = s_links s"
  "s_unlinks (add_roles u now roles s) = s_unlinks s"
  "s_personas (add_roles u now roles s) = s_personas s"
  "s_identities (add_roles u now roles s) = s_identities s"
  unfolding add_roles_def by (induction roles arbitrary: s; force)+

lemma get_persona_cong: "s_personas s = s_personas s' \<Longrightarrow> get_persona pid s = get_persona pid s'"
  by (simp add: get_persona_def)

lemma get_persona_add_roles [simp]: "get_persona pid (add_roles u now roles s) = get_persona pid s"
  by (rule get_persona_cong) simp

lemma persona_for_identity_add_roles [simp]:
  "persona_for_identity v (add_roles u now roles s) = persona_for_identity v s"
  by (auto simp: persona_for_identity_def get_persona_identity_def split: option.splits)

lemma get_persona_link [simp]: "get_persona pid (link_identity q u a now s) = get_persona pid s"
  by (rule get_persona_cong) simp

lemma get_persona_claim_code [simp]: "get_persona pid (snd (claim_link_code c t s)) = get_persona pid s"
  by (rule get_persona_cong) simp

lemma persona_for_link [simp]:
  "persona_for_identity v (link_identity pid u a now s) =
     (if v = u then get_persona pid s else persona_for_identity v s)"
  by (auto simp: persona_for_identity_def link_identity_def identity_active_def split: option.splits)

lemma persona_for_identity_get:
  "persona_for_identity u s = Some p \<Longrightarrow> get_persona (p_id p) s = Some p"
  by (auto simp: persona_for_identity_def split: option.splits if_splits)
     (metis get_persona_id)

section \<open>Claiming a name\<close>

lemma validate_name_strip: "validate_name name = Inr wanted \<Longrightarrow> wanted = strip name"
  by (auto simp: validate_name_def Let_def split: if_splits)

lemma create_persona_lookup:
  assumes "create_persona pid name u c now s = Inr (p, s')"
  shows "get_persona pid s' = Some p" "p_id p = pid" "p_name p = name"
    "persona_for_identity u s' = Some p"
proof -
  have s': "s' = link_identity pid u None now (s\<lparr>s_personas := s_personas s @ [p]\<rparr>)"
    and p: "p_id p = pid" "p_name p = name" and free: "\<not> has_key p_id pid (s_personas s)"
    using assms by (auto simp: create_persona_def Let_def split: if_splits)
  show g: "get_persona pid s' = Some p"
    using free p by (simp add: s' get_persona_def sql_lookup_append sql_lookup_None [symmetric] sql_simps)
  show "p_id p = pid" "p_name p = name"
    by (fact p)+
  show "persona_for_identity u s' = Some p"
    using g by (simp add: s')
qed

lemma set_persona_name_identities:
  "set_persona_name pid name rv upd now s = Inr s' \<Longrightarrow> s_identities s' = s_identities s"
  by (auto simp: set_persona_name_def Let_def split: if_splits)

lemma claim_lookup:
  assumes "claim new_id now u name s = (Inr p, s')"
  shows "persona_for_identity u s' = Some p \<and> p_name p = Some (strip name)"
proof -
  obtain wanted where w: "validate_name name = Inr wanted"
    using assms by (auto simp: claim_def split: sum.splits)
  note ws = validate_name_strip [OF w]
  show ?thesis
  proof (cases "persona_for u s")
    case None
    then have "create_persona new_id (Some wanted) u None now s = Inr (p, s')"
      using assms w by (auto simp: claim_def Let_def split: if_splits sum.splits option.splits store_error.splits)
    from create_persona_lookup(3,4) [OF this] show ?thesis
      using ws by simp
  next
    case (Some m)
    then consider "p = m" "s' = s" "p_name m = Some wanted"
      | "set_persona_name (p_id m) (Some wanted) None None now s = Inr s'" "get_persona (p_id m) s' = Some p"
      using assms w by (auto simp: claim_def Let_def split: if_splits sum.splits option.splits store_error.splits)
    then show ?thesis
    proof cases
      case 1
      then show ?thesis using Some ws by (simp add: persona_for_def)
    next
      case 2
      obtain r where r: "get_persona_identity u s = Some r" "identity_active r" "get_persona (i_persona r) s = Some m"
        using Some by (auto simp: persona_for_def persona_for_identity_def split: option.splits if_splits)
      then have "i_persona r = p_id m"
        by (simp add: get_persona_id)
      moreover have "get_persona_identity u s' = Some r"
        using r(1) set_persona_name_identities [OF 2(1)] by (simp add: get_persona_identity_def)
      ultimately have "persona_for_identity u s' = Some p"
        using r(2) 2(2) by (simp add: persona_for_identity_def)
      then show ?thesis
        using get_persona_set_name [OF 2(1), of "p_id m"] 2(2) ws by (cases "get_persona (p_id m) s") simp_all
    qed
  qed
qed

lemma claim_unique:
  assumes "claim new_id now u name s = (Inr p, s')" and "store_ok s"
    and "display_name_for v s' = Some n" and "map casefold_char n = map casefold_char (strip name)"
  shows "persona_for_identity v s' = Some p"
proof -
  have ok: "personas_ok s'"
    using store_ok_claim [OF assms(2), of new_id now u name] assms(1) by (simp add: store_ok_def)
  obtain q where q: "persona_for_identity v s' = Some q" "p_name q = Some n"
    using assms(3) by (auto simp: display_name_for_def split: option.splits)
  have p: "persona_for_identity u s' = Some p" "p_name p = Some (strip name)"
    using claim_lookup [OF assms(1)] by simp_all
  have "p_id q = p_id p"
    using same_name_same_persona [OF ok persona_for_identity_get [OF q(1)] persona_for_identity_get [OF p(1)]]
      q(2) p(2) assms(4) by (simp add: name_folded_def fold_name_def)
  then have "p = q"
    using persona_for_identity_get [OF q(1)] persona_for_identity_get [OF p(1)] by (metis option.inject)
  with q(1) show ?thesis
    by simp
qed

lemma rename_found:
  assumes "persona_for u s = Some m" and "set_persona_name (p_id m) n None None now s = Inr s1"
  shows "\<exists>p. get_persona (p_id m) s1 = Some p"
proof -
  have "get_persona (p_id m) s = Some m"
    using assms(1) unfolding persona_for_def by (rule persona_for_identity_get)
  with get_persona_set_name [OF assms(2), of "p_id m"] show ?thesis
    by simp
qed

lemma claim_failed:
  assumes "claim new_id now u name s = (Inl e, s')"
  shows "s' = s"
proof (cases "persona_for u s")
  case None
  then show ?thesis
    using assms
    by (auto simp: claim_def Let_def split: if_splits sum.splits option.splits store_error.splits)
next
  case (Some m)
  then show ?thesis
    using assms
    by (auto simp: claim_def Let_def split: if_splits sum.splits option.splits store_error.splits
        dest: rename_found [OF Some])
qed

section \<open>Linking\<close>

lemma get_role_add_roles:
  "distinct (map fst roles) \<Longrightarrow> get_role g v (add_roles u now roles s) =
     (if v = u then (case map_of roles g of Some r \<Rightarrow> Some r | None \<Rightarrow> get_role g u s)
      else get_role g v s)"
  unfolding add_roles_def
proof (induction roles arbitrary: s)
  case (Cons p roles)
  obtain g' r where p: "p = (g', r)"
    by (cases p)
  have "g = g' \<Longrightarrow> map_of roles g = None"
    using Cons.prems p by (auto simp: map_of_eq_None_iff)
  with Cons p show ?case
    by (auto split: option.splits)
qed simp

lemma distinct_best_roles:
  "distinct (map fst roles) \<Longrightarrow> distinct (map fst (best_roles rows roles))"
  by (induction rows roles rule: best_roles.induct) (auto simp: distinct_update)

lemma memberships_distinct: "distinct (map fst (memberships_for users s))"
  by (simp add: memberships_for_def distinct_best_roles)

text \<open>What a joining device may do afterwards: the best role of the persona's devices, in every
  group where one of them has a role; its own previous role, a ban included, is overwritten
  there and kept everywhere else.\<close>

lemma join_roles:
  assumes "join now u code s = (Inr p, s')"
  shows "get_role g u s' =
    (case map_of (memberships_for (map i_user (persona_devices (p_id p) False s)) s) g of
       Some r \<Rightarrow> Some r | None \<Rightarrow> get_role g u s)"
    and "v \<noteq> u \<Longrightarrow> get_role g v s' = get_role g v s"
    and "persona_for_identity u s' = Some p"
proof -
  obtain pid s1 where c: "claim_link_code (upper (strip code)) now s = (Some pid, s1)"
    and p: "get_persona pid s1 = Some p"
    and s': "s' = add_roles u now (memberships_for (map i_user (persona_devices pid False s1)) s1)
      (link_identity pid u None now s1)"
    using assms by (auto simp: join_def Let_def split: prod.splits option.splits)
  have s1: "s1 = snd (claim_link_code (upper (strip code)) now s)"
    using c by simp
  have pid: "p_id p = pid"
    using p by (rule get_persona_id)
  have roles: "memberships_for (map i_user (persona_devices pid False s1)) s1 =
      memberships_for (map i_user (persona_devices (p_id p) False s)) s"
    by (simp add: s1 pid persona_devices_def memberships_for_def)
  have role: "get_role g w (link_identity pid u None now s1) = get_role g w s" for w
    by (simp add: s1 get_role_def)
  show "get_role g u s' =
    (case map_of (memberships_for (map i_user (persona_devices (p_id p) False s)) s) g of
       Some r \<Rightarrow> Some r | None \<Rightarrow> get_role g u s)"
    unfolding s' roles by (simp add: get_role_add_roles memberships_distinct role split: option.split)
  show "v \<noteq> u \<Longrightarrow> get_role g v s' = get_role g v s"
    unfolding s' roles by (simp add: get_role_add_roles memberships_distinct role)
  show "persona_for_identity u s' = Some p"
    using p unfolding s' by simp
qed

section \<open>Unlinking\<close>

lemma other_element:
  assumes "distinct xs" and "x \<in> set xs" and "length xs \<noteq> 1"
  shows "\<exists>y \<in> set xs. y \<noteq> x"
proof (rule ccontr)
  assume "\<not> ?thesis"
  with assms(2) have "set xs = {x}"
    by blast
  then have "card (set xs) = 1"
    by simp
  with distinct_card [OF assms(1)] assms(3) show False
    by linarith
qed

lemma unlink_leaves_device:
  assumes "unlink now u t s = (Inr p, s')" and "store_ok s"
  shows "persona_devices (p_id p) False s' \<noteq> []"
    and "persona_for_identity t s' = None"
    and "v \<noteq> t \<Longrightarrow> get_persona_identity v s' = get_persona_identity v s"
proof -
  let ?ds = "persona_devices (p_id p) False s"
  obtain r where r: "get_persona_identity t s = Some r" "identity_active r" "i_persona r = p_id p"
    and len: "length ?ds \<noteq> 1" and s': "s' = snd (unlink_identity t None now s)"
    using assms(1) by (auto simp: unlink_def split: option.splits if_splits)
  have ok: "personas_ok s" "personas_ok s'"
    using assms(2) store_ok_unlink_identity [of s t None now] by (simp_all add: s' store_ok_def)
  have "r \<in> set ?ds" and user: "i_user r = t"
    using r ok by (auto simp: persona_devices_iff get_persona_identity_iff)
  moreover note len
  moreover have "distinct ?ds"
    using ok(1) by (auto simp: personas_ok_def keys_distinct_def persona_devices_def distinct_map)
  ultimately obtain q where q: "q \<in> set ?ds" "q \<noteq> r"
    using other_element by metis
  have "i_user q \<noteq> t"
    using q r ok(1) by (auto simp: persona_devices_iff get_persona_identity_iff personas_ok_def
        keys_distinct_def distinct_map inj_on_def)
  then have "get_persona_identity (i_user q) s' = Some q"
    using q(1) ok(1) by (simp add: s' get_persona_identity_unlink get_persona_identity_iff persona_devices_iff)
  then have "q \<in> set (persona_devices (p_id p) False s')"
    using q(1) ok by (auto simp: persona_devices_iff get_persona_identity_iff)
  then show "persona_devices (p_id p) False s' \<noteq> []"
    by auto
  show "persona_for_identity t s' = None"
    using r(1,2) by (simp add: s' persona_for_identity_def get_persona_identity_unlink identity_active_def)
  show "v \<noteq> t \<Longrightarrow> get_persona_identity v s' = get_persona_identity v s"
    by (cases "get_persona_identity v s") (simp_all add: s' get_persona_identity_unlink)
qed

text \<open>The devices of a persona by their addresses.\<close>

lemma device_iff:
  "personas_ok s \<Longrightarrow> u \<in> i_user ` set (persona_devices pid False s) \<longleftrightarrow>
     (\<exists>r. get_persona_identity u s = Some r \<and> identity_active r \<and> i_persona r = pid)"
  by (auto simp: get_persona_identity_iff persona_devices_iff)

lemma devices_length:
  assumes "personas_ok s"
  shows "length (persona_devices pid False s) = card (i_user ` set (persona_devices pid False s))"
proof -
  have "distinct (map i_user (filter P (s_identities s)))" for P
    using assms by (simp add: personas_ok_def keys_distinct_def distinct_map_filter)
  then have "distinct (map i_user (persona_devices pid False s))"
    by (simp add: persona_devices_def distinct_map)
  from distinct_card [OF this] show ?thesis
    by simp
qed

lemma devices_unlink:
  assumes "store_ok s"
  shows "i_user ` set (persona_devices pid False (snd (unlink_identity t None now s))) =
    i_user ` set (persona_devices pid False s) - {t}"
proof -
  have ok: "personas_ok s" "personas_ok (snd (unlink_identity t None now s))"
    using assms store_ok_unlink_identity [of s t None now] by (simp_all add: store_ok_def)
  show ?thesis
    by (auto simp: set_eq_iff device_iff [OF ok(1)] device_iff [OF ok(2)] get_persona_identity_unlink identity_active_def
        simp del: image_iff split: if_splits dest: arg_cong [of _ _ i_removed])
qed

section \<open>Device rows are last-writer-wins registers\<close>

text \<open>
  The contract of a replicated register: absorbing a row replaces the row of the same key
  exactly when its version is larger. Whatever the order in which rows arrive, and however
  often, the newest one wins.
\<close>

locale lww_register =
  fixes key :: "'r \<Rightarrow> 'k"
    and version :: "'r \<Rightarrow> 'v :: linorder"
    and get :: "'k \<Rightarrow> 's \<Rightarrow> 'r option"
    and absorb :: "'r \<Rightarrow> 's \<Rightarrow> 's"
    and known :: "'r \<Rightarrow> 's \<Rightarrow> bool"
  assumes get_absorb: "get k (absorb r s) =
      (if k = key r \<and> known r s \<and> (case get k s of None \<Rightarrow> True | Some x \<Rightarrow> version x < version r)
       then Some r else get k s)"
    and known_absorb: "known q (absorb r s) = known q s"
begin

definition absorb_all :: "'r list \<Rightarrow> 's \<Rightarrow> 's" where
  "absorb_all rs s = fold absorb rs s"

lemma known_absorb_all: "known q (absorb_all rs s) = known q s"
  unfolding absorb_all_def by (induction rs arbitrary: s) (simp_all add: known_absorb)

lemma never_older: "get k s = Some x \<Longrightarrow> \<exists>y. get k (absorb_all rs s) = Some y \<and> version x \<le> version y"
  unfolding absorb_all_def
proof (induction rs arbitrary: s x)
  case (Cons r rs)
  have "\<exists>y. get k (absorb r s) = Some y \<and> version x \<le> version y"
    using Cons.prems by (auto simp: get_absorb)
  then obtain y where "get k (absorb r s) = Some y" "version x \<le> version y"
    by blast
  with Cons.IH [of "absorb r s" y] show ?case by force
qed simp

lemma newest_wins:
  "r \<in> set rs \<Longrightarrow> known r s \<Longrightarrow>
   \<exists>y. get (key r) (absorb_all rs s) = Some y \<and> version r \<le> version y"
proof (induction rs arbitrary: s)
  case (Cons q rs)
  show ?case
  proof (cases "r = q")
    case True
    have "\<exists>y. get (key r) (absorb r s) = Some y \<and> version r \<le> version y"
      using Cons.prems(2) by (simp add: get_absorb not_less split: option.split)
    then obtain y where "get (key r) (absorb r s) = Some y" "version r \<le> version y"
      by blast
    then show ?thesis
      using never_older [of "key r" "absorb r s" y rs] True by (force simp: absorb_all_def)
  next
    case False
    then show ?thesis
      using Cons by (simp add: absorb_all_def known_absorb)
  qed
qed simp

lemma origin_of: "get k (absorb_all rs s) = Some y \<Longrightarrow> get k s = Some y \<or> (y \<in> set rs \<and> key y = k)"
  unfolding absorb_all_def
proof (induction rs arbitrary: s)
  case (Cons r rs)
  then show ?case
    using Cons.IH [of "absorb r s"] by (auto simp: get_absorb split: if_splits)
qed simp

text \<open>Rows already absorbed change nothing.\<close>

lemma stale_rows:
  "\<forall>r \<in> set rs. known r s \<longrightarrow> (\<exists>y. get (key r) s = Some y \<and> version r \<le> version y) \<Longrightarrow>
   get k (absorb_all rs s) = get k s"
proof (induction rs arbitrary: s)
  case (Cons r rs)
  have same: "get j (absorb r s) = get j s" for j
    using Cons.prems by (auto simp: get_absorb)
  have "get k (absorb_all rs (absorb r s)) = get k (absorb r s)"
    using Cons.prems by (intro Cons.IH) (simp add: same known_absorb)
  then show ?case
    by (simp add: absorb_all_def same)
qed (simp add: absorb_all_def)

lemma absorb_all_idem: "get k (absorb_all rs (absorb_all rs s)) = get k (absorb_all rs s)"
  by (rule stale_rows) (auto simp: known_absorb_all newest_wins)

text \<open>Two replicas that start from different rows but have seen the same ones between what they held and what they
  absorbed end with a row of the same version, and with the same row unless two rows tie; on a tie, each keeps
  the row it held.\<close>

definition seen :: "'k \<Rightarrow> 'r list \<Rightarrow> 's \<Rightarrow> 'r set" where
  "seen k rs s = {r \<in> set rs. key r = k \<and> known r s} \<union> set_option (get k s)"

lemma result_seen: "get k (absorb_all rs s) = Some y \<Longrightarrow> y \<in> seen k rs s"
proof (induction rs arbitrary: s)
  case (Cons r rs)
  then show ?case
    using Cons.IH [of "absorb r s"]
    by (auto simp: absorb_all_def seen_def get_absorb known_absorb split: if_splits)
qed (simp add: absorb_all_def seen_def)

lemma result_newest:
  assumes "r \<in> seen k rs s"
  shows "\<exists>y. get k (absorb_all rs s) = Some y \<and> version r \<le> version y"
  using assms newest_wins [of r rs s] never_older [of k s r rs] by (auto simp: seen_def)

lemma replicas_agree:
  assumes "seen k rs s = seen k qs t"
  shows "map_option version (get k (absorb_all rs s)) = map_option version (get k (absorb_all qs t))"
    and "inj_on version (seen k rs s) \<Longrightarrow> get k (absorb_all rs s) = get k (absorb_all qs t)"
proof -
  have "map_option version (get k (absorb_all rs s)) = map_option version (get k (absorb_all qs t)) \<and>
      (inj_on version (seen k rs s) \<longrightarrow> get k (absorb_all rs s) = get k (absorb_all qs t))"
  proof (cases "get k (absorb_all rs s)")
    case None
    then have "seen k rs s = {}"
      using result_newest [of _ k rs s] by auto
    then have "get k (absorb_all qs t) = None"
      using result_seen [of k qs t] assms by (cases "get k (absorb_all qs t)") simp_all
    with None show ?thesis
      by simp
  next
    case (Some x)
    have x: "x \<in> seen k qs t"
      using result_seen [OF Some] assms by simp
    obtain y where y: "get k (absorb_all qs t) = Some y" "version x \<le> version y"
      using result_newest [OF x] by blast
    have "y \<in> seen k rs s"
      using result_seen [OF y(1)] assms by simp
    from result_newest [OF this] have "version y \<le> version x"
      using Some by simp
    with y(2) have "version x = version y"
      by simp
    then show ?thesis
      using Some y(1) \<open>y \<in> seen k rs s\<close> result_seen [OF Some] by (auto dest: inj_onD)
  qed
  then show "map_option version (get k (absorb_all rs s)) = map_option version (get k (absorb_all qs t))"
    and "inj_on version (seen k rs s) \<Longrightarrow> get k (absorb_all rs s) = get k (absorb_all qs t)"
    by simp_all
qed

lemma tie_keeps_own:
  "get k s = Some x \<Longrightarrow> \<forall>r \<in> set rs. key r = k \<longrightarrow> version r \<le> version x \<Longrightarrow> get k (absorb_all rs s) = Some x"
  unfolding absorb_all_def
proof (induction rs arbitrary: s)
  case (Cons r rs)
  then have "get k (absorb r s) = Some x"
    by (auto simp: get_absorb)
  with Cons show ?case
    by simp
qed simp

end

lemma adopt_identity_personas [simp]: "s_personas (adopt_identity r s) = s_personas s"
  by (simp add: adopt_identity_def upsert_persona_identity_def put_identity_def split: option.splits)

interpretation devices: lww_register i_user identity_version get_persona_identity adopt_identity
  "\<lambda>r s. get_persona (i_persona r) s \<noteq> None"
proof
  fix k r s
  show "get_persona_identity k (adopt_identity r s) =
      (if k = i_user r \<and> get_persona (i_persona r) s \<noteq> None \<and>
          (case get_persona_identity k s of None \<Rightarrow> True
           | Some x \<Rightarrow> identity_version x < identity_version r)
       then Some r else get_persona_identity k s)"
    by (auto simp: adopt_identity_def upsert_persona_identity_def split: option.splits)
next
  fix q r s
  show "(get_persona (i_persona q) (adopt_identity r s) \<noteq> None) = (get_persona (i_persona q) s \<noteq> None)"
    using get_persona_cong [of "adopt_identity r s" s] by simp
qed

lemma merge_identities_absorb: "merge_identities rows s = devices.absorb_all rows s"
  by (simp add: merge_identities_def devices.absorb_all_def)

section \<open>A name claimed on two hubs\<close>

lemma persona_by_name_iff:
  "personas_ok s \<Longrightarrow> persona_by_name n s = Some p \<longleftrightarrow>
     p \<in> set (s_personas s) \<and> name_folded p = fold_name (Some n)"
proof
  assume ok: "personas_ok s" and p: "p \<in> set (s_personas s) \<and> name_folded p = fold_name (Some n)"
  then obtain q where q: "persona_by_name n s = Some q"
    using persona_by_name_None [of n s] by auto
  have qs: "q \<in> set (s_personas s)" "name_folded q = fold_name (Some n)"
    using persona_by_name_SomeD [OF q] by simp_all
  have "p_name p \<noteq> None"
    using p by (cases "p_name p") (simp_all add: name_folded_def fold_name_def)
  then have "p_id p = p_id q"
    using same_name_same_persona [OF ok, of "p_id p" p "p_id q" q] get_persona_iff [OF ok] p qs by simp
  then have "p = q"
    using get_persona_iff [OF ok] p qs by (metis option.inject)
  with q show "persona_by_name n s = Some p"
    by simp
qed (use persona_by_name_SomeD in blast)

text \<open>A new remote persona whose name is held here by somebody else: the earlier claim keeps
  the name, and the loser's row is stored, or cleared, without it.\<close>

lemma adopt_persona_clash:
  assumes ok: "store_ok s" and new: "get_persona (p_id r) s = None"
    and name: "p_name r = Some n" "n \<noteq> []" and holder: "persona_by_name n s = Some h"
  obtains s' ls where "adopt_persona now r s = (Inr ls, s')"
    "persona_by_name n s' = Some (if wins h r then h else r)"
    "get_persona (p_id r) s' = Some (if wins h r then r\<lparr>p_name := None\<rparr> else r)"
    "get_persona (p_id h) s' = Some (if wins h r then h
       else h\<lparr>p_name := None, p_revision := p_revision h + 1, p_updated := now\<rparr>)"
    "ls = (if wins h r then []
       else [(h\<lparr>p_name := None, p_revision := p_revision h + 1, p_updated := now\<rparr>, case p_name h of None \<Rightarrow> [] | Some m \<Rightarrow> m)])"
proof -
  have pok: "personas_ok s"
    using ok by (simp add: store_ok_def)
  have h: "h \<in> set (s_personas s)" "name_folded h = fold_name (Some n)" "get_persona (p_id h) s = Some h"
    using holder get_persona_iff [OF pok] by (auto simp: persona_by_name_iff [OF pok])
  have ids: "p_id h \<noteq> p_id r"
    using h(3) new by auto
  show thesis
  proof (cases "wins h r")
    case True
    obtain s' where s': "upsert_persona (r\<lparr>p_name := None\<rparr>) s = Inr s'"
      by (simp add: upsert_persona_def name_taken_def)
    have ok': "personas_ok s'"
      using store_ok_upsert_persona [OF s' ok] by (simp add: store_ok_def)
    have g: "get_persona q s' = (if q = p_id r then Some (r\<lparr>p_name := None\<rparr>) else get_persona q s)" for q
      using get_persona_upsert [OF s', of q] by simp
    have "persona_by_name n s' = Some h"
      using h ids g [of "p_id h"] get_persona_iff [OF ok'] by (simp add: persona_by_name_iff [OF ok'])
    moreover have "adopt_persona now r s = (Inr [], s')"
      using True name holder ids s' by (simp add: adopt_persona_def Let_def)
    ultimately show thesis
      using that [of "[]" s'] True g ids h(3) by simp
  next
    case False
    obtain s1 where s1: "set_persona_name (p_id h) None None None now s = Inr s1"
      by (simp add: set_persona_name_def name_taken_def Let_def)
    have ok1: "store_ok s1"
      using store_ok_set_persona_name [OF s1 ok] .
    then have pok1: "personas_ok s1"
      by (simp add: store_ok_def)
    let ?c = "h\<lparr>p_name := None, p_revision := p_revision h + 1, p_updated := now\<rparr>"
    have g1: "get_persona q s1 = (if q = p_id h then Some ?c else get_persona q s)" for q
      using get_persona_set_name [OF s1, of q] h(3) by simp
    have "\<not> name_taken (p_id r) (Some n) s1"
    proof
      assume "name_taken (p_id r) (Some n) s1"
      then obtain q where q: "q \<in> set (s_personas s1)" "name_folded q = fold_name (Some n)"
        by (auto simp: name_taken_iff)
      then have gq: "get_persona (p_id q) s1 = Some q"
        by (simp add: get_persona_iff [OF pok1])
      show False
      proof (cases "p_id q = p_id h")
        case True
        then have "q = ?c" using gq g1 [of "p_id h"] by simp
        then show False using q(2) by (simp add: name_folded_def fold_name_def)
      next
        case False
        then have "q \<in> set (s_personas s)"
          using gq g1 [of "p_id q"] get_persona_iff [OF pok] by simp
        then have "persona_by_name n s = Some q"
          using q(2) by (simp add: persona_by_name_iff [OF pok])
        then show False using holder False by simp
      qed
    qed
    then obtain s' where s': "upsert_persona r s1 = Inr s'"
      using name by (auto simp: upsert_persona_def)
    have ok': "personas_ok s'"
      using store_ok_upsert_persona [OF s' ok1] by (simp add: store_ok_def)
    have g: "get_persona q s' = (if q = p_id r then Some r else get_persona q s1)" for q
      using get_persona_upsert [OF s', of q] .
    have "persona_by_name n s' = Some r"
      using g [of "p_id r"] get_persona_iff [OF ok'] name
      by (simp add: persona_by_name_iff [OF ok'] name_folded_def)
    moreover have "adopt_persona now r s = (Inr [(?c, case p_name h of None \<Rightarrow> [] | Some m \<Rightarrow> m)], s')"
      using False name holder ids s' s1 g1 [of "p_id h"] by (simp add: adopt_persona_def Let_def)
    ultimately show thesis
      using that [of "[(?c, case p_name h of None \<Rightarrow> [] | Some m \<Rightarrow> m)]" s'] False g g1 ids by simp
  qed
qed

end
