(* ===== verification/User_Commands.thy ===== *)
theory User_Commands
  imports Admin Persona_Facts
begin

text \<open>
  The in-band member commands of \<open>lxmf_hub/usercmds.py\<close>: which messages are commands, who may
  use which, the rate limit on answers, and what each one does and says. Everything the code
  draws from outside is a field of \<open>cmd_env\<close>: two readings of the clock (the second is taken
  later in the same command), the random persona id and code, the attached destinations, the
  usage text \<open>argparse\<close> renders, and the texts of Python's exceptions and numbers.
\<close>

record cmd_env =
  ce_now :: time
  ce_later :: time
  ce_new_id :: bytes
  ce_code :: string
  ce_dests :: destinations
  ce_dest_of :: "bytes \<Rightarrow> bytes option"
  ce_operator_help :: "string list"
  ce_error_text :: "store_error \<Rightarrow> string"
  ce_number_text :: "real \<Rightarrow> string"

record commands =
  uc_started :: time
  uc_answered :: "(bytes \<times> time) list"

datatype failure =
    Refused string
  | Failed string

section \<open>Verbs\<close>

definition USAGE :: "(string \<times> string) list" where
  "USAGE =
    [(''/help'', ''this list''),
     (''/status'', ''groups, hubs, queues and who you are''),
     (''/name <username>'', ''claim or change your username''),
     (''/whoami'', ''your username, devices, and the LXMF address to give an admin''),
     (''/link'', ''get a one-time code to add another device''),
     (''/link <code>'', ''join this device to that persona''),
     (''/unlink'', ''get a one-time code another of your devices can spend to unlink itself''),
     (''/unlink <hash>'', ''drop one of your own devices''),
     (''/unlink <code>'', ''spend an unlink code from this device''),
     (''/who <username>'', ''which devices a username is''),
     (''/names'', ''usernames known to this hub''),
     (''/add <hash>'', ''admin: add a member to this group''),
     (''/remove <hash>'', ''admin: remove a member from this group''),
     (''/ban <hash>'', ''admin: ban a member from this group''),
     (''/unban <hash>'', ''admin: restore a banned member'')]"

definition VERBS :: "string list" where
  "VERBS = [''/help'', ''/status'', ''/name'', ''/whoami'', ''/link'', ''/unlink'', ''/who'',
     ''/names'', ''/add'', ''/remove'', ''/ban'', ''/unban'']"

definition MAX_COMMAND_BYTES :: nat where "MAX_COMMAND_BYTES = 1024"
definition MAX_NAMES_LISTED :: nat where "MAX_NAMES_LISTED = 40"

definition verb_of :: "string \<Rightarrow> string option" where
  "verb_of text =
     (let stripped = strip text
      in if take 1 stripped \<noteq> ''/'' then None
         else if MAX_COMMAND_BYTES < length stripped then None
         else
           let verb = lower (hd (split_once stripped))
           in if verb \<in> set VERBS then Some verb else None)"

section \<open>Small parsers\<close>

definition device_hash :: "string \<Rightarrow> failure + bytes" where
  "device_hash value =
     (case user_hash value of
        Inl (CommandError m) \<Rightarrow> Inl (Refused m)
      | Inl (AdminRaised e) \<Rightarrow> Inl (Failed '''')
      | Inr h \<Rightarrow> Inr h)"

definition looks_like_code :: "string \<Rightarrow> bool" where
  "looks_like_code value =
     (let trimmed = upper (strip value)
      in length trimmed = CODE_LENGTH \<and> list_all (\<lambda>c. c \<in> set CODE_ALPHABET) trimmed)"

definition command_peers :: "hub_config \<Rightarrow> bytes list" where
  "command_peers cfg = (case peer_hashes (federation_cfg cfg) of Inl e \<Rightarrow> [] | Inr hs \<Rightarrow> hs)"

definition is_operator :: "hub_config \<Rightarrow> bytes \<Rightarrow> bool" where
  "is_operator cfg sender =
     (case operator_hashes cfg of Inl e \<Rightarrow> False | Inr hs \<Rightarrow> sender \<in> set hs)"

definition name_or :: "persona_record \<Rightarrow> string \<Rightarrow> string" where
  "name_or p t = (case p_name p of None \<Rightarrow> t | Some n \<Rightarrow> or_text n t)"

definition shown_name :: "persona_record \<Rightarrow> string" where
  "shown_name p = (case p_name p of None \<Rightarrow> ''None'' | Some n \<Rightarrow> n)"

text \<open>A registry operation as a command sees it: \<open>str(exception)\<close> of a \<open>PersonaError\<close>.\<close>

definition registry_result :: "cmd_env \<Rightarrow> registry_error + 'a \<Rightarrow> failure + 'a" where
  "registry_result env r =
     (case r of
        Inl (PersonaError m) \<Rightarrow> Inl (Refused m)
      | Inl (Raised e) \<Rightarrow> Inl (Failed (ce_error_text env e))
      | Inr x \<Rightarrow> Inr x)"

section \<open>Help and status\<close>

definition help_text :: "hub_config \<Rightarrow> cmd_env \<Rightarrow> bytes \<Rightarrow> string" where
  "help_text cfg env sender =
     (let width = foldl max 0 (map (\<lambda>(usage, _). length usage) USAGE);
          lines = ''What you can send here:'' #
            map (\<lambda>(usage, summary). ''  '' @ ljust width usage @ ''  '' @ summary) USAGE @
            [''Anything else is posted to the group.''] @
            (if is_operator cfg sender
             then ['''', ''You are an operator. Sent to the control address:''] @
                  map (\<lambda>l. ''  '' @ l) (tl (ce_operator_help env))
             else [])
      in join_with NEWLINE lines)"

definition header_line :: "hub_config \<Rightarrow> commands \<Rightarrow> time \<Rightarrow> store \<Rightarrow> string" where
  "header_line cfg uc now s =
     hub_name cfg @ '': up '' @ format_age (now - uc_started uc) @ '', '' @
     show_nat (length (list_groups s)) @ '' group(s), '' @
     show_nat (length (command_peers cfg)) @ '' peer hub(s)''"

definition identity_line :: "bytes \<Rightarrow> store \<Rightarrow> string" where
  "identity_line sender s =
     (case persona_for sender s of
        None \<Rightarrow> ''your LXMF address: '' @ hex sender @ '', no username yet -- send '' @
          quoted ''/name <username>'' @ '' to claim one''
      | Some p \<Rightarrow> ''you: '' @ name_or p ''no username yet'' @ '', '' @
          show_nat (length (registry_devices (p_id p) s)) @ '' device(s), your LXMF address: '' @
          hex sender)"

definition local_address :: "cmd_env \<Rightarrow> string \<Rightarrow> bytes \<Rightarrow> store_error + string" where
  "local_address env gid key =
     (case destination_for gid (ce_dests env) of
        Some h \<Rightarrow> Inr (hex h)
      | None \<Rightarrow>
          (case group_destination_hash (ce_dest_of env) key of Inl e \<Rightarrow> Inl e | Inr h \<Rightarrow> Inr (hex h)))"

definition peer_state_text :: "hub_config \<Rightarrow> bytes \<Rightarrow> string \<Rightarrow> time \<Rightarrow> store \<Rightarrow> string" where
  "peer_state_text cfg peer gid now s =
     (let adopted = adopted_for_peer peer gid s;
          state = (case peer_last_success peer s of
              None \<Rightarrow> ''never answered''
            | Some t \<Rightarrow>
                if now - t \<le> effective_peer_timeout cfg
                then ''answered '' @ format_age (now - t) @ '' ago''
                else ''silent for '' @ format_age (now - t))
      in if adopted = [] then state
         else state @ '', '' @ show_nat (length adopted) @ '' of its member(s) served here'')"

definition group_block :: "hub_config \<Rightarrow> cmd_env \<Rightarrow> store \<Rightarrow> group_record \<Rightarrow> store_error + string list" where
  "group_block cfg env s g =
     (let members = list_members (g_id g) False s;
          named = length (filter (\<lambda>(u, _). display_name_for u s \<noteq> None) members)
      in case local_address env (g_id g) (g_key g) of
           Inl e \<Rightarrow> Inl e
         | Inr address \<Rightarrow>
             Inr ([g_id g @ '' ('' @ g_acl g @ ''): '' @ show_nat (length members) @
                     '' member(s) here, '' @ show_nat (length (list_adopted (g_id g) s)) @
                     '' adopted, '' @ show_nat named @ '' named'',
                   ''  '' @ address @ ''  this hub''] @
                  map (\<lambda>r. ''  '' @ hex (pg_dest r) @ ''  '' @ pg_hub r @ '', '' @
                         peer_state_text cfg (pg_peer r) (g_id g) (ce_now env) s)
                    (list_peer_groups (Some (g_id g)) s)))"

definition group_lines :: "hub_config \<Rightarrow> cmd_env \<Rightarrow> store \<Rightarrow> store_error + string list" where
  "group_lines cfg env s =
     (case sequence_results (map (group_block cfg env s) (list_groups s)) of
        Inl e \<Rightarrow> Inl e
      | Inr blocks \<Rightarrow>
          Inr (if concat blocks = [] then [''This hub carries no groups yet.''] else concat blocks))"

definition live_peers :: "hub_config \<Rightarrow> time \<Rightarrow> store \<Rightarrow> bytes list" where
  "live_peers cfg now s =
     filter (\<lambda>p. case peer_last_success p s of None \<Rightarrow> False
       | Some t \<Rightarrow> now - t \<le> effective_peer_timeout cfg) (command_peers cfg)"

definition federation_line :: "hub_config \<Rightarrow> time \<Rightarrow> store \<Rightarrow> string" where
  "federation_line cfg now s =
     (if \<not> fed_enabled (federation_cfg cfg) then ''federation: off, this hub stands alone''
      else if command_peers cfg = [] then ''federation: on, no peers configured''
      else ''federation: '' @ show_nat (length (live_peers cfg now s)) @ ''/'' @
        show_nat (length (command_peers cfg)) @ '' peer(s) answering, sync every '' @
        format_age (sync_interval_sec (federation_cfg cfg)) @ '', a peer counts as down after '' @
        format_age (effective_peer_timeout cfg))"

definition queue_line :: "store \<Rightarrow> string" where
  "queue_line s =
     ''queues: '' @ show_nat (egress_depth s) @ '' message(s), '' @ show_nat (notice_depth s) @
     '' notice(s), '' @ show_nat (user_depth s) @ '' answer(s) waiting to go out''"

definition operator_line :: "hub_config \<Rightarrow> cmd_env \<Rightarrow> store \<Rightarrow> string" where
  "operator_line cfg env s =
     (let ps = list_personas s;
          named = length (filter (\<lambda>p. name_or p '''' \<noteq> '''') ps)
      in ''operator: '' @ show_nat (control_depth s) @ '' control answer(s) queued, '' @
         show_nat named @ ''/'' @ show_nat (length ps) @ '' persona(s) named, egress '' @
         ce_number_text env (tokens_per_second (egress_cfg cfg)) @ ''/s burst '' @
         ce_number_text env (burst (egress_cfg cfg)))"

definition status_text :: "hub_config \<Rightarrow> commands \<Rightarrow> cmd_env \<Rightarrow> bytes \<Rightarrow> store \<Rightarrow> failure + string" where
  "status_text cfg uc env sender s =
     (case group_lines cfg env s of
        Inl e \<Rightarrow> Inl (Failed (ce_error_text env e))
      | Inr lines \<Rightarrow>
          Inr (join_with NEWLINE
            ([header_line cfg uc (ce_now env) s, identity_line sender s] @ lines @
             [federation_line cfg (ce_now env) s, queue_line s] @
             (if is_operator cfg sender then [operator_line cfg env s] else []))))"

section \<open>Persona commands\<close>

definition cmd_name ::
    "cmd_env \<Rightarrow> bytes \<Rightarrow> string option \<Rightarrow> store \<Rightarrow> (failure + string) \<times> store" where
  "cmd_name env sender argument s =
     (case argument of
        None \<Rightarrow>
          (Inr (''You are '' @ (case persona_for sender s of None \<Rightarrow> ''nothing yet''
             | Some p \<Rightarrow> name_or p ''nothing yet'') @ ''. Send '' @ quoted ''/name <username>'' @
             '' to change it.''), s)
      | Some name \<Rightarrow>
          (case claim (ce_new_id env) (ce_now env) sender name s of
             (Inl e, s1) \<Rightarrow> (registry_result env (Inl e), s1)
           | (Inr p, s1) \<Rightarrow>
               (Inr (''You are '' @ shown_name p @ '' on every hub in this federation, from '' @
                  show_nat (length (registry_devices (p_id p) s1)) @ '' device(s).''), s1)))"

definition cmd_whoami :: "bytes \<Rightarrow> store \<Rightarrow> string" where
  "cmd_whoami sender s =
     (case persona_for sender s of
        None \<Rightarrow> ''your LXMF address: '' @ hex sender @ '', no persona yet. Send '' @
          quoted ''/name <username>'' @ '' to claim a username.''
      | Some p \<Rightarrow>
          join_with NEWLINE
            ([name_or p ''no username yet'' @ '' (persona '' @ hex (p_id p) @ '')'',
              ''your device(s), by LXMF address:''] @
             map (\<lambda>r. ''  '' @ hex (i_user r) @ (if i_user r = sender then '' <- this device'' else ''''))
               (registry_devices (p_id p) s)))"

definition cmd_link ::
    "cmd_env \<Rightarrow> bytes \<Rightarrow> string option \<Rightarrow> store \<Rightarrow> (failure + string) \<times> store" where
  "cmd_link env sender argument s =
     (case argument of
        None \<Rightarrow>
          (case mint_code (ce_new_id env) (ce_code env) (ce_now env) sender s of
             (Inl e, s1) \<Rightarrow> (registry_result env (Inl e), s1)
           | (Inr (code, expires), s1) \<Rightarrow>
               (Inr (''Send '' @ quoted (''/link '' @ code) @ '' from your other device within '' @
                  format_age (expires - ce_later env) @ ''. The code works once.''), s1))
      | Some code \<Rightarrow>
          (case join (ce_now env) sender code s of
             (Inl e, s1) \<Rightarrow> (registry_result env (Inl e), s1)
           | (Inr p, s1) \<Rightarrow>
               (Inr (''This device is now '' @ name_or p ''your persona'' @ '', '' @
                  show_nat (length (registry_devices (p_id p) s1)) @ '' device(s) in total.''), s1)))"

definition cmd_unlink ::
    "cmd_env \<Rightarrow> bytes \<Rightarrow> string option \<Rightarrow> store \<Rightarrow> (failure + string) \<times> store" where
  "cmd_unlink env sender argument s =
     (case argument of
        None \<Rightarrow>
          (case mint_unlink_code (ce_code env) (ce_now env) sender s of
             (Inl e, s1) \<Rightarrow> (registry_result env (Inl e), s1)
           | (Inr (code, expires), s1) \<Rightarrow>
               (Inr (''Send '' @ quoted (''/unlink '' @ code) @ '' from the device to remove within '' @
                  format_age (expires - ce_later env) @ ''. The code works once.''), s1))
      | Some value \<Rightarrow>
          if looks_like_code value
          then case unlink_with_code (ce_now env) sender value s of
               (Inl e, s1) \<Rightarrow> (registry_result env (Inl e), s1)
             | (Inr p, s1) \<Rightarrow>
                 (Inr (''This device is no longer '' @ name_or p ''your persona'' @ '', '' @
                    show_nat (length (registry_devices (p_id p) s1)) @ '' device(s) left.''), s1)
          else case device_hash value of
               Inl f \<Rightarrow> (Inl f, s)
             | Inr target \<Rightarrow>
                 (case unlink (ce_now env) sender target s of
                    (Inl e, s1) \<Rightarrow> (registry_result env (Inl e), s1)
                  | (Inr p, s1) \<Rightarrow>
                      (Inr (hex target @ '' is no longer '' @ name_or p ''your persona'' @ '', '' @
                         show_nat (length (registry_devices (p_id p) s1)) @ '' device(s) left.''), s1)))"

definition cmd_who :: "string option \<Rightarrow> store \<Rightarrow> string" where
  "cmd_who argument s =
     (case argument of
        None \<Rightarrow> ''Send '' @ quoted ''/who <username>'' @ ''.''
      | Some name \<Rightarrow>
          (case persona_by_name name s of
             None \<Rightarrow> ''Nobody here is called '' @ name @ ''.''
           | Some p \<Rightarrow>
               join_with NEWLINE ((shown_name p @ '' is '' @
                   show_nat (length (registry_devices (p_id p) s)) @ '' device(s):'') #
                 map (\<lambda>r. ''  '' @ hex (i_user r)) (registry_devices (p_id p) s))))"

definition cmd_names :: "store \<Rightarrow> string" where
  "cmd_names s =
     (let named = filter (\<lambda>p. name_or p '''' \<noteq> '''') (list_personas s)
      in if named = [] then ''Nobody has claimed a username yet.''
         else join_with NEWLINE ((show_nat (length named) @ '' username(s):'') #
           map (\<lambda>p. ''  '' @ shown_name p @ TAB @
                  show_nat (length (registry_devices (p_id p) s)) @ '' device(s)'')
             (take MAX_NAMES_LISTED named) @
           (if MAX_NAMES_LISTED < length named
            then [''  ... and '' @ show_nat (length named - MAX_NAMES_LISTED) @ '' more''] else [])))"

section \<open>Moderation\<close>

definition moderate ::
    "time \<Rightarrow> string option \<Rightarrow> bytes \<Rightarrow> role option \<Rightarrow> string \<Rightarrow> string option \<Rightarrow> store
     \<Rightarrow> (failure + string) \<times> store" where
  "moderate now gid_opt sender role verb argument s =
     (case gid_opt of
        None \<Rightarrow> (Inr ''Only a group admin can use that command.'', s)
      | Some gid \<Rightarrow>
          if role \<noteq> Some ROLE_ADMIN then (Inr ''Only a group admin can use that command.'', s)
          else case argument of
            None \<Rightarrow> (Inr (''Usage: '' @ verb @ '' <hash>''), s)
          | Some value \<Rightarrow>
              (case user_hash value of
                 Inl (CommandError m) \<Rightarrow> (Inl (Failed m), s)
               | Inl (AdminRaised e) \<Rightarrow> (Inl (Failed ''''), s)
               | Inr target \<Rightarrow>
                   if target = sender then (Inr ''You cannot remove or ban yourself.'', s)
                   else
                     let target_role = get_role gid target s
                     in if verb = ''/add''
                        then (if target_role = Some ROLE_ADMIN
                              then (Inr (hex target @ '' is already an admin in '' @ gid), s)
                              else (Inr (hex target @ '' is now a member in '' @ gid),
                                    add_member gid target ROLE_MEMBER now s))
                        else if target_role = Some ROLE_ADMIN
                        then (Inr ''Only the operator can change another admin.'', s)
                        else if verb = ''/remove''
                        then (if target_role = None
                              then (Inr (hex target @ '' is not a member of '' @ gid), s)
                              else (Inr (hex target @ '' removed from '' @ gid),
                                    remove_member gid target s))
                        else if verb = ''/ban''
                        then (Inr (hex target @ '' is now banned in '' @ gid),
                              add_member gid target ROLE_BANNED now s)
                        else if target_role \<noteq> Some ROLE_BANNED
                        then (Inr (hex target @ '' is not banned in '' @ gid), s)
                        else (Inr (hex target @ '' is no longer banned in '' @ gid),
                              add_member gid target ROLE_MEMBER now s)))"

section \<open>Dispatch\<close>

definition run_verb ::
    "hub_config \<Rightarrow> commands \<Rightarrow> cmd_env \<Rightarrow> bytes \<Rightarrow> string option \<Rightarrow> role option \<Rightarrow> string
     \<Rightarrow> string option \<Rightarrow> store \<Rightarrow> (failure + string) \<times> store" where
  "run_verb cfg uc env sender gid role verb argument s =
     (if verb = ''/help'' then (Inr (help_text cfg env sender), s)
      else if verb = ''/status'' then (status_text cfg uc env sender s, s)
      else if verb = ''/name'' then cmd_name env sender argument s
      else if verb = ''/whoami'' then (Inr (cmd_whoami sender s), s)
      else if verb = ''/link'' then cmd_link env sender argument s
      else if verb = ''/unlink'' then cmd_unlink env sender argument s
      else if verb = ''/who'' then (Inr (cmd_who argument s), s)
      else if verb = ''/names'' then (Inr (cmd_names s), s)
      else if verb \<in> {''/add'', ''/remove'', ''/ban'', ''/unban''}
      then moderate (ce_now env) gid sender role verb argument s
      else (Inr (help_text cfg env sender), s))"

text \<open>\<open>tokens[0]\<close> raises \<open>IndexError\<close> on blank text; every caller passes a message that
  \<open>verb_of\<close> accepted.\<close>

definition execute ::
    "hub_config \<Rightarrow> commands \<Rightarrow> cmd_env \<Rightarrow> bytes \<Rightarrow> string \<Rightarrow> string option \<Rightarrow> role option \<Rightarrow> store
     \<Rightarrow> string \<times> store" where
  "execute cfg uc env sender text gid role s =
     (let tokens = words (strip text);
          verb = lower (hd tokens);
          argument = (if 1 < length tokens then Some (tokens ! 1) else None)
      in case run_verb cfg uc env sender gid role verb argument s of
           (Inr answer, s1) \<Rightarrow> (answer, s1)
         | (Inl (Refused m), s1) \<Rightarrow> (m, s1)
         | (Inl (Failed m), s1) \<Rightarrow> (''That command failed: '' @ m, s1))"

definition prune_senders :: "hub_config \<Rightarrow> time \<Rightarrow> commands \<Rightarrow> commands" where
  "prune_senders cfg now uc =
     uc\<lparr>uc_answered := filter (\<lambda>(_, when). now - when < cmd_min_reply_interval (commands_cfg cfg))
        (uc_answered uc)\<rparr>"

definition handle_command ::
    "hub_config \<Rightarrow> cmd_env \<Rightarrow> string \<Rightarrow> bytes \<Rightarrow> string \<Rightarrow> bool \<Rightarrow> role option \<Rightarrow> commands \<Rightarrow> store
     \<Rightarrow> bool \<times> commands \<times> store" where
  "handle_command cfg env gid sender text authorised role uc s =
     (if \<not> cmd_enabled (commands_cfg cfg) then (False, uc, s)
      else case verb_of text of
        None \<Rightarrow> (False, uc, s)
      | Some verb \<Rightarrow>
          if \<not> authorised \<and> (verb \<noteq> ''/link'' \<or> length (split_once (strip text)) < 2)
          then (False, uc, s)
          else
            let now = ce_now env;
                last = (case map_of (uc_answered uc) sender of None \<Rightarrow> 0 | Some t \<Rightarrow> t)
            in if now - last < cmd_min_reply_interval (commands_cfg cfg) then (True, uc, s)
               else
                 let uc1 = prune_senders cfg now uc;
                     uc2 = uc1\<lparr>uc_answered := dict_set sender now (uc_answered uc1)\<rparr>;
                     (answer, s1) = execute cfg uc2 env sender text (Some gid) role s
                 in (True, uc2, snd (enqueue_user gid sender answer now s1)))"

section \<open>Notifying a lost name\<close>

fun notify_devices :: "time \<Rightarrow> string \<Rightarrow> persona_identity list \<Rightarrow> store \<Rightarrow> nat \<times> store" where
  "notify_devices now body [] s = (0, s)"
| "notify_devices now body (r # rs) s =
     (case groups_for_member (i_user r) s of
        [] \<Rightarrow> notify_devices now body rs s
      | gid # _ \<Rightarrow>
          let (n, s1) = notify_devices now body rs (snd (enqueue_user gid (i_user r) body now s))
          in (n + 1, s1))"

definition notify_name_lost :: "time \<Rightarrow> bytes \<Rightarrow> string \<Rightarrow> store \<Rightarrow> nat \<times> store" where
  "notify_name_lost now pid name s =
     notify_devices now
       (''The username '' @ quoted name @ '' went to an earlier claim on another hub, so it is'' @
        '' no longer yours. Send '' @ quoted ''/name <username>'' @ '' to pick another.'')
       (persona_devices pid False s) s"

end
