(* ===== verification/Hub_Core.thy ===== *)
theory Hub_Core
  imports User_Commands
begin

text \<open>
  The group reflection core of \<open>lxmf_hub/hub.py\<close>: from an inbound LXMF message to stored
  rows and queued deliveries, the hold for messages whose sender RNS does not know yet, the
  ingest of a peer's messages, and the contents of a reflection. The libraries are the fields
  of \<open>hub_env\<close>: SHA-256, msgpack, \<open>struct.pack(">d", ...)\<close>, RNS's identity cache and path
  table, LXMF's unpacking and UTF-8 decoding.
\<close>

section \<open>Messages and environment\<close>

text \<open>What the hub reads of an \<open>LXMessage\<close>. \<open>x_unknown\<close>: \<open>unverified_reason\<close> is
  \<open>SOURCE_UNKNOWN\<close>; \<open>x_packed\<close> is empty when the raw bytes are not available. The time stamp and the
  fields come from the sender: \<open>he_packable\<close> says that \<open>sanitise_fields\<close>, \<open>pack_payload\<close> and \<open>message_hash\<close>
  do not raise on them, as the last does on a time stamp that is not a number.\<close>

record lxm =
  x_source :: bytes
  x_destination :: bytes
  x_valid :: bool
  x_unknown :: bool
  x_packed :: bytes
  x_time :: time
  x_title :: bytes
  x_content :: bytes
  x_fields :: fields

record hub_env = cmd_env +
  he_sha :: "bytes \<Rightarrow> bytes"
  he_double :: "time \<Rightarrow> bytes"
  he_pack :: "time \<times> bytes \<times> bytes \<times> fields \<Rightarrow> bytes"
  he_unpack :: "bytes \<Rightarrow> (time \<times> bytes \<times> bytes \<times> fields) option"
  he_known :: "bytes \<Rightarrow> bool"
  he_path :: "bytes \<Rightarrow> bool"
  he_packable :: "lxm \<Rightarrow> bool"
  he_lxm :: "bytes \<Rightarrow> lxm"
  he_decode :: "bytes \<Rightarrow> string"
  he_pretty :: "bytes \<Rightarrow> string"

record held =
  hd_packed :: bytes
  hd_source :: bytes
  hd_deadline :: time
  hd_next :: time

text \<open>\<open>h_commands\<close> is \<open>None\<close> for a hub built without the command channel; \<open>h_requests\<close> are
  the path requests handed to RNS.\<close>

record hub =
  h_store :: store
  h_commands :: "commands option"
  h_unverified :: "held list"
  h_requests :: "bytes list"

definition utf8 :: "string \<Rightarrow> bytes" where
  "utf8 s = map (\<lambda>c. of_nat (of_char c)) s"

section \<open>Hashes\<close>

definition group_hash :: "(bytes \<Rightarrow> bytes) \<Rightarrow> string \<Rightarrow> bytes" where
  "group_hash sha gid = sha (utf8 gid)"

definition message_hash ::
    "(bytes \<Rightarrow> bytes) \<Rightarrow> (time \<Rightarrow> bytes) \<Rightarrow> string \<Rightarrow> bytes \<Rightarrow> time \<Rightarrow> bytes \<Rightarrow> bytes" where
  "message_hash sha dbl gid sender ts payload =
     sha (group_hash sha gid @ sender @ dbl ts @ payload)"

section \<open>Authorisation\<close>

definition authorise :: "time \<Rightarrow> group_record \<Rightarrow> bytes \<Rightarrow> store \<Rightarrow> bool \<times> store" where
  "authorise now g sender s =
     (case get_role (g_id g) sender s of
        Some ROLE_BANNED \<Rightarrow> (False, s)
      | Some _ \<Rightarrow> (True, s)
      | None \<Rightarrow>
          if is_peer_member (g_id g) sender s then (True, s)
          else if g_acl g = ACL_PUBLIC then (True, add_member (g_id g) sender ROLE_MEMBER now s)
          else (False, s))"

definition sanitise_fields :: "hub_config \<Rightarrow> fields \<Rightarrow> fields" where
  "sanitise_fields cfg fs = dict_pop (author_field cfg) fs"

section \<open>Fan-out\<close>

definition recipients :: "string \<Rightarrow> store \<Rightarrow> bytes list" where
  "recipients gid s =
     (let members = list_members gid True s;
          here = map fst (filter (\<lambda>(u, r). r \<noteq> ROLE_BANNED) members);
          banned = map fst (filter (\<lambda>(u, r). r = ROLE_BANNED) members);
          known = set here \<union> set banned
      in here @ filter (\<lambda>u. u \<notin> known) (list_adopted gid s))"

definition store_and_fan_out :: "time \<Rightarrow> message_record \<Rightarrow> store \<Rightarrow> (bool \<times> nat) \<times> store" where
  "store_and_fan_out now r s =
     store_and_enqueue r (filter (\<lambda>u. u \<noteq> m_sender r) (recipients (m_group r) s)) now s"

fun fan_out_to :: "time \<Rightarrow> message_record \<Rightarrow> bytes list \<Rightarrow> store \<Rightarrow> nat \<times> store" where
  "fan_out_to now r [] s = (0, s)"
| "fan_out_to now r (u # us) s =
     (if u = m_sender r then fan_out_to now r us s
      else
        let (inserted, s1) = enqueue_egress (m_group r) u (m_hash r) 0 now s;
            (n, s2) = fan_out_to now r us s1
        in (if inserted then n + 1 else n, s2))"

definition fan_out :: "time \<Rightarrow> message_record \<Rightarrow> store \<Rightarrow> nat \<times> store" where
  "fan_out now r s = fan_out_to now r (recipients (m_group r) s) s"

section \<open>Inbound messages\<close>

definition request_path :: "hub_env \<Rightarrow> bytes \<Rightarrow> bytes list \<Rightarrow> bytes list" where
  "request_path env h reqs = (if he_path env h then reqs else reqs @ [h])"

definition hold_unverified :: "hub_config \<Rightarrow> hub_env \<Rightarrow> lxm \<Rightarrow> hub \<Rightarrow> hub" where
  "hold_unverified cfg env m h =
     h\<lparr>h_requests := request_path env (x_source m) (h_requests h),
       h_unverified := h_unverified h @ [\<lparr>hd_packed = x_packed m, hd_source = x_source m,
         hd_deadline = ce_now env + unverified_hold_sec (egress_cfg cfg),
         hd_next = ce_now env + path_request_grace_sec (egress_cfg cfg)\<rparr>]\<rparr>"

text \<open>\<open>self.commands is not None and self.commands.handle(...)\<close>.\<close>

definition try_command ::
    "hub_config \<Rightarrow> hub_env \<Rightarrow> string \<Rightarrow> lxm \<Rightarrow> bool \<Rightarrow> role option \<Rightarrow> hub \<Rightarrow> bool \<times> hub" where
  "try_command cfg env gid m authorised role h =
     (case h_commands h of
        None \<Rightarrow> (False, h)
      | Some uc \<Rightarrow>
          let (taken, uc1, s1) = handle_command cfg (cmd_env.truncate env) gid (x_source m)
                (he_decode env (x_content m)) authorised role uc (h_store h)
          in (taken, h\<lparr>h_commands := Some uc1, h_store := s1\<rparr>))"

definition inbound_record :: "hub_config \<Rightarrow> hub_env \<Rightarrow> string \<Rightarrow> lxm \<Rightarrow> message_record" where
  "inbound_record cfg env gid m =
     (let payload = he_pack env (x_time m, x_title m, x_content m, sanitise_fields cfg (x_fields m))
      in \<lparr>m_hash = message_hash (he_sha env) (he_double env) gid (x_source m) (x_time m) payload,
          m_group = gid, m_sender = x_source m, m_time = x_time m, m_payload = payload,
          m_origin = ORIGIN_LOCAL\<rparr>)"

text \<open>\<open>GroupHub.handle_inbound\<close>: whether it returns, and the state it leaves, also where it raises.\<close>

definition inbound :: "hub_config \<Rightarrow> hub_env \<Rightarrow> lxm \<Rightarrow> hub \<Rightarrow> bool \<times> hub" where
  "inbound cfg env m h =
     (case group_for_hash (x_destination m) (ce_dests env) of
        None \<Rightarrow> (True, h)
      | Some gid \<Rightarrow>
          (case get_group gid (h_store h) of
             None \<Rightarrow> (True, h)
           | Some g \<Rightarrow>
               if \<not> x_valid m
               then (True, if x_unknown m \<and> x_packed m \<noteq> [] then hold_unverified cfg env m h else h)
               else
                 let (ok, s1) = authorise (ce_now env) g (x_source m) (h_store h);
                     h1 = h\<lparr>h_store := s1\<rparr>
                 in if \<not> ok then (True, snd (try_command cfg env gid m False None h1))
                    else
                      let (taken, h2) = try_command cfg env gid m True
                            (get_role gid (x_source m) s1) h1
                      in if taken then (True, h2)
                         else if \<not> he_packable env m then (False, h2)
                         else (True, h2\<lparr>h_store := snd (store_and_fan_out (ce_now env)
                                (inbound_record cfg env gid m) (h_store h2))\<rparr>)))"

definition handle_inbound :: "hub_config \<Rightarrow> hub_env \<Rightarrow> lxm \<Rightarrow> hub \<Rightarrow> hub" where
  "handle_inbound cfg env m h = snd (inbound cfg env m h)"

lemmas handle_inbound_eq = handle_inbound_def inbound_def

section \<open>Held messages\<close>

text \<open>The loop of \<open>retry_unverified\<close>: what is still pending, or \<open>None\<close> if a message makes it raise.\<close>

fun retry_held ::
    "hub_config \<Rightarrow> hub_env \<Rightarrow> held list \<Rightarrow> hub \<Rightarrow> held list option \<times> hub" where
  "retry_held cfg env [] h = (Some [], h)"
| "retry_held cfg env (x # xs) h =
     (if hd_deadline x \<le> ce_now env then retry_held cfg env xs h
      else if \<not> he_known env (hd_source x)
      then
        let due = hd_next x \<le> ce_now env;
            h1 = (if due then h\<lparr>h_requests := request_path env (hd_source x) (h_requests h)\<rparr> else h);
            x1 = (if due then x\<lparr>hd_next := ce_now env + path_request_grace_sec (egress_cfg cfg)\<rparr>
                  else x);
            (rest, h2) = retry_held cfg env xs h1
        in (map_option (\<lambda>ys. x1 # ys) rest, h2)
      else
        let m = he_lxm env (hd_packed x);
            (returned, h1) = (if x_valid m then inbound cfg env m h else (True, h))
        in if returned then retry_held cfg env xs h1 else (None, h1))"

text \<open>What was pending is taken out first and put back last: an exception in between forgets all of it.\<close>

definition retry_unverified :: "hub_config \<Rightarrow> hub_env \<Rightarrow> hub \<Rightarrow> bool \<times> hub" where
  "retry_unverified cfg env h =
     (if h_unverified h = [] then (True, h)
      else case retry_held cfg env (h_unverified h) (h\<lparr>h_unverified := []\<rparr>) of
        (None, h1) \<Rightarrow> (False, h1)
      | (Some still, h1) \<Rightarrow> (True, h1\<lparr>h_unverified := h_unverified h1 @ still\<rparr>))"

section \<open>Messages from peers\<close>

definition federated_record ::
    "hub_env \<Rightarrow> string \<times> bytes \<times> time \<times> bytes \<Rightarrow> message_record" where
  "federated_record env x =
     (case x of (gid, sender, ts, payload) \<Rightarrow>
        \<lparr>m_hash = message_hash (he_sha env) (he_double env) gid sender ts payload,
         m_group = gid, m_sender = sender, m_time = ts, m_payload = payload,
         m_origin = ORIGIN_FEDERATED\<rparr>)"

fun ingest_federated ::
    "hub_env \<Rightarrow> (string \<times> bytes \<times> time \<times> bytes) list \<Rightarrow> store \<Rightarrow> nat \<times> store" where
  "ingest_federated env [] s = (0, s)"
| "ingest_federated env (x # xs) s =
     (if get_group (fst x) s = None then ingest_federated env xs s
      else
        let ((stored, _), s1) = store_and_fan_out (ce_now env) (federated_record env x) s;
            (n, s2) = ingest_federated env xs s1
        in (if stored then n + 1 else n, s2))"

section \<open>Reflections\<close>

definition author_metadata :: "message_record \<Rightarrow> bytes \<Rightarrow> string option \<Rightarrow> pyval" where
  "author_metadata r hub_hash name =
     VDict [(VStr ''author'', VBytes (m_sender r)), (VStr ''group'', VStr (m_group r)),
            (VStr ''hub'', VBytes hub_hash),
            (VStr ''name'', case name of None \<Rightarrow> VNone | Some n \<Rightarrow> VStr n)]"

definition reflection_payload ::
    "hub_config \<Rightarrow> hub_env \<Rightarrow> message_record \<Rightarrow> bytes \<Rightarrow> store \<Rightarrow> (bytes \<times> bytes \<times> fields) option" where
  "reflection_payload cfg env r hub_hash s =
     (case he_unpack env (m_payload r) of
        None \<Rightarrow> None
      | Some (_, title, content, fs) \<Rightarrow>
          let name = display_name_for (m_sender r) s;
              fs1 = dict_set (author_field cfg) (author_metadata r hub_hash name) fs;
              author = (case name of None \<Rightarrow> he_pretty env (m_sender r)
                | Some n \<Rightarrow> if n = [] then he_pretty env (m_sender r) else n);
              content1 = (if author_prefix_in_content cfg
                then utf8 (author @ '': '') @ content else content)
          in Some (title, content1, fs1))"

record reflection =
  r_to :: bytes
  r_from :: bytes
  r_title :: bytes
  r_content :: bytes
  r_fields :: fields

definition build_reflection ::
    "hub_config \<Rightarrow> hub_env \<Rightarrow> message_record \<Rightarrow> bytes \<Rightarrow> store \<Rightarrow> reflection option" where
  "build_reflection cfg env r recipient s =
     (case destination_for (m_group r) (ce_dests env) of
        None \<Rightarrow> None
      | Some source \<Rightarrow>
          map_option (\<lambda>(title, content, fs). \<lparr>r_to = recipient, r_from = source, r_title = title,
              r_content = content, r_fields = fs\<rparr>)
            (reflection_payload cfg env r source s))"

definition build_notice :: "hub_env \<Rightarrow> string \<Rightarrow> bytes \<Rightarrow> string \<Rightarrow> reflection option" where
  "build_notice env gid recipient body =
     map_option (\<lambda>source. \<lparr>r_to = recipient, r_from = source, r_title = [], r_content = utf8 body,
         r_fields = []\<rparr>)
       (destination_for gid (ce_dests env))"

section \<open>Retention\<close>

definition hub_prune :: "hub_config \<Rightarrow> time \<Rightarrow> store \<Rightarrow> nat \<times> store" where
  "hub_prune cfg now s =
     (let retention = retention_epochs (federation_cfg cfg) * epoch_seconds (federation_cfg cfg)
      in if retention \<le> 0 then (0, s) else prune_messages (now - real_of_int retention) s)"

section \<open>Who receives a message\<close>

lemma recipients_iff:
  assumes "groups_ok s"
  shows "u \<in> set (recipients gid s) \<longleftrightarrow>
    (case get_role gid u s of
       Some r \<Rightarrow> r \<noteq> ROLE_BANNED | None \<Rightarrow> \<exists>p. adopted p gid u s)"
proof -
  have here: "u \<in> fst ` {x \<in> set (list_members gid True s). case x of (u, r) \<Rightarrow> P r} \<longleftrightarrow>
      (\<exists>r. get_role gid u s = Some r \<and> P r)" for P
    using list_members_iff [OF assms, of u _ gid True] by force
  have "u \<in> set (recipients gid s) \<longleftrightarrow>
      (\<exists>r. get_role gid u s = Some r \<and> r \<noteq> ROLE_BANNED) \<or>
      ((\<exists>p. adopted p gid u s) \<and> \<not> (\<exists>r. get_role gid u s = Some r \<and> r \<noteq> ROLE_BANNED) \<and>
        \<not> (\<exists>r. get_role gid u s = Some r \<and> r = ROLE_BANNED))"
    unfolding recipients_def Let_def
    by (simp only: set_append set_filter Un_iff mem_Collect_eq set_map here list_adopted_iff) blast
  then show ?thesis
    by (cases "get_role gid u s") auto
qed

lemma recipients_distinct:
  assumes "groups_ok s"
  shows "distinct (recipients gid s)"
proof -
  have d: "distinct (map fst (filter P (list_members gid True s)))" for P
    using list_members_distinct [OF assms] by (simp add: distinct_map_filter)
  show ?thesis
    unfolding recipients_def Let_def distinct_append using d by auto
qed

section \<open>Well-formedness\<close>

lemma store_ok_authorise: "store_ok s \<Longrightarrow> store_ok (snd (authorise now g u s))"
  by (auto simp: authorise_def split: option.splits role.splits)

lemma store_ok_store_and_fan_out: "store_ok s \<Longrightarrow> store_ok (snd (store_and_fan_out now r s))"
  by (simp add: store_and_fan_out_def)

lemma store_ok_ingest: "store_ok s \<Longrightarrow> store_ok (snd (ingest_federated env xs s))"
proof (induction xs arbitrary: s)
  case (Cons x xs)
  have "store_ok (snd (store_and_fan_out (ce_now env) (federated_record env x) s))"
    using Cons.prems by (rule store_ok_store_and_fan_out)
  with Cons show ?case
    by (simp add: case_prod_beta Let_def)
qed simp

end
