(* ===== verification/Command_Facts.thy ===== *)
theory Command_Facts
  imports User_Commands
begin

text \<open>
  What the command channel guarantees: a sender gets at most one answer per interval, a
  stranger can use nothing but a link code, only a group admin moderates and only ordinary
  members are moderated, and every other command leaves the members alone.
\<close>

section \<open>Well-formedness\<close>

lemma store_ok_cmd_name: "store_ok s \<Longrightarrow> store_ok (snd (cmd_name env u a s))"
  using store_ok_claim [of s "ce_new_id env" "ce_now env" u]
  by (auto simp: cmd_name_def split: option.splits prod.splits sum.splits) (metis snd_conv)+

lemma store_ok_cmd_link: "store_ok s \<Longrightarrow> store_ok (snd (cmd_link env u a s))"
  using store_ok_mint_code [of s "ce_new_id env" "ce_code env" "ce_now env" u]
    store_ok_join [of s "ce_now env" u]
  by (auto simp: cmd_link_def split: option.splits prod.splits sum.splits) (metis snd_conv)+

lemma store_ok_cmd_unlink: "store_ok s \<Longrightarrow> store_ok (snd (cmd_unlink env u a s))"
  using store_ok_mint_unlink_code [of s "ce_code env" "ce_now env" u]
    store_ok_unlink_with_code [of s "ce_now env" u] store_ok_unlink [of s "ce_now env" u]
  by (auto simp: cmd_unlink_def split: option.splits prod.splits sum.splits) (metis snd_conv)+

lemma store_ok_moderate: "store_ok s \<Longrightarrow> store_ok (snd (moderate now g u r v a s))"
  by (auto simp: moderate_def Let_def split: option.splits sum.splits admin_error.splits)

lemma store_ok_run_verb: "store_ok s \<Longrightarrow> store_ok (snd (run_verb cfg uc env u g r v a s))"
  by (simp add: run_verb_def store_ok_cmd_name store_ok_cmd_link store_ok_cmd_unlink store_ok_moderate)

lemma execute_store:
  "snd (execute cfg uc env u msg g r s) =
     snd (run_verb cfg uc env u g r (lower (hd (words (strip msg))))
       (if 1 < length (words (strip msg)) then Some (words (strip msg) ! 1) else None) s)"
  by (simp add: execute_def Let_def split: prod.splits sum.splits failure.splits)

lemma store_ok_execute: "store_ok s \<Longrightarrow> store_ok (snd (execute cfg uc env u msg g r s))"
  by (simp add: execute_store store_ok_run_verb)

lemma store_ok_handle_command:
  "store_ok s \<Longrightarrow> store_ok (snd (snd (handle_command cfg env g u msg a r uc s)))"
  by (auto simp: handle_command_def Let_def case_prod_beta store_ok_execute split: option.splits)

section \<open>One answer per interval\<close>

definition commands_ok :: "commands \<Rightarrow> bool" where
  "commands_ok uc \<longleftrightarrow> distinct (map fst (uc_answered uc))"

definition last_answer :: "commands \<Rightarrow> bytes \<Rightarrow> time option" where
  "last_answer uc u = map_of (uc_answered uc) u"

lemma map_of_filter_distinct:
  "distinct (map fst xs) \<Longrightarrow> map_of (filter (\<lambda>(k, v). P v) xs) k =
     (case map_of xs k of None \<Rightarrow> None | Some v \<Rightarrow> if P v then Some v else None)"
proof (induction xs)
  case (Cons x xs)
  then have "fst x \<notin> dom (map_of xs)"
    by (auto simp: dom_map_of_conv_image_fst)
  with Cons show ?case
    by (cases x) (auto simp: dom_def split: option.splits)
qed simp

lemma distinct_filter_fst: "distinct (map fst xs) \<Longrightarrow> distinct (map fst (filter P xs))"
  by (rule distinct_map_filter)

lemma last_answer_prune:
  "commands_ok uc \<Longrightarrow> last_answer (prune_senders cfg now uc) u =
     (case last_answer uc u of None \<Rightarrow> None
      | Some t \<Rightarrow> if now - t < cmd_min_reply_interval (commands_cfg cfg) then Some t else None)"
  by (simp add: commands_ok_def last_answer_def prune_senders_def map_of_filter_distinct)

lemma commands_ok_prune: "commands_ok uc \<Longrightarrow> commands_ok (prune_senders cfg now uc)"
  by (simp add: commands_ok_def prune_senders_def distinct_filter_fst)

text \<open>The two outcomes of \<open>handle\<close>: nothing happens, or one answer is queued and remembered.\<close>

definition answered ::
    "hub_config \<Rightarrow> cmd_env \<Rightarrow> bytes \<Rightarrow> commands \<Rightarrow> commands" where
  "answered cfg env u uc = (prune_senders cfg (ce_now env) uc)
     \<lparr>uc_answered := dict_set u (ce_now env) (uc_answered (prune_senders cfg (ce_now env) uc))\<rparr>"

lemma handle_command_cases:
  obtains (ignored) "fst (handle_command cfg env g u msg a r uc s) = False"
      "snd (handle_command cfg env g u msg a r uc s) = (uc, s)"
    | (silent) "handle_command cfg env g u msg a r uc s = (True, uc, s)"
      "ce_now env - (case last_answer uc u of None \<Rightarrow> 0 | Some t \<Rightarrow> t) < cmd_min_reply_interval (commands_cfg cfg)"
    | (answer) "handle_command cfg env g u msg a r uc s = (True, answered cfg env u uc,
        snd (enqueue_user g u (fst (execute cfg (answered cfg env u uc) env u msg (Some g) r s))
          (ce_now env) (snd (execute cfg (answered cfg env u uc) env u msg (Some g) r s))))"
      "cmd_min_reply_interval (commands_cfg cfg) \<le>
        ce_now env - (case last_answer uc u of None \<Rightarrow> 0 | Some t \<Rightarrow> t)"
proof (cases "verb_of msg")
  case None
  then show thesis
    by (intro ignored) (auto simp: handle_command_def)
next
  case (Some verb)
  show thesis
  proof (cases "cmd_enabled (commands_cfg cfg) \<and>
      \<not> (\<not> a \<and> (verb \<noteq> ''/link'' \<or> length (split_once (strip msg)) < 2))")
    case False
    with Some show thesis
      by (intro ignored) (auto simp: handle_command_def)
  next
    case True
    show thesis
    proof (cases "ce_now env - (case last_answer uc u of None \<Rightarrow> 0 | Some t \<Rightarrow> t) <
        cmd_min_reply_interval (commands_cfg cfg)")
      case late: True
      with True Some show thesis
        by (intro silent) (simp_all add: handle_command_def last_answer_def)
    next
      case late: False
      with True Some show thesis
        by (intro answer) (simp_all add: handle_command_def last_answer_def Let_def answered_def case_prod_beta)
    qed
  qed
qed

lemma last_answer_handle:
  assumes "commands_ok uc" and "last_answer uc v = Some t"
    and "ce_now env - t < cmd_min_reply_interval (commands_cfg cfg)"
  shows "last_answer (fst (snd (handle_command cfg env g u msg a r uc s))) v = Some t"
    and "commands_ok (fst (snd (handle_command cfg env g u msg a r uc s)))"
proof -
  have "last_answer (answered cfg env u uc) v = Some t"
    if "cmd_min_reply_interval (commands_cfg cfg) \<le>
      ce_now env - (case last_answer uc u of None \<Rightarrow> 0 | Some t \<Rightarrow> t)"
  proof -
    have "v \<noteq> u"
      using that assms(2,3) by auto
    then show ?thesis
      using assms last_answer_prune [OF assms(1), of cfg "ce_now env" v]
      by (simp add: answered_def last_answer_def)
  qed
  moreover have "commands_ok (answered cfg env u uc)"
    using commands_ok_prune [OF assms(1)] by (simp add: answered_def commands_ok_def)
  ultimately have "last_answer (fst (snd (handle_command cfg env g u msg a r uc s))) v = Some t \<and>
      commands_ok (fst (snd (handle_command cfg env g u msg a r uc s)))"
    by (cases rule: handle_command_cases [of cfg env g u msg a r uc s]) (use assms in \<open>auto\<close>)
  then show "last_answer (fst (snd (handle_command cfg env g u msg a r uc s))) v = Some t"
    "commands_ok (fst (snd (handle_command cfg env g u msg a r uc s)))"
    by simp_all
qed

text \<open>A history of messages, from anybody, each handled with its own environment.\<close>

record call =
  cl_env :: cmd_env
  cl_group :: string
  cl_sender :: bytes
  cl_text :: string
  cl_auth :: bool
  cl_role :: "role option"

definition handle_call :: "hub_config \<Rightarrow> call \<Rightarrow> commands \<times> store \<Rightarrow> commands \<times> store" where
  "handle_call cfg c st = snd (handle_command cfg (cl_env c) (cl_group c) (cl_sender c) (cl_text c)
     (cl_auth c) (cl_role c) (fst st) (snd st))"

lemma last_answer_calls:
  "commands_ok (fst st) \<Longrightarrow> last_answer (fst st) v = Some t \<Longrightarrow>
   \<forall>c \<in> set cs. ce_now (cl_env c) - t < cmd_min_reply_interval (commands_cfg cfg) \<Longrightarrow>
   last_answer (fst (fold (handle_call cfg) cs st)) v = Some t \<and>
   commands_ok (fst (fold (handle_call cfg) cs st))"
proof (induction cs arbitrary: st)
  case (Cons c cs)
  have "last_answer (fst (handle_call cfg c st)) v = Some t" "commands_ok (fst (handle_call cfg c st))"
    using last_answer_handle [OF Cons.prems(1,2)] Cons.prems(3) by (simp_all add: handle_call_def)
  with Cons show ?case by simp
qed simp

text \<open>Once answered, a sender is met with silence for the whole interval: their commands are
  swallowed and change nothing.\<close>

lemma silence:
  assumes "commands_ok uc"
    and answered: "handle_command cfg env g u msg a r uc s = (True, uc1, s1)" "last_answer uc1 u = Some (ce_now env)"
    and window: "\<forall>c \<in> set cs. ce_now (cl_env c) - ce_now env < cmd_min_reply_interval (commands_cfg cfg)"
    and later: "ce_now env' - ce_now env < cmd_min_reply_interval (commands_cfg cfg)"
  shows "snd (handle_command cfg env' g' u msg' a' r' (fst (fold (handle_call cfg) cs (uc1, s1))) s2) =
    (fst (fold (handle_call cfg) cs (uc1, s1)), s2)"
proof -
  let ?uc = "fst (fold (handle_call cfg) cs (uc1, s1))"
  have "commands_ok uc1"
  proof (cases rule: handle_command_cases [of cfg env g u msg a r uc s])
    case answer
    then show ?thesis
      using answered(1) commands_ok_prune [OF assms(1)] by (auto simp: answered_def commands_ok_def)
  qed (use assms in auto)
  then have "last_answer ?uc u = Some (ce_now env)"
    using last_answer_calls [of "(uc1, s1)" u "ce_now env" cs cfg] answered(2) window by simp
  then show ?thesis
    using later by (cases rule: handle_command_cases [of cfg env' g' u msg' a' r' ?uc s2]) auto
qed

text \<open>Whoever gets an answer queued is remembered with the time.\<close>

lemma answer_recorded:
  assumes "handle_command cfg env g u msg a r uc s = (taken, uc1, s1)" and "s1 \<noteq> s"
  shows "taken" "last_answer uc1 u = Some (ce_now env)"
  using assms
  by (cases rule: handle_command_cases [of cfg env g u msg a r uc s];
      auto simp: answered_def last_answer_def intro: prod_eqI)+

section \<open>Strangers\<close>

lemma stranger_ignored:
  assumes "verb_of msg \<noteq> Some ''/link'' \<or> length (words (strip msg)) < 2"
  shows "handle_command cfg env g u msg False r uc s = (False, uc, s)"
proof -
  have "length (split_once (strip msg)) < 2 \<longleftrightarrow> length (words (strip msg)) < 2"
    by (simp add: split_once_words min_def)
  with assms show ?thesis
    by (auto simp: handle_command_def split: option.splits)
qed

section \<open>Moderation\<close>

lemma moderate_scope:
  assumes "groups_ok s"
    and "get_role g u (snd (moderate now gid sender role verb argument s)) \<noteq> get_role g u s"
  shows "role = Some ROLE_ADMIN" and "gid = Some g" and "u \<noteq> sender" and "get_role g u s \<noteq> Some ROLE_ADMIN"
    and "\<exists>value. argument = Some value \<and> user_hash value = Inr u"
  using assms
  by (auto simp: moderate_def Let_def get_role_remove_member
      split: option.splits sum.splits admin_error.splits if_splits)

section \<open>Commands that leave the members alone\<close>

lemma create_persona_members: "create_persona pid n u c now s = Inr (p, s') \<Longrightarrow> s_members s' = s_members s"
  by (auto simp: create_persona_def Let_def split: if_splits)

lemma set_persona_name_members: "set_persona_name pid n rv upd now s = Inr s' \<Longrightarrow> s_members s' = s_members s"
  by (auto simp: set_persona_name_def Let_def split: if_splits)

lemma claim_members: "s_members (snd (claim i now u name s)) = s_members s"
  by (auto simp: claim_def Let_def create_persona_members set_persona_name_members
      split: sum.splits option.splits store_error.splits)

lemma mint_code_members: "s_members (snd (mint_code i c now u s)) = s_members s"
  by (auto simp: mint_code_def Let_def create_persona_members create_link_code_def
      split: sum.splits option.splits)

lemma unlink_members: "s_members (snd (unlink now u t s)) = s_members s"
  by (auto simp: unlink_def unlink_identity_def Let_def split: option.splits)

lemma unlink_with_code_members: "s_members (snd (unlink_with_code now u c s)) = s_members s"
  by (auto simp: unlink_with_code_def case_prod_beta Let_def unlink_members split: option.splits)

lemma mint_unlink_code_members: "s_members (snd (mint_unlink_code c now u s)) = s_members s"
  by (auto simp: mint_unlink_code_def create_unlink_code_def split: option.splits)

lemma cmd_name_members: "s_members (snd (cmd_name env u a s)) = s_members s"
  using claim_members [of "ce_new_id env" "ce_now env" u]
  by (auto simp: cmd_name_def split: option.splits prod.splits sum.splits) (metis snd_conv)+

lemma cmd_unlink_members: "s_members (snd (cmd_unlink env u a s)) = s_members s"
  using mint_unlink_code_members [of "ce_code env" "ce_now env" u s]
    unlink_with_code_members [of "ce_now env" u _ s] unlink_members [of "ce_now env" u _ s]
  by (auto simp: cmd_unlink_def split: option.splits prod.splits sum.splits) (metis snd_conv)+

lemma cmd_mint_members: "s_members (snd (cmd_link env u None s)) = s_members s"
  using mint_code_members [of "ce_new_id env" "ce_code env" "ce_now env" u s]
  by (auto simp: cmd_link_def split: prod.splits sum.splits)

lemma run_verb_members:
  "v \<notin> {''/add'', ''/remove'', ''/ban'', ''/unban''} \<Longrightarrow> \<not> (v = ''/link'' \<and> a \<noteq> None) \<Longrightarrow>
   s_members (snd (run_verb cfg uc env u g r v a s)) = s_members s"
  by (auto simp: run_verb_def cmd_name_members cmd_unlink_members cmd_mint_members)

end
