(* ===== verification/Hub_Facts.thy ===== *)
theory Hub_Facts
  imports Hub_Core Command_Facts
begin

text \<open>
  What the reflection core guarantees: whom a message reaches, that a ban is final, that
  nothing unverified or unauthorised is stored, that authors cannot be forged, and that what
  federation delivers is ingested exactly once, in whatever order and however often it comes.
\<close>

section \<open>Authorisation\<close>

lemma authorise_iff:
  "fst (authorise now g u s) \<longleftrightarrow>
     (case get_role (g_id g) u s of
        Some r \<Rightarrow> r \<noteq> ROLE_BANNED
      | None \<Rightarrow> is_peer_member (g_id g) u s \<or> g_acl g = ACL_PUBLIC)"
  by (auto simp: authorise_def split: option.splits role.splits)

lemma authorise_role:
  "get_role g' v (snd (authorise now g u s)) =
     (if g' = g_id g \<and> v = u \<and> get_role (g_id g) u s = None \<and>
        \<not> is_peer_member (g_id g) u s \<and> g_acl g = ACL_PUBLIC
      then Some ROLE_MEMBER else get_role g' v s)"
  by (auto simp: authorise_def split: option.splits role.splits)

lemma authorise_frame [simp]:
  "s_messages (snd (authorise now g u s)) = s_messages s" "s_egress (snd (authorise now g u s)) = s_egress s"
  "s_adoptions (snd (authorise now g u s)) = s_adoptions s" "s_groups (snd (authorise now g u s)) = s_groups s"
  "s_personas (snd (authorise now g u s)) = s_personas s" "s_identities (snd (authorise now g u s)) = s_identities s"
  by (auto simp: authorise_def split: option.splits role.splits)

section \<open>One new message\<close>

lemma store_and_fan_out_known:
  "has_message (m_hash r) s \<Longrightarrow> store_and_fan_out now r s = ((False, 0), s)"
  by (simp add: store_and_fan_out_def store_and_enqueue_known)

lemma store_and_fan_out_new:
  assumes "store_ok s" and "\<not> has_message (m_hash r) s"
  shows "fst (store_and_fan_out now r s) = (True, card (set (recipients (m_group r) s) - {m_sender r}))"
    and "get_message (m_hash r) (snd (store_and_fan_out now r s)) = Some r"
    and "is_queued u h (snd (store_and_fan_out now r s)) \<longleftrightarrow>
      is_queued u h s \<or> (h = m_hash r \<and> u \<in> set (recipients (m_group r) s) \<and> u \<noteq> m_sender r)"
proof -
  have ok: "messages_ok s"
    using assms(1) by (simp add: store_ok_def)
  have "set (filter (\<lambda>u. u \<noteq> m_sender r) xs) = set xs - {m_sender r}" for xs
    by auto
  then show "fst (store_and_fan_out now r s) = (True, card (set (recipients (m_group r) s) - {m_sender r}))"
    unfolding store_and_fan_out_def store_and_enqueue_result [OF ok assms(2)] by simp
  show "get_message (m_hash r) (snd (store_and_fan_out now r s)) = Some r"
    using assms(2) by (simp add: store_and_fan_out_def get_message_store_and_enqueue)
  show "is_queued u h (snd (store_and_fan_out now r s)) \<longleftrightarrow>
      is_queued u h s \<or> (h = m_hash r \<and> u \<in> set (recipients (m_group r) s) \<and> u \<noteq> m_sender r)"
    unfolding store_and_fan_out_def is_queued_store_and_enqueue [OF ok assms(2)] by auto
qed

lemma has_message_fan_out:
  "has_message h (snd (store_and_fan_out now r s)) \<longleftrightarrow> has_message h s \<or> h = m_hash r"
  by (simp add: store_and_fan_out_def has_message_store_and_enqueue)

lemma store_and_fan_out_frame [simp]:
  "s_groups (snd (store_and_fan_out now r s)) = s_groups s"
  "s_members (snd (store_and_fan_out now r s)) = s_members s"
  "s_adoptions (snd (store_and_fan_out now r s)) = s_adoptions s"
  by (simp_all add: store_and_fan_out_def)

text \<open>The stored-message path is a deduplicating sink for whoever feeds it.\<close>

interpretation hub_log: dedup_sink store_ok "\<lambda>s h. has_message h s" m_hash
  "\<lambda>r s. (fst (fst (store_and_fan_out now r s)), snd (store_and_fan_out now r s))" for now
  by unfold_locales
    (auto simp: store_and_fan_out_known store_and_fan_out_new(1) has_message_fan_out
      store_ok_store_and_fan_out)

lemma ingest_is_log:
  "ingest_federated env xs s = hub_log.ingest (ce_now env)
     (map (federated_record env) (filter (\<lambda>x. get_group (fst x) s \<noteq> None) xs)) s"
proof (induction xs arbitrary: s)
  case (Cons x xs)
  let ?r = "store_and_fan_out (ce_now env) (federated_record env x) s"
  have "get_group g (snd ?r) = get_group g s" for g
    by (simp add: get_group_def)
  then show ?case
    using Cons.IH [of s] Cons.IH [of "snd ?r"] by (cases ?r) (auto simp: case_prod_beta Let_def)
qed simp

text \<open>The effect of a batch: exactly the new hashes of the groups hosted here are counted and known
  afterwards, and a replay does nothing.\<close>

definition offered :: "hub_env \<Rightarrow> (string \<times> bytes \<times> time \<times> bytes) list \<Rightarrow> store \<Rightarrow> bytes set" where
  "offered env xs s = (\<lambda>x. m_hash (federated_record env x)) ` {x \<in> set xs. get_group (fst x) s \<noteq> None}"

lemma hub_log_groups: "s_groups (snd (hub_log.ingest now rs s)) = s_groups s"
  by (induction rs arbitrary: s) (simp_all add: case_prod_beta Let_def)

lemma ingest_federated_effect:
  assumes "store_ok s"
  shows "fst (ingest_federated env xs s) = card (offered env xs s - Collect (\<lambda>h. has_message h s))"
    and "has_message h (snd (ingest_federated env xs s)) \<longleftrightarrow> has_message h s \<or> h \<in> offered env xs s"
    and "ingest_federated env xs (snd (ingest_federated env xs s)) = (0, snd (ingest_federated env xs s))"
    and "s_groups (snd (ingest_federated env xs s)) = s_groups s"
proof -
  define rs where "rs = map (federated_record env) (filter (\<lambda>x. get_group (fst x) s \<noteq> None) xs)"
  define s1 where "s1 = snd (hub_log.ingest (ce_now env) rs s)"
  have hs: "m_hash ` set rs = offered env xs s"
    unfolding offered_def rs_def by force
  have "get_group g s1 = get_group g s" for g
    using hub_log_groups by (simp add: s1_def get_group_def)
  then have here: "ingest_federated env xs s = hub_log.ingest (ce_now env) rs s"
    and again: "ingest_federated env xs s1 = hub_log.ingest (ce_now env) rs s1"
    by (simp_all add: ingest_is_log rs_def)
  show "fst (ingest_federated env xs s) = card (offered env xs s - Collect (\<lambda>h. has_message h s))"
    using hub_log.ingest_count [OF assms, where now = "ce_now env" and rs = rs] by (simp add: here hs)
  show "has_message h (snd (ingest_federated env xs s)) \<longleftrightarrow> has_message h s \<or> h \<in> offered env xs s"
    using hub_log.known_ingest [OF assms, where now = "ce_now env" and rs = rs and h = h] by (simp add: here hs)
  show "ingest_federated env xs (snd (ingest_federated env xs s)) = (0, snd (ingest_federated env xs s))"
    using hub_log.ingest_replay [OF assms, where now = "ce_now env" and rs = rs] again
    by (simp add: here s1_def)
  show "s_groups (snd (ingest_federated env xs s)) = s_groups s"
    by (simp add: here hub_log_groups)
qed

section \<open>Commands and the message log\<close>

lemma add_roles_messages [simp]:
  "s_messages (add_roles u now roles s) = s_messages s" "s_egress (add_roles u now roles s) = s_egress s"
  unfolding add_roles_def by (induction roles arbitrary: s; force)+

lemma registry_messages:
  "s_messages (snd (claim i now u name s)) = s_messages s" "s_egress (snd (claim i now u name s)) = s_egress s"
  "s_messages (snd (mint_code i c now u s)) = s_messages s" "s_egress (snd (mint_code i c now u s)) = s_egress s"
  "s_messages (snd (join now u c s)) = s_messages s" "s_egress (snd (join now u c s)) = s_egress s"
  "s_messages (snd (mint_unlink_code c now u s)) = s_messages s" "s_egress (snd (mint_unlink_code c now u s)) = s_egress s"
  "s_messages (snd (unlink now u t s)) = s_messages s" "s_egress (snd (unlink now u t s)) = s_egress s"
  by (auto simp: claim_def mint_code_def join_def mint_unlink_code_def unlink_def Let_def
      create_persona_def set_persona_name_def create_link_code_def create_unlink_code_def
      claim_link_code_def unlink_identity_def link_identity_def put_identity_def case_prod_beta
      split: sum.splits option.splits store_error.splits if_splits)

lemma unlink_with_code_messages:
  "s_messages (snd (unlink_with_code now u c s)) = s_messages s"
  "s_egress (snd (unlink_with_code now u c s)) = s_egress s"
  by (auto simp: unlink_with_code_def case_prod_beta Let_def registry_messages claim_unlink_code_def
      split: option.splits)

lemma moderate_messages:
  "s_messages (snd (moderate now g u r v a s)) = s_messages s"
  "s_egress (snd (moderate now g u r v a s)) = s_egress s"
  by (auto simp: moderate_def Let_def remove_member_def split: option.splits sum.splits admin_error.splits)

lemma persona_cmd_messages:
  "s_messages (snd (cmd_name env u a s)) = s_messages s" "s_egress (snd (cmd_name env u a s)) = s_egress s"
  "s_messages (snd (cmd_link env u a s)) = s_messages s" "s_egress (snd (cmd_link env u a s)) = s_egress s"
  "s_messages (snd (cmd_unlink env u a s)) = s_messages s" "s_egress (snd (cmd_unlink env u a s)) = s_egress s"
  using registry_messages [where u = u] unlink_with_code_messages [where u = u]
  by (auto simp: cmd_name_def cmd_link_def cmd_unlink_def split: option.splits prod.splits sum.splits)
     (metis snd_conv)+

lemma run_verb_messages:
  "s_messages (snd (run_verb cfg uc env u g r v a s)) = s_messages s"
  "s_egress (snd (run_verb cfg uc env u g r v a s)) = s_egress s"
  by (simp_all add: run_verb_def persona_cmd_messages moderate_messages)

lemma handle_command_messages:
  "s_messages (snd (snd (handle_command cfg env g u msg a r uc s))) = s_messages s"
  "s_egress (snd (snd (handle_command cfg env g u msg a r uc s))) = s_egress s"
  by (cases rule: handle_command_cases [of cfg env g u msg a r uc s];
      simp add: execute_store run_verb_messages)+

lemma try_command_messages:
  "s_messages (h_store (snd (try_command cfg env g m a r h))) = s_messages (h_store h)"
  "s_egress (h_store (snd (try_command cfg env g m a r h))) = s_egress (h_store h)"
  by (auto simp: try_command_def case_prod_beta Let_def handle_command_messages split: option.splits)

lemma store_ok_try_command:
  "store_ok (h_store h) \<Longrightarrow> store_ok (h_store (snd (try_command cfg env g m a r h)))"
  by (auto simp: try_command_def case_prod_beta Let_def store_ok_handle_command split: option.splits)

lemma try_command_not_taken:
  "\<not> fst (try_command cfg env g m a r h) \<Longrightarrow> snd (try_command cfg env g m a r h) = h"
proof (cases "h_commands h")
  case (Some uc)
  assume "\<not> fst (try_command cfg env g m a r h)"
  then show ?thesis
    using Some
    by (cases rule: handle_command_cases [of cfg "cmd_env.truncate env" g "x_source m"
          "he_decode env (x_content m)" a r uc "h_store h"])
      (auto simp: try_command_def case_prod_beta Let_def)
qed (simp add: try_command_def)

section \<open>Inbound messages\<close>

lemma store_ok_handle_inbound:
  "store_ok (h_store h) \<Longrightarrow> store_ok (h_store (handle_inbound cfg env m h))"
proof -
  assume ok: "store_ok (h_store h)"
  have a: "store_ok (snd (authorise now g u (h_store h)))" for now g u
    using ok by (rule store_ok_authorise)
  show ?thesis
    using ok a
    by (auto simp: handle_inbound_eq hold_unverified_def case_prod_beta Let_def
        intro!: store_ok_try_command store_ok_store_and_fan_out split: option.splits)
qed

text \<open>What is not verified changes no table; what is not authorised changes no message table.\<close>

lemma unverified_inert:
  "\<not> x_valid m \<Longrightarrow> h_store (handle_inbound cfg env m h) = h_store h"
  by (auto simp: handle_inbound_eq hold_unverified_def split: option.splits)

lemma unauthorised_not_stored:
  assumes "group_for_hash (x_destination m) (ce_dests env) = Some gid" and "get_group gid (h_store h) = Some g"
    and "\<not> fst (authorise (ce_now env) g (x_source m) (h_store h))"
  shows "s_messages (h_store (handle_inbound cfg env m h)) = s_messages (h_store h)"
    and "s_egress (h_store (handle_inbound cfg env m h)) = s_egress (h_store h)"
  using assms
  by (auto simp: handle_inbound_eq hold_unverified_def case_prod_beta Let_def try_command_messages)

lemma get_group_id: "get_group gid s = Some g \<Longrightarrow> g_id g = gid"
  by (auto simp: get_group_def dest: sql_lookup_SomeD)

text \<open>A verified message from an authorised sender that is no command, and one that can be packed too.\<close>

definition accepted :: "hub_config \<Rightarrow> hub_env \<Rightarrow> lxm \<Rightarrow> hub \<Rightarrow> string \<Rightarrow> group_record \<Rightarrow> bool" where
  "accepted cfg env m h gid g \<longleftrightarrow>
     group_for_hash (x_destination m) (ce_dests env) = Some gid \<and> get_group gid (h_store h) = Some g \<and>
     x_valid m \<and> fst (authorise (ce_now env) g (x_source m) (h_store h)) \<and>
     (h_commands h = None \<or> \<not> cmd_enabled (commands_cfg cfg) \<or>
      verb_of (he_decode env (x_content m)) = None)"

definition posted :: "hub_config \<Rightarrow> hub_env \<Rightarrow> lxm \<Rightarrow> hub \<Rightarrow> string \<Rightarrow> group_record \<Rightarrow> bool" where
  "posted cfg env m h gid g \<longleftrightarrow> accepted cfg env m h gid g \<and> he_packable env m"

lemma accepted_inbound:
  assumes "accepted cfg env m h gid g"
  shows "inbound cfg env m h =
    (let s1 = snd (authorise (ce_now env) g (x_source m) (h_store h))
     in (he_packable env m, h\<lparr>h_store := if he_packable env m
       then snd (store_and_fan_out (ce_now env) (inbound_record cfg env gid m) s1) else s1\<rparr>))"
proof -
  let ?h1 = "h\<lparr>h_store := snd (authorise (ce_now env) g (x_source m) (h_store h))\<rparr>"
  have "try_command cfg env gid m True r ?h1 = (False, ?h1)" for r
  proof (cases "h_commands h")
    case (Some uc)
    then have "handle_command cfg (cmd_env.truncate env) gid (x_source m) (he_decode env (x_content m))
        True r uc (h_store ?h1) = (False, uc, h_store ?h1)"
      using assms by (auto simp: accepted_def handle_command_def)
    then show ?thesis
      using Some by (simp add: try_command_def)
  qed (simp add: try_command_def)
  then show ?thesis
    using assms by (simp add: accepted_def inbound_def case_prod_beta Let_def)
qed

lemma posted_store:
  assumes "posted cfg env m h gid g"
  shows "h_store (handle_inbound cfg env m h) =
    snd (store_and_fan_out (ce_now env) (inbound_record cfg env gid m)
      (snd (authorise (ce_now env) g (x_source m) (h_store h))))"
  using assms accepted_inbound [of cfg env m h gid g] by (simp add: posted_def handle_inbound_def Let_def)

lemma inbound_record_fields [simp]:
  "m_group (inbound_record cfg env gid m) = gid" "m_sender (inbound_record cfg env gid m) = x_source m"
  "m_time (inbound_record cfg env gid m) = x_time m"
  "m_payload (inbound_record cfg env gid m) =
     he_pack env (x_time m, x_title m, x_content m, sanitise_fields cfg (x_fields m))"
  by (simp_all add: inbound_record_def Let_def)

section \<open>Attribution\<close>

lemma sanitise_fields_lookup [simp]:
  "map_of (sanitise_fields cfg fs) k = (if k = author_field cfg then None else map_of fs k)"
  by (simp add: sanitise_fields_def)

text \<open>The reflection of a stored message names its sender, whatever the fields of the original
  said, and keeps every other field.\<close>

lemma reflection_of_inbound:
  assumes "he_unpack env (m_payload (inbound_record cfg env gid m)) =
      Some (x_time m, x_title m, x_content m, sanitise_fields cfg (x_fields m))"
    and "reflection_payload cfg env (inbound_record cfg env gid m) hub_hash s = Some (title, content, fs)"
  shows "map_of fs (author_field cfg) = Some (VDict [(VStr ''author'', VBytes (x_source m)), (VStr ''group'', VStr gid),
      (VStr ''hub'', VBytes hub_hash),
      (VStr ''name'', case display_name_for (x_source m) s of None \<Rightarrow> VNone | Some n \<Rightarrow> VStr n)])"
    and "k \<noteq> author_field cfg \<Longrightarrow> map_of fs k = map_of (x_fields m) k"
    and "title = x_title m"
    and "content = (if author_prefix_in_content cfg
       then utf8 ((case display_name_for (x_source m) s of
           None \<Rightarrow> he_pretty env (x_source m) | Some n \<Rightarrow> if n = '''' then he_pretty env (x_source m) else n) @ '': '')
       else []) @ x_content m"
  using assms by (auto simp: reflection_payload_def author_metadata_def Let_def simp del: inbound_record_fields(4)
      split: if_splits cong: option.case_cong if_cong)

section \<open>Hashes of messages\<close>

lemma message_hash_inj:
  assumes eq: "message_hash sha dbl gid u t p = message_hash sha dbl gid' u' t' p'"
    and sha: "\<forall>x. length (sha x) = 32"
      "inj_on sha {utf8 gid, utf8 gid', sha (utf8 gid) @ u @ dbl t @ p, sha (utf8 gid') @ u' @ dbl t' @ p'}"
    and dbl: "length (dbl t) = 8" "length (dbl t') = 8" "dbl t = dbl t' \<Longrightarrow> t = t'"
    and len: "length u = length u'"
  shows "utf8 gid = utf8 gid' \<and> u = u' \<and> t = t' \<and> p = p'"
proof -
  have "sha (utf8 gid) @ u @ dbl t @ p = sha (utf8 gid') @ u' @ dbl t' @ p'"
    using eq sha(2) unfolding message_hash_def group_hash_def inj_on_def by blast
  then have g: "sha (utf8 gid) = sha (utf8 gid')" and rest: "u @ dbl t @ p = u' @ dbl t' @ p'"
    using sha(1) by simp_all
  have "utf8 gid = utf8 gid'"
    using g sha(2) unfolding inj_on_def by blast
  moreover have "u = u'" and tail: "dbl t @ p = dbl t' @ p'"
    using rest len by simp_all
  moreover have "dbl t = dbl t'" "p = p'"
    using tail dbl(1,2) by simp_all
  ultimately show ?thesis
    using dbl(3) by blast
qed

section \<open>Held messages\<close>

lemma inbound_handle: "snd (inbound cfg env m h) = handle_inbound cfg env m h"
  by (simp add: handle_inbound_def)

lemma store_ok_retry_held: "store_ok (h_store h) \<Longrightarrow> store_ok (h_store (snd (retry_held cfg env xs h)))"
  by (induction xs arbitrary: h) (simp_all add: Let_def case_prod_beta inbound_handle store_ok_handle_inbound)

lemma store_ok_retry_unverified: "store_ok (h_store h) \<Longrightarrow> store_ok (h_store (snd (retry_unverified cfg env h)))"
  using store_ok_retry_held [of "h\<lparr>h_unverified := []\<rparr>" cfg env "h_unverified h"]
  by (auto simp: retry_unverified_def split: prod.split option.split)

lemma handle_inbound_held: "x_valid m \<Longrightarrow> h_unverified (handle_inbound cfg env m h) = h_unverified h"
  by (auto simp: handle_inbound_eq try_command_def case_prod_beta Let_def split: option.splits)

lemma retry_held_unverified: "h_unverified (snd (retry_held cfg env xs h)) = h_unverified h"
  by (induction xs arbitrary: h) (simp_all add: Let_def case_prod_beta inbound_handle handle_inbound_held)

lemma retry_held_pending:
  "fst (retry_held cfg env xs h) = Some ys \<Longrightarrow>
     ys = map (\<lambda>x. if hd_next x \<le> ce_now env
        then x\<lparr>hd_next := ce_now env + path_request_grace_sec (egress_cfg cfg)\<rparr> else x)
       (filter (\<lambda>x. ce_now env < hd_deadline x \<and> \<not> he_known env (hd_source x)) xs)"
  by (induction xs arbitrary: h ys) (auto simp: Let_def case_prod_beta split: if_splits)

text \<open>After a retry that returns exactly the unexpired messages of still unknown senders are held, after one
  that raises none.\<close>

lemma retry_unverified_held:
  "map hd_packed (h_unverified (snd (retry_unverified cfg env h))) =
     (if fst (retry_unverified cfg env h)
      then map hd_packed (filter (\<lambda>x. ce_now env < hd_deadline x \<and> \<not> he_known env (hd_source x)) (h_unverified h))
      else [])"
proof -
  have same: "map hd_packed (map (\<lambda>x. if P x then x\<lparr>hd_next := t\<rparr> else x) ys) = map hd_packed ys" for P t ys
    by simp
  obtain r h1 where r: "retry_held cfg env (h_unverified h) (h\<lparr>h_unverified := []\<rparr>) = (r, h1)"
    by (cases "retry_held cfg env (h_unverified h) (h\<lparr>h_unverified := []\<rparr>)")
  have h1: "h_unverified h1 = []"
    using retry_held_unverified [of cfg env "h_unverified h" "h\<lparr>h_unverified := []\<rparr>"] by (simp add: r)
  show ?thesis
  proof (cases r)
    case (Some ys)
    then show ?thesis
      using retry_held_pending [of cfg env "h_unverified h" "h\<lparr>h_unverified := []\<rparr>" ys] same
      by (simp add: retry_unverified_def r h1)
  qed (simp add: retry_unverified_def r h1)
qed

lemma retry_held_idle:
  assumes "\<forall>y \<in> set xs. hd_deadline y \<le> ce_now env \<or> \<not> he_known env (hd_source y)"
  shows "\<exists>rq. snd (retry_held cfg env (xs @ ys) h) = snd (retry_held cfg env ys (h\<lparr>h_requests := rq\<rparr>)) \<and>
    (fst (retry_held cfg env (xs @ ys) h) = None \<longleftrightarrow> fst (retry_held cfg env ys (h\<lparr>h_requests := rq\<rparr>)) = None)"
  using assms
proof (induction xs arbitrary: h)
  case Nil
  show ?case
    by (rule exI [of _ "h_requests h"]) simp
next
  case (Cons x xs)
  define h1 where "h1 = (if hd_deadline x \<le> ce_now env \<or> \<not> hd_next x \<le> ce_now env then h
    else h\<lparr>h_requests := request_path env (hd_source x) (h_requests h)\<rparr>)"
  have upd: "h1\<lparr>h_requests := rq\<rparr> = h\<lparr>h_requests := rq\<rparr>" for rq
    by (simp add: h1_def)
  have "snd (retry_held cfg env ((x # xs) @ ys) h) = snd (retry_held cfg env (xs @ ys) h1) \<and>
      (fst (retry_held cfg env ((x # xs) @ ys) h) = None \<longleftrightarrow> fst (retry_held cfg env (xs @ ys) h1) = None)"
    using Cons.prems by (cases "hd_deadline x \<le> ce_now env") (simp_all add: h1_def Let_def case_prod_beta)
  with Cons.IH [of h1] Cons.prems show ?case
    unfolding upd by simp
qed

end
