(* ===== verification/Federation.thy ===== *)
theory Federation
  imports Merkle Hub_Facts Persona_Facts
begin

text \<open>
  Anti-entropy between hubs, from \<open>lxmf_hub/federation.py\<close>: the request handlers a hub
  offers its peers, and the client side of one sync round. RNS carries requests, answers and
  resources; it is the argument \<open>net\<close> of the client: what the remote side, in whatever state it
  is, answers to a request and which resources it pushes before the answer is used. The clock is
  read once per round.
\<close>

section \<open>Requests and answers\<close>

datatype request =
    Req_Roots int int int "string list option"
  | Req_Tree string int int "int list"
  | Req_Bucket string int "int list"
  | Req_Fetch string "bytes list"
  | Req_State int
  | Req_Personas int
  | Req_Malformed string

text \<open>\<open>Rs_None\<close>: the handler returned \<open>None\<close>, or the client got a false value of any shape.
  \<open>Rs_State_Cut\<close> and \<open>Rs_Personas_Cut\<close>: an answer of this version (for the personas: a triple)
  whose rest cannot be taken apart. \<open>Rs_Other\<close>: any other true value that is not of the shape its
  path answers with; taking it apart raises. The theory \<open>Wire\<close> reads Python values as these.\<close>

datatype response =
    Rs_None
  | Rs_Roots int "(string \<times> (int \<times> bytes) list) list option"
  | Rs_Nodes "(int \<times> bytes) list"
  | Rs_Buckets "(int \<times> bytes list) list"
  | Rs_Count nat
  | Rs_State int string "(string \<times> bytes \<times> string) list" "(string \<times> bytes list) list"
  | Rs_State_Cut
  | Rs_Personas int "persona_record list" "persona_identity list"
  | Rs_Personas_Cut
  | Rs_Other

text \<open>A concluded resource: not complete, not readable, or a type with its records. The flag is
  false if a record after those cannot be taken apart.\<close>

datatype resource =
    Incomplete
  | Unreadable
  | Resource int "(string \<times> bytes \<times> time \<times> bytes) list" bool

datatype fed_error =
    Store_Error store_error
  | OS_Error string
  | Zero_Division
  | Bad_Response

definition PROTOCOL_VERSION :: int where "PROTOCOL_VERSION = 1"
definition RESOURCE_MESSAGES :: int where "RESOURCE_MESSAGES = 1"
definition MAX_PERSONAS_PER_RESPONSE :: nat where "MAX_PERSONAS_PER_RESPONSE = 4096"
definition MAX_IDENTITIES_PER_RESPONSE :: nat where
  "MAX_IDENTITIES_PER_RESPONSE = MAX_PERSONAS_PER_RESPONSE * 4"
definition MAX_EPOCHS_PER_RESPONSE :: nat where "MAX_EPOCHS_PER_RESPONSE = 512"
definition MAX_NODES_PER_REQUEST :: nat where "MAX_NODES_PER_REQUEST = 1024"
definition MAX_BUCKETS_PER_REQUEST :: nat where "MAX_BUCKETS_PER_REQUEST = 64"

text \<open>\<open>fe_peer_of\<close>: the federation destination of an identity; \<open>fe_link_up\<close>: the link came up
  within its timeout.\<close>

record fed_env = hub_env +
  fe_peer_of :: "bytes \<Rightarrow> bytes"
  fe_link_up :: "bytes \<Rightarrow> bool"
  fe_text :: "fed_error \<Rightarrow> string"

text \<open>\<open>_allowed\<close> is the set of \<open>_peers\<close>.\<close>

record engine =
  en_peers :: "bytes list"
  en_links :: "bytes list"

definition new_engine :: "hub_config \<Rightarrow> store_error + engine" where
  "new_engine cfg =
     (case peer_hashes (federation_cfg cfg) of
        Inl e \<Rightarrow> Inl e
      | Inr ps \<Rightarrow> Inr \<lparr>en_peers = ps, en_links = []\<rparr>)"

definition inbound_link_established :: "bytes \<Rightarrow> engine \<Rightarrow> engine" where
  "inbound_link_established link en = en\<lparr>en_links := List.insert link (en_links en)\<rparr>"

definition inbound_link_closed :: "bytes \<Rightarrow> engine \<Rightarrow> engine" where
  "inbound_link_closed link en = en\<lparr>en_links := remove1 link (en_links en)\<rparr>"

definition peer_allowed :: "engine \<Rightarrow> fed_env \<Rightarrow> bytes option \<Rightarrow> bool" where
  "peer_allowed en env who =
     (case who of None \<Rightarrow> False | Some identity \<Rightarrow> fe_peer_of env identity \<in> set (en_peers en))"

section \<open>Local state\<close>

text \<open>A comprehension whose element expression may raise.\<close>

fun traverse :: "('a \<Rightarrow> 'e + 'b) \<Rightarrow> 'a list \<Rightarrow> 'e + 'b list" where
  "traverse f [] = Inr []"
| "traverse f (x # xs) =
     (case f x of
        Inl e \<Rightarrow> Inl e
      | Inr y \<Rightarrow> (case traverse f xs of Inl e \<Rightarrow> Inl e | Inr ys \<Rightarrow> Inr (y # ys)))"

definition local_group_ids :: "store \<Rightarrow> string list" where
  "local_group_ids s = map g_id (list_groups s)"

definition parameters_match :: "hub_config \<Rightarrow> int \<Rightarrow> int \<Rightarrow> bool" where
  "parameters_match cfg es depth \<longleftrightarrow>
     es = epoch_seconds (federation_cfg cfg) \<and> depth = merkle_depth (federation_cfg cfg)"

definition oldest_epoch :: "hub_config \<Rightarrow> time \<Rightarrow> fed_error + int" where
  "oldest_epoch cfg now =
     (let fed = federation_cfg cfg
      in if epoch_seconds fed = 0 then Inl Zero_Division
         else Inr (py_int (now / real_of_int (epoch_seconds fed)) - retention_epochs fed))"

definition tree :: "hub_config \<Rightarrow> (bytes \<Rightarrow> bytes) \<Rightarrow> string \<Rightarrow> int \<Rightarrow> store \<Rightarrow> fed_error + prefix_tree" where
  "tree cfg H gid epoch s =
     (case make_tree H (epoch_hashes gid epoch (epoch_seconds (federation_cfg cfg)) s)
        (merkle_depth (federation_cfg cfg)) of
        Inl e \<Rightarrow> Inl (Store_Error e)
      | Inr t \<Rightarrow> Inr t)"

definition epoch_roots ::
    "hub_config \<Rightarrow> fed_env \<Rightarrow> string \<Rightarrow> store \<Rightarrow> fed_error + (int \<times> bytes) list" where
  "epoch_roots cfg env gid s =
     (let es = epoch_seconds (federation_cfg cfg)
      in case oldest_epoch cfg (ce_now env) of
           Inl e \<Rightarrow> Inl e
         | Inr oldest \<Rightarrow>
             let epochs = populated_epochs gid es (real_of_int (oldest * es)) s;
                 latest = drop (length epochs - MAX_EPOCHS_PER_RESPONSE) epochs
             in traverse (\<lambda>epoch. case tree cfg (he_sha env) gid epoch s of
                  Inl e \<Rightarrow> Inl e | Inr t \<Rightarrow> Inr (epoch, root t)) latest)"

section \<open>Request handlers\<close>

definition serve_roots ::
    "hub_config \<Rightarrow> engine \<Rightarrow> fed_env \<Rightarrow> bytes option \<Rightarrow> int \<Rightarrow> int \<Rightarrow> int \<Rightarrow> string list option \<Rightarrow> store
     \<Rightarrow> fed_error + response" where
  "serve_roots cfg en env who version es depth groups s =
     (if \<not> peer_allowed en env who then Inr Rs_None
      else if version \<noteq> PROTOCOL_VERSION then Inr (Rs_Roots PROTOCOL_VERSION None)
      else if \<not> parameters_match cfg es depth then Inr (Rs_Roots PROTOCOL_VERSION None)
      else
        let wanted = (\<lambda>gid. case groups of None \<Rightarrow> True | Some gs \<Rightarrow> gs = [] \<or> gid \<in> set gs)
        in case traverse (\<lambda>gid. case epoch_roots cfg env gid s of
                Inl e \<Rightarrow> Inl e | Inr roots \<Rightarrow> Inr (gid, roots))
             (filter wanted (local_group_ids s)) of
             Inl e \<Rightarrow> Inl e
           | Inr roots \<Rightarrow> Inr (Rs_Roots PROTOCOL_VERSION (Some roots)))"

definition serve_tree ::
    "hub_config \<Rightarrow> engine \<Rightarrow> fed_env \<Rightarrow> bytes option \<Rightarrow> string \<Rightarrow> int \<Rightarrow> int \<Rightarrow> int list \<Rightarrow> store
     \<Rightarrow> fed_error + response" where
  "serve_tree cfg en env who gid epoch level indices s =
     (if \<not> peer_allowed en env who then Inr Rs_None
      else case tree cfg (he_sha env) gid epoch s of
        Inl e \<Rightarrow> Inl e
      | Inr t \<Rightarrow>
          (case node_hashes t level (take MAX_NODES_PER_REQUEST indices) of
             Inl e \<Rightarrow> Inl (Store_Error e)
           | Inr nodes \<Rightarrow> Inr (Rs_Nodes nodes)))"

definition serve_bucket ::
    "hub_config \<Rightarrow> engine \<Rightarrow> fed_env \<Rightarrow> bytes option \<Rightarrow> string \<Rightarrow> int \<Rightarrow> int list \<Rightarrow> store
     \<Rightarrow> fed_error + response" where
  "serve_bucket cfg en env who gid epoch indices s =
     (if \<not> peer_allowed en env who then Inr Rs_None
      else case tree cfg (he_sha env) gid epoch s of
        Inl e \<Rightarrow> Inl e
      | Inr t \<Rightarrow> Inr (Rs_Buckets (dict_of (map (\<lambda>i. (i, bucket_members t i))
            (take MAX_BUCKETS_PER_REQUEST indices)))))"

definition wire_record :: "message_record \<Rightarrow> string \<times> bytes \<times> time \<times> bytes" where
  "wire_record r = (m_group r, m_sender r, m_time r, m_payload r)"

definition serve_fetch ::
    "hub_config \<Rightarrow> engine \<Rightarrow> fed_env \<Rightarrow> bytes \<Rightarrow> bytes option \<Rightarrow> string \<Rightarrow> bytes list \<Rightarrow> store
     \<Rightarrow> response \<times> resource list" where
  "serve_fetch cfg en env link who gid hashes s =
     (if \<not> peer_allowed en env who then (Rs_None, [])
      else if link \<notin> set (en_links en) then (Rs_Count 0, [])
      else
        let wanted = take (max_fetch_batch (federation_cfg cfg)) hashes;
            records = filter (\<lambda>r. m_group r = gid) (get_messages wanted s)
        in if records = [] then (Rs_Count 0, [])
           else (Rs_Count (length records),
                 [Resource RESOURCE_MESSAGES (map wire_record records) True]))"

definition serve_state ::
    "hub_config \<Rightarrow> engine \<Rightarrow> fed_env \<Rightarrow> bytes option \<Rightarrow> store \<Rightarrow> fed_error + response" where
  "serve_state cfg en env who s =
     (if \<not> peer_allowed en env who then Inr Rs_None
      else case traverse (\<lambda>g. case group_destination_hash (ce_dest_of env) (g_key g) of
              Inl e \<Rightarrow> Inl (Store_Error e) | Inr h \<Rightarrow> Inr (g_id g, h, g_acl g)) (list_groups s) of
        Inl e \<Rightarrow> Inl e
      | Inr groups \<Rightarrow> Inr (Rs_State PROTOCOL_VERSION (hub_name cfg) groups
          (map (\<lambda>g. (g_id g, map fst (list_members (g_id g) False s))) (list_groups s))))"

definition serve_personas :: "engine \<Rightarrow> fed_env \<Rightarrow> bytes option \<Rightarrow> store \<Rightarrow> response" where
  "serve_personas en env who s =
     (if \<not> peer_allowed en env who then Rs_None
      else
        let (personas, identities) = snapshot s
        in Rs_Personas PROTOCOL_VERSION (take MAX_PERSONAS_PER_RESPONSE personas)
             (take MAX_IDENTITIES_PER_RESPONSE identities))"

text \<open>The registered handlers. A request whose data \<open>_unpack_request\<close> refuses raises after the
  peer check.\<close>

definition serve ::
    "hub_config \<Rightarrow> engine \<Rightarrow> fed_env \<Rightarrow> bytes \<Rightarrow> bytes option \<Rightarrow> request \<Rightarrow> store
     \<Rightarrow> fed_error + response \<times> resource list" where
  "serve cfg en env link who req s =
     (let plain = (\<lambda>r. case r of Inl e \<Rightarrow> Inl e | Inr x \<Rightarrow> Inr (x, []))
      in case req of
           Req_Roots version es depth groups \<Rightarrow> plain (serve_roots cfg en env who version es depth groups s)
         | Req_Tree gid epoch level indices \<Rightarrow> plain (serve_tree cfg en env who gid epoch level indices s)
         | Req_Bucket gid epoch indices \<Rightarrow> plain (serve_bucket cfg en env who gid epoch indices s)
         | Req_Fetch gid hashes \<Rightarrow> Inr (serve_fetch cfg en env link who gid hashes s)
         | Req_State _ \<Rightarrow> plain (serve_state cfg en env who s)
         | Req_Personas _ \<Rightarrow> Inr (serve_personas en env who s, [])
         | Req_Malformed path \<Rightarrow>
             if \<not> peer_allowed en env who then Inr (Rs_None, [])
             else Inl (Store_Error (ValueError ''Malformed federation request'')))"

section \<open>The client's link\<close>

datatype reply =
    Answer response
  | Failed string

type_synonym 'p remote = "'p \<Rightarrow> request \<Rightarrow> reply \<times> resource list \<times> 'p"

text \<open>\<open>rd_ingested\<close> is \<open>SyncState.ingested\<close>.\<close>

record 'p round =
  rd_peer :: 'p
  rd_hub :: hub
  rd_ingested :: nat

definition rd_store :: "'p round \<Rightarrow> store" where
  "rd_store r = h_store (rd_hub r)"

definition rd_upd :: "(store \<Rightarrow> store) \<Rightarrow> 'p round \<Rightarrow> 'p round" where
  "rd_upd f r = r\<lparr>rd_hub := (rd_hub r)\<lparr>h_store := f (rd_store r)\<rparr>\<rparr>"

text \<open>\<open>_ingest_resource\<close>, the callback of a concluded resource.\<close>

definition ingest_resource :: "fed_env \<Rightarrow> resource \<Rightarrow> 'p round \<Rightarrow> 'p round" where
  "ingest_resource env res r =
     (case res of
        Incomplete \<Rightarrow> r
      | Unreadable \<Rightarrow> r
      | Resource ty records readable \<Rightarrow>
          if ty \<noteq> RESOURCE_MESSAGES then r
          else
            let (n, s) = ingest_federated (hub_env.truncate env) records (rd_store r);
                r1 = rd_upd (\<lambda>_. s) r
            in if readable then r1\<lparr>rd_ingested := rd_ingested r + n\<rparr> else r1)"

text \<open>\<open>_request\<close>. The flag says whether a resource concluded meanwhile.\<close>

definition ask :: "'p remote \<Rightarrow> fed_env \<Rightarrow> request \<Rightarrow> 'p round \<Rightarrow> reply \<times> bool \<times> 'p round" where
  "ask net env req r =
     (let (rep, pushed, p) = net (rd_peer r) req
      in (rep, pushed \<noteq> [], fold (ingest_resource env) pushed (r\<lparr>rd_peer := p\<rparr>)))"

section \<open>Walking the tree\<close>

fun walk ::
    "'p remote \<Rightarrow> fed_env \<Rightarrow> string \<Rightarrow> int \<Rightarrow> prefix_tree \<Rightarrow> int list \<Rightarrow> int list \<Rightarrow> 'p round
     \<Rightarrow> (fed_error + int list) \<times> 'p round" where
  "walk net env gid epoch t [] diverging r = (Inr diverging, r)"
| "walk net env gid epoch t (level # levels) diverging r =
     (let candidates = take MAX_NODES_PER_REQUEST (children_of diverging);
          (rep, _, r1) = ask net env (Req_Tree gid epoch level candidates) r
      in case rep of
           Failed e \<Rightarrow> (Inl (OS_Error e), r1)
         | Answer Rs_None \<Rightarrow> (Inr [], r1)
         | Answer (Rs_Nodes there) \<Rightarrow>
             if there = [] then (Inr [], r1)
             else
               (case node_hashes t level candidates of
                  Inl e \<Rightarrow> (Inl (Store_Error e), r1)
                | Inr here \<Rightarrow>
                    let diverging1 = diverging_nodes here there
                    in if diverging1 = [] then (Inr [], r1)
                       else walk net env gid epoch t levels diverging1 r1)
         | Answer _ \<Rightarrow> (Inl Bad_Response, r1))"

fun ask_buckets ::
    "'p remote \<Rightarrow> fed_env \<Rightarrow> string \<Rightarrow> int \<Rightarrow> prefix_tree \<Rightarrow> int list list \<Rightarrow> 'p round
     \<Rightarrow> (fed_error + bytes list) \<times> 'p round" where
  "ask_buckets net env gid epoch t [] r = (Inr [], r)"
| "ask_buckets net env gid epoch t (chunk # rest) r =
     (let (rep, _, r1) = ask net env (Req_Bucket gid epoch chunk) r;
          add = (\<lambda>found. case ask_buckets net env gid epoch t rest r1 of
             (Inl e, r2) \<Rightarrow> (Inl e, r2) | (Inr rest1, r2) \<Rightarrow> (Inr (found @ rest1), r2))
      in case rep of
           Failed e \<Rightarrow> (Inl (OS_Error e), r1)
         | Answer Rs_None \<Rightarrow> add []
         | Answer (Rs_Buckets there) \<Rightarrow>
             add (concat (map (\<lambda>(i, hs). filter (\<lambda>h. h \<notin> set (bucket_members t i)) hs) there))
         | Answer _ \<Rightarrow> (Inl Bad_Response, r1))"

definition missing_in_epoch ::
    "'p remote \<Rightarrow> fed_env \<Rightarrow> string \<Rightarrow> int \<Rightarrow> prefix_tree \<Rightarrow> 'p round
     \<Rightarrow> (fed_error + bytes list) \<times> 'p round" where
  "missing_in_epoch net env gid epoch t r =
     (case walk net env gid epoch t [1..int (t_depth t)] [0] r of
        (Inl e, r1) \<Rightarrow> (Inl e, r1)
      | (Inr diverging, r1) \<Rightarrow>
          ask_buckets net env gid epoch t (chunks MAX_BUCKETS_PER_REQUEST diverging) r1)"

section \<open>Fetching\<close>

fun fetch_batches ::
    "'p remote \<Rightarrow> fed_env \<Rightarrow> string \<Rightarrow> bytes list list \<Rightarrow> 'p round \<Rightarrow> (fed_error + unit) \<times> 'p round" where
  "fetch_batches net env gid [] r = (Inr (), r)"
| "fetch_batches net env gid (batch # rest) r =
     (let (rep, arrived, r1) = ask net env (Req_Fetch gid batch) r
      in case rep of
           Failed e \<Rightarrow> (Inl (OS_Error e), r1)
         | Answer Rs_None \<Rightarrow> fetch_batches net env gid rest r1
         | Answer (Rs_Count n) \<Rightarrow>
             if n = 0 \<or> arrived then fetch_batches net env gid rest r1 else (Inr (), r1)
         | Answer _ \<Rightarrow> (Inl Bad_Response, r1))"

definition fetch ::
    "hub_config \<Rightarrow> 'p remote \<Rightarrow> fed_env \<Rightarrow> string \<Rightarrow> bytes list \<Rightarrow> 'p round
     \<Rightarrow> (fed_error + nat) \<times> 'p round" where
  "fetch cfg net env gid hashes r =
     (let size = max_fetch_batch (federation_cfg cfg)
      in if size = 0 then (Inl (Store_Error (ValueError ''range() arg 3 must not be zero'')), r)
         else case fetch_batches net env gid (chunks size hashes) r of
           (Inl e, r1) \<Rightarrow> (Inl e, r1)
         | (Inr _, r1) \<Rightarrow> (Inr (rd_ingested r1 - rd_ingested r), r1))"

section \<open>Reconciling a group\<close>

fun reconcile_epochs ::
    "hub_config \<Rightarrow> 'p remote \<Rightarrow> fed_env \<Rightarrow> string \<Rightarrow> int \<Rightarrow> (int \<times> bytes) list \<Rightarrow> 'p round
     \<Rightarrow> (fed_error + nat) \<times> 'p round" where
  "reconcile_epochs cfg net env gid oldest [] r = (Inr 0, r)"
| "reconcile_epochs cfg net env gid oldest ((epoch, remote_root) # rest) r =
     (if epoch < oldest then reconcile_epochs cfg net env gid oldest rest r
      else case tree cfg (he_sha env) gid epoch (rd_store r) of
        Inl e \<Rightarrow> (Inl e, r)
      | Inr t \<Rightarrow>
          if root t = remote_root then reconcile_epochs cfg net env gid oldest rest r
          else
            (case missing_in_epoch net env gid epoch t r of
               (Inl e, r1) \<Rightarrow> (Inl e, r1)
             | (Inr missing, r1) \<Rightarrow>
                 if missing = [] then reconcile_epochs cfg net env gid oldest rest r1
                 else
                   (case fetch cfg net env gid missing r1 of
                      (Inl e, r2) \<Rightarrow> (Inl e, r2)
                    | (Inr n, r2) \<Rightarrow>
                        (case reconcile_epochs cfg net env gid oldest rest r2 of
                           (Inl e, r3) \<Rightarrow> (Inl e, r3)
                         | (Inr m, r3) \<Rightarrow> (Inr (n + m), r3)))))"

definition reconcile_group ::
    "hub_config \<Rightarrow> 'p remote \<Rightarrow> fed_env \<Rightarrow> string \<Rightarrow> (int \<times> bytes) list \<Rightarrow> 'p round
     \<Rightarrow> (fed_error + nat) \<times> 'p round" where
  "reconcile_group cfg net env gid roots r =
     (case oldest_epoch cfg (ce_now env) of
        Inl e \<Rightarrow> (Inl e, r)
      | Inr oldest \<Rightarrow> reconcile_epochs cfg net env gid oldest (sort_key fst roots) r)"

text \<open>The loop over the groups of the answer: the messages ingested and the groups that failed.\<close>

fun reconcile_all ::
    "hub_config \<Rightarrow> 'p remote \<Rightarrow> fed_env \<Rightarrow> string list \<Rightarrow> (string \<times> (int \<times> bytes) list) list \<Rightarrow> 'p round
     \<Rightarrow> (nat \<times> string list) \<times> 'p round" where
  "reconcile_all cfg net env here [] r = ((0, []), r)"
| "reconcile_all cfg net env here ((gid, roots) # rest) r =
     (if gid \<notin> set here then reconcile_all cfg net env here rest r
      else
        let (result, r1) = reconcile_group cfg net env gid roots r;
            ((n, failed), r2) = reconcile_all cfg net env here rest r1
        in case result of
             Inl e \<Rightarrow> ((n, gid # failed), r2)
           | Inr m \<Rightarrow> ((m + n, failed), r2))"

section \<open>Gossip and personas\<close>

definition exchange_state ::
    "'p remote \<Rightarrow> fed_env \<Rightarrow> bytes \<Rightarrow> 'p round \<Rightarrow> (fed_error + unit) \<times> 'p round" where
  "exchange_state net env peer r =
     (let (rep, _, r1) = ask net env (Req_State PROTOCOL_VERSION) r
      in case rep of
           Failed e \<Rightarrow> (Inr (), r1)
         | Answer Rs_None \<Rightarrow> (Inr (), r1)
         | Answer (Rs_State version name groups members) \<Rightarrow>
             if version \<noteq> PROTOCOL_VERSION then (Inr (), r1)
             else
               let r2 = rd_upd (record_peer_success peer (ce_now env)) r1;
                   (result, s) = record_peer_state peer name groups members (ce_now env) (rd_store r2)
               in (case result of Inl e \<Rightarrow> Inl (Store_Error e) | Inr _ \<Rightarrow> Inr (), rd_upd (\<lambda>_. s) r2)
         | Answer Rs_State_Cut \<Rightarrow> (Inl Bad_Response, rd_upd (record_peer_success peer (ce_now env)) r1)
         | Answer _ \<Rightarrow> (Inl Bad_Response, r1))"

text \<open>The owner's devices are told when a name is lost, if the command channel runs.\<close>

definition tell_losers :: "fed_env \<Rightarrow> losers \<Rightarrow> 'p round \<Rightarrow> 'p round" where
  "tell_losers env losers r =
     (if h_commands (rd_hub r) = None then r
      else fold (\<lambda>(p, lost). rd_upd (\<lambda>s. snd (notify_name_lost (ce_now env) (p_id p) lost s))) losers r)"

text \<open>An answer that is not a triple of this version is ignored, unless even that cannot be found
  out, and what reading the rows or merging them raises is logged.\<close>

definition exchange_personas ::
    "'p remote \<Rightarrow> fed_env \<Rightarrow> 'p round \<Rightarrow> (fed_error + unit) \<times> 'p round" where
  "exchange_personas net env r =
     (let (rep, _, r1) = ask net env (Req_Personas PROTOCOL_VERSION) r
      in case rep of
           Failed e \<Rightarrow> (Inr (), r1)
         | Answer Rs_None \<Rightarrow> (Inr (), r1)
         | Answer (Rs_Personas version personas identities) \<Rightarrow>
             if version \<noteq> PROTOCOL_VERSION then (Inr (), r1)
             else
               (case registry_merge (ce_now env) personas identities (rd_store r1) of
                  (Inl e, s) \<Rightarrow> (Inr (), rd_upd (\<lambda>_. s) r1)
                | (Inr losers, s) \<Rightarrow> (Inr (), tell_losers env losers (rd_upd (\<lambda>_. s) r1)))
         | Answer Rs_Personas_Cut \<Rightarrow> (Inr (), r1)
         | Answer _ \<Rightarrow> (Inl Bad_Response, r1))"

section \<open>One round\<close>

definition establish :: "fed_env \<Rightarrow> bytes \<Rightarrow> 'p round \<Rightarrow> bool \<times> 'p round" where
  "establish env peer r =
     (he_known env peer \<and> fe_link_up env peer,
      r\<lparr>rd_hub := (rd_hub r)\<lparr>h_requests :=
          request_path (hub_env.truncate env) peer (h_requests (rd_hub r))\<rparr>\<rparr>)"

definition failed_text :: "string list \<Rightarrow> string option" where
  "failed_text failed =
     (if failed = [] then None else Some (''could not reconcile: '' @ join_with '', '' (sort failed)))"

definition reconcile_round ::
    "hub_config \<Rightarrow> 'p remote \<Rightarrow> fed_env \<Rightarrow> bytes \<Rightarrow> 'p round \<Rightarrow> (fed_error + nat) \<times> 'p round" where
  "reconcile_round cfg net env peer r =
     (let fed = federation_cfg cfg;
          (rep, _, r1) = ask net env (Req_Roots PROTOCOL_VERSION (epoch_seconds fed) (merkle_depth fed) None) r;
          rejected = (Inr 0, rd_upd (record_peer_sync peer (Some ''peer rejected sync parameters'') (ce_now env)) r1)
      in case rep of
           Failed e \<Rightarrow> (Inl (OS_Error e), r1)
         | Answer Rs_None \<Rightarrow> rejected
         | Answer (Rs_Roots version None) \<Rightarrow> rejected
         | Answer (Rs_Roots version (Some roots)) \<Rightarrow>
             if version \<noteq> PROTOCOL_VERSION then rejected
             else
               let ((n, failed), r2) = reconcile_all cfg net env (local_group_ids (rd_store r1)) roots r1
               in (Inr n, rd_upd (record_peer_success peer (ce_now env))
                     (rd_upd (record_peer_sync peer (failed_text failed) (ce_now env)) r2))
         | Answer _ \<Rightarrow> (Inl Bad_Response, r1))"

definition sync_peer ::
    "hub_config \<Rightarrow> 'p remote \<Rightarrow> fed_env \<Rightarrow> bytes \<Rightarrow> 'p round \<Rightarrow> (fed_error + nat) \<times> 'p round" where
  "sync_peer cfg net env peer r =
     (let (up, r1) = establish env peer r
      in if \<not> up
         then (Inr 0, rd_upd (record_peer_sync peer (Some ''link could not be established'') (ce_now env)) r1)
         else
           (case exchange_state net env peer (r1\<lparr>rd_ingested := 0\<rparr>) of
              (Inl e, r2) \<Rightarrow> (Inl e, r2)
            | (Inr _, r2) \<Rightarrow>
                (case exchange_personas net env r2 of
                   (Inl e, r3) \<Rightarrow> (Inl e, r3)
                 | (Inr _, r3) \<Rightarrow> reconcile_round cfg net env peer r3)))"

text \<open>The loop in \<open>_run\<close>: what it waits before a pass, what it does with one peer, where what a round
  raises is recorded against the peer, and a pass over the peers. The \<open>k\<close>-th peer is asked when its
  turn comes, unless the hub was stopped by then.\<close>

definition INITIAL_SYNC_DELAY :: real where "INITIAL_SYNC_DELAY = 15"

definition sync_delay :: "hub_config \<Rightarrow> nat \<Rightarrow> real" where
  "sync_delay cfg passes =
     (let interval = sync_interval_sec (federation_cfg cfg)
      in if passes = 0 then min INITIAL_SYNC_DELAY interval else interval)"

definition sync_guarded ::
    "hub_config \<Rightarrow> 'p remote \<Rightarrow> fed_env \<Rightarrow> bytes \<Rightarrow> 'p round \<Rightarrow> 'p round" where
  "sync_guarded cfg net env peer r =
     (case sync_peer cfg net env peer r of
        (Inl e, r1) \<Rightarrow> rd_upd (record_peer_sync peer (Some (fe_text env e)) (ce_now env)) r1
      | (Inr _, r1) \<Rightarrow> r1)"

fun sync_pass ::
    "hub_config \<Rightarrow> (nat \<Rightarrow> 'p remote) \<Rightarrow> (nat \<Rightarrow> fed_env) \<Rightarrow> (nat \<Rightarrow> bool) \<Rightarrow> nat \<Rightarrow> bytes list \<Rightarrow> 'p round
     \<Rightarrow> 'p round" where
  "sync_pass cfg net env stopped k [] r = r"
| "sync_pass cfg net env stopped k (peer # rest) r =
     (if stopped k then r
      else sync_pass cfg net env stopped (k + 1) rest (sync_guarded cfg (net k) (env k) peer r))"

section \<open>A peer that runs this code\<close>

text \<open>A peer whose store does not change during the round. A handler that returns \<open>None\<close> or raises
  sends no answer, which the client sees as a failed request.\<close>

definition honest :: "hub_config \<Rightarrow> engine \<Rightarrow> fed_env \<Rightarrow> bytes \<Rightarrow> bytes \<Rightarrow> store remote" where
  "honest cfg en env link me s req =
     (case serve cfg en env link (Some me) req s of
        Inl e \<Rightarrow> (Failed ''no answer'', [], s)
      | Inr (Rs_None, _) \<Rightarrow> (Failed ''no answer'', [], s)
      | Inr (answer, pushed) \<Rightarrow> (Answer answer, pushed, s))"

end
