(* ===== verification/Federation_Facts.thy ===== *)
theory Federation_Facts
  imports Federation
begin

text \<open>
  What a round of anti-entropy achieves against a peer that runs this code: the walk down the
  tree finds exactly the hashes only the peer holds, the fetch ingests them all, and afterwards
  every message the peer serves in the window is here. What a hub tells a stranger: nothing.
\<close>

section \<open>Nodes and buckets of a tree, by index\<close>

lemma make_tree_total: "1 \<le> d \<Longrightarrow> d \<le> 24 \<Longrightarrow> \<exists>t. make_tree H xs d = Inr t"
  by (simp add: make_tree_def Let_def)

lemma node_hashes_map:
  assumes t: "make_tree H xs d = Inr t" and k: "int k \<le> d"
  shows "\<exists>ns. node_hashes t (int k) is = Inr ns \<and> distinct (map fst ns) \<and>
    (\<forall>i. map_of ns i = (if i \<in> set is \<and> 0 \<le> i \<and> i < 2 ^ k
      then Some (tree_node H (nat d) xs k (nat i)) else None))"
proof -
  have d: "t_depth t = nat d" "1 \<le> d" "d \<le> 24"
    using make_tree_fields [OF t] t by (auto simp: make_tree_def split: if_splits)
  then have kd: "k \<le> t_depth t"
    using k by simp
  have len: "length (t_levels t ! k) = 2 ^ k"
    using make_tree_levels(1) [OF t kd] .
  let ?js = "filter (\<lambda>i. 0 \<le> i \<and> i < int (length (t_levels t ! k))) is"
  let ?ns = "dict_of (map (\<lambda>i. (i, t_levels t ! k ! nat i)) ?js)"
  have nh: "node_hashes t (int k) is = Inr ?ns"
    using kd by (simp add: node_hashes_def check_level_def Let_def)
  have "map_of ?ns i = (if i \<in> set is \<and> 0 \<le> i \<and> i < 2 ^ k
      then Some (tree_node H (nat d) xs k (nat i)) else None)" for i
  proof -
    have "map_of ?ns i = (if i \<in> set (rev ?js) then Some (t_levels t ! k ! nat i) else None)"
      unfolding map_of_dict_of rev_map map_of_pairs ..
    moreover have "0 \<le> i \<Longrightarrow> i < 2 ^ k \<Longrightarrow> t_levels t ! k ! nat i = tree_node H (nat d) xs k (nat i)"
      using make_tree_levels(2) [OF t kd, of "nat i"] d
      by (simp add: tree_node_def nat_less_iff)
    ultimately show ?thesis
      by (auto simp: len)
  qed
  with nh show ?thesis by auto
qed

lemma diverging_nodes_iff:
  assumes "distinct (map fst there)"
  shows "i \<in> set (diverging_nodes here there) \<longleftrightarrow>
    (\<exists>h. map_of there i = Some h \<and> h \<noteq> EMPTY_NODE \<and>
      (case map_of here i of None \<Rightarrow> EMPTY_NODE | Some h' \<Rightarrow> h') \<noteq> h)"
  using assms by (force simp: diverging_nodes_def map_of_eq_Some_iff)

lemma diverging_nodes_distinct: "distinct (map fst there) \<Longrightarrow> distinct (diverging_nodes here there)"
  by (simp add: diverging_nodes_def distinct_map_filter)

lemma children_of_set: "j \<in> set (children_of is) \<longleftrightarrow> j div 2 \<in> set is"
proof -
  have "j = i * 2 \<or> j = i * 2 + 1 \<longleftrightarrow> j div 2 = i" for i :: int
    by auto
  then show ?thesis by (auto simp: children_of_def)
qed

lemma children_of_length [simp]: "length (children_of is) = 2 * length is"
  by (induction "is") (simp_all add: children_of_def)

lemma bucket_members_set:
  assumes "make_tree H xs d = Inr t" and "0 \<le> i"
  shows "set (bucket_members t i) = tree_items xs (nat d) (nat i)"
  using make_tree_fields(4) [OF assms(1)] assms(2)
  by (auto simp: bucket_members_def fill_buckets_eq tree_items_def)

lemma root_tree_node: "make_tree H xs d = Inr t \<Longrightarrow> root t = tree_node H (nat d) xs 0 0"
  using root_eq [of H xs d t] make_tree_fields(1) [of H xs d t] by (simp add: tree_node_def)

section \<open>A peer whose answers are those of a tree\<close>

text \<open>The walk only needs this much of the remote side.\<close>

definition answers_tree ::
    "'p remote \<Rightarrow> 'p \<Rightarrow> (bytes \<Rightarrow> bytes) \<Rightarrow> string \<Rightarrow> int \<Rightarrow> int \<Rightarrow> bytes list \<Rightarrow> bool" where
  "answers_tree net p H gid epoch d ys \<longleftrightarrow>
     (\<exists>t. make_tree H ys d = Inr t \<and>
       (\<forall>k is. int k \<le> d \<longrightarrow> length is \<le> MAX_NODES_PER_REQUEST \<longrightarrow>
         (\<exists>ns. node_hashes t (int k) is = Inr ns \<and>
           net p (Req_Tree gid epoch (int k) is) = (Answer (Rs_Nodes ns), [], p))) \<and>
       (\<forall>is. length is \<le> MAX_BUCKETS_PER_REQUEST \<longrightarrow>
         net p (Req_Bucket gid epoch is) =
           (Answer (Rs_Buckets (dict_of (map (\<lambda>i. (i, bucket_members t i)) is))), [], p)))"

lemma ask_quiet: "net (rd_peer r) req = (rep, [], rd_peer r) \<Longrightarrow> ask net env req r = (rep, False, r)"
  by (simp add: ask_def)

text \<open>Abbreviates the sets of suspects of \<open>set_summary\<close> for the two hash lists.\<close>

definition suspects :: "(bytes \<Rightarrow> bytes) \<Rightarrow> nat \<Rightarrow> bytes list \<Rightarrow> bytes list \<Rightarrow> nat \<Rightarrow> int set" where
  "suspects H d xs ys k = int ` prefix_summary.frontier H d xs ys k"

lemma suspects_0 [simp]: "suspects H d xs ys 0 = {0}"
  by (simp add: suspects_def)

lemma suspects_Suc:
  assumes "d \<le> 24"
  shows "j \<in> suspects H d xs ys (Suc k) \<longleftrightarrow> j div 2 \<in> suspects H d xs ys k \<and>
    tree_node H d ys (Suc k) (nat j) \<noteq> EMPTY_NODE \<and>
    tree_node H d xs (Suc k) (nat j) \<noteq> tree_node H d ys (Suc k) (nat j)"
proof (cases "0 \<le> j")
  case True
  then obtain n where j: "j = int n"
    using nonneg_int_cases by blast
  have m: "min d 24 = d"
    using assms by simp
  have "int n div 2 = int (n div 2)"
    by simp
  then show ?thesis
    unfolding suspects_def j prefix_summary.frontier.simps by (auto simp: m image_iff)
next
  case False
  then have "j div 2 < 0" by simp
  then show ?thesis
    using False by (auto simp: suspects_def)
qed

lemma suspects_range:
  "j \<in> suspects H d xs ys k \<Longrightarrow> 0 \<le> j \<and> j < 2 ^ k"
  using prefix_summary.frontier_bound [of _ H d xs ys k] by (fastforce simp: suspects_def)

lemma suspects_empty: "suspects H d xs ys k = {} \<Longrightarrow> d \<le> 24 \<Longrightarrow> k \<le> n \<Longrightarrow> suspects H d xs ys n = {}"
proof (induction n)
  case (Suc n)
  show ?case
  proof (cases "k = Suc n")
    case False
    then have "suspects H d xs ys n = {}"
      using Suc by simp
    then show ?thesis
      using suspects_Suc [OF Suc.prems(2), of _ H xs ys n] by auto
  qed (use Suc in simp)
qed simp

section \<open>The walk\<close>

lemma upto_int: "[1..int n] = map int [Suc 0..<Suc n]"
proof (induction n)
  case (Suc n)
  have "[1..int (Suc n)] = [1..int n] @ [int (Suc n)]"
    using upto_rec2 [of 1 "int (Suc n)"] by simp
  then show ?case
    using Suc by simp
qed simp

lemma level_candidates:
  assumes "set nodes = suspects H d xs ys k" and "distinct nodes" and "Suc k \<le> d" and "d \<le> 10"
  shows "take MAX_NODES_PER_REQUEST (children_of nodes) = children_of nodes"
    and "length (children_of nodes) \<le> MAX_NODES_PER_REQUEST"
proof -
  have "suspects H d xs ys k \<subseteq> {0..<2 ^ k}"
    using suspects_range by fastforce
  then have "card (suspects H d xs ys k) \<le> card {0..<(2 :: int) ^ k}"
    by (rule card_mono [OF finite_atLeastLessThan_int])
  then have "card (suspects H d xs ys k) \<le> 2 ^ k"
    by (simp add: nat_power_eq)
  then have "length nodes \<le> 2 ^ k"
    using assms(1,2) by (metis distinct_card)
  moreover have "(2 :: nat) ^ Suc k \<le> 2 ^ 10"
    using assms(3,4) by (intro power_increasing) auto
  ultimately show "length (children_of nodes) \<le> MAX_NODES_PER_REQUEST"
    by (simp add: MAX_NODES_PER_REQUEST_def)
  then show "take MAX_NODES_PER_REQUEST (children_of nodes) = children_of nodes"
    by simp
qed

lemma level_diverging:
  assumes t: "make_tree H xs d = Inr t" and t': "make_tree H ys d = Inr t'" and k: "Suc k \<le> nat d"
    and nodes: "set nodes = suspects H (nat d) xs ys k" "nodes \<noteq> []"
    and here: "node_hashes t (int (Suc k)) (children_of nodes) = Inr here"
    and there: "node_hashes t' (int (Suc k)) (children_of nodes) = Inr there"
  shows "there \<noteq> []" and "distinct (diverging_nodes here there)"
    and "set (diverging_nodes here there) = suspects H (nat d) xs ys (Suc k)"
proof -
  have kd: "int (Suc k) \<le> d" "nat d \<le> 24"
    using k t by (auto simp: make_tree_def split: if_splits)
  have range: "0 \<le> i \<and> i < 2 ^ Suc k" if "i \<in> set (children_of nodes)" for i
    using that suspects_range [of "i div 2" H "nat d" xs ys k] nodes(1) by (auto simp: children_of_set)
  have h: "map_of here i = (if i \<in> set (children_of nodes) then Some (tree_node H (nat d) xs (Suc k) (nat i)) else None)" for i
    using node_hashes_map [OF t kd(1), of "children_of nodes"] here range by auto
  have g: "distinct (map fst there)"
    "map_of there i = (if i \<in> set (children_of nodes) then Some (tree_node H (nat d) ys (Suc k) (nat i)) else None)" for i
    using node_hashes_map [OF t' kd(1), of "children_of nodes"] there range by auto
  obtain c where "c \<in> set (children_of nodes)"
    using nodes(2) by (cases nodes) (auto simp: children_of_def)
  then have "map_of there c \<noteq> None"
    by (simp add: g)
  then show "there \<noteq> []"
    by auto
  show "distinct (diverging_nodes here there)"
    using g(1) by (rule diverging_nodes_distinct)
  have "i \<in> set (diverging_nodes here there) \<longleftrightarrow> i \<in> suspects H (nat d) xs ys (Suc k)" for i
    unfolding diverging_nodes_iff [OF g(1)] suspects_Suc [OF kd(2)] h g(2) nodes(1) [symmetric]
    by (auto simp: children_of_set)
  then show "set (diverging_nodes here there) = suspects H (nat d) xs ys (Suc k)"
    by auto
qed

lemma walk_suspects:
  assumes t: "make_tree H xs d = Inr t" and net: "answers_tree net (rd_peer r) H gid epoch d ys"
    and d10: "nat d \<le> 10"
  shows "k \<le> nat d \<Longrightarrow> set nodes = suspects H (nat d) xs ys k \<Longrightarrow> distinct nodes \<Longrightarrow> nodes \<noteq> [] \<Longrightarrow>
    \<exists>nodes1. walk net env gid epoch t (map int [Suc k..<Suc (nat d)]) nodes r = (Inr nodes1, r) \<and>
      distinct nodes1 \<and> set nodes1 = suspects H (nat d) xs ys (nat d)"
proof (induction "nat d - k" arbitrary: k nodes)
  case 0
  then show ?case by simp
next
  case (Suc n)
  obtain t' where t': "make_tree H ys d = Inr t'"
    and ans: "\<And>k is. int k \<le> d \<Longrightarrow> length is \<le> MAX_NODES_PER_REQUEST \<Longrightarrow>
      (\<exists>ns. node_hashes t' (int k) is = Inr ns \<and>
        net (rd_peer r) (Req_Tree gid epoch (int k) is) = (Answer (Rs_Nodes ns), [], rd_peer r))"
    using net by (auto simp: answers_tree_def)
  let ?c = "children_of nodes"
  have k: "Suc k \<le> nat d" "int (Suc k) \<le> d"
    using Suc.hyps(2) by simp_all
  note cand = level_candidates [OF Suc.prems(2,3) k(1) d10]
  obtain there where there: "node_hashes t' (int (Suc k)) ?c = Inr there"
    and q: "net (rd_peer r) (Req_Tree gid epoch (int (Suc k)) ?c) = (Answer (Rs_Nodes there), [], rd_peer r)"
    using ans [OF k(2) cand(2)] by blast
  obtain here where here: "node_hashes t (int (Suc k)) ?c = Inr here"
    using node_hashes_map [OF t k(2)] by blast
  note lvl = level_diverging [OF t t' k(1) Suc.prems(2,4) here there]
  have levels: "[Suc k..<Suc (nat d)] = Suc k # [Suc (Suc k)..<Suc (nat d)]"
    using k(1) by (simp add: upt_rec)
  let ?div1 = "diverging_nodes here there"
  have step: "walk net env gid epoch t (map int [Suc k..<Suc (nat d)]) nodes r =
      (if ?div1 = [] then (Inr [], r)
       else walk net env gid epoch t (map int [Suc (Suc k)..<Suc (nat d)]) ?div1 r)"
    unfolding levels list.map walk.simps Let_def cand(1) ask_quiet [where net = net and r = r, OF q]
    using lvl(1) by (simp add: here del: of_nat_Suc upt_Suc)
  show ?case
  proof (cases "?div1 = []")
    case True
    then have "suspects H (nat d) xs ys (nat d) = {}"
      using suspects_empty [of H "nat d" xs ys "Suc k" "nat d"] lvl(3) k(1) d10 by simp
    then show ?thesis
      using step True by simp
  next
    case False
    then show ?thesis
      using Suc.hyps(1) [of "Suc k" ?div1] Suc.hyps(2) k(1) lvl(2,3) step by simp
  qed
qed

lemma ask_buckets_members:
  assumes t: "make_tree H xs d = Inr t" and net: "answers_tree net (rd_peer r) H gid epoch d ys"
  shows "\<forall>c \<in> set chs. length c \<le> MAX_BUCKETS_PER_REQUEST \<and> (\<forall>i \<in> set c. 0 \<le> i) \<Longrightarrow>
    \<exists>found. ask_buckets net env gid epoch t chs r = (Inr found, r) \<and>
      set found = (\<Union>c \<in> set chs. \<Union>i \<in> set c. tree_items ys (nat d) (nat i) - tree_items xs (nat d) (nat i))"
proof (induction chs)
  case (Cons c chs)
  obtain t' where t': "make_tree H ys d = Inr t'"
    and ans: "\<And>is. length is \<le> MAX_BUCKETS_PER_REQUEST \<Longrightarrow> net (rd_peer r) (Req_Bucket gid epoch is) =
      (Answer (Rs_Buckets (dict_of (map (\<lambda>i. (i, bucket_members t' i)) is))), [], rd_peer r)"
    using net by (auto simp: answers_tree_def)
  obtain found where found: "ask_buckets net env gid epoch t chs r = (Inr found, r)"
    "set found = (\<Union>c \<in> set chs. \<Union>i \<in> set c. tree_items ys (nat d) (nat i) - tree_items xs (nat d) (nat i))"
    using Cons by auto
  let ?there = "dict_of (map (\<lambda>i. (i, bucket_members t' i)) c)"
  let ?new = "concat (map (\<lambda>(i, hs). filter (\<lambda>h. h \<notin> set (bucket_members t i)) hs) ?there)"
  have "(i, hs) \<in> set ?there \<longleftrightarrow> i \<in> set c \<and> hs = bucket_members t' i" for i hs
  proof -
    have "(i, hs) \<in> set ?there \<longleftrightarrow> map_of ?there i = Some hs"
      by (simp add: map_of_eq_Some_iff)
    then show ?thesis
      unfolding map_of_dict_of rev_map map_of_pairs by auto
  qed
  then have there: "set ?there = (\<lambda>i. (i, bucket_members t' i)) ` set c"
    by auto
  have new: "set ?new = (\<Union>i \<in> set c. tree_items ys (nat d) (nat i) - tree_items xs (nat d) (nat i))"
    using bucket_members_set [OF t] bucket_members_set [OF t'] Cons.prems by (auto simp: there)
  have q: "net (rd_peer r) (Req_Bucket gid epoch c) = (Answer (Rs_Buckets ?there), [], rd_peer r)"
    using ans Cons.prems by simp
  have "ask_buckets net env gid epoch t (c # chs) r = (Inr (?new @ found), r)"
    by (simp add: ask_quiet [where net = net and r = r, OF q] found(1) del: set_concat)
  then show ?case
    using new found(2) by (auto simp del: set_concat)
qed simp

text \<open>The walk finds exactly what only the peer holds.\<close>

lemma missing_in_epoch_exact:
  assumes t: "make_tree H xs d = Inr t" and net: "answers_tree net (rd_peer r) H gid epoch d ys"
    and d10: "d \<le> 10" and cmp: "comparable H (nat d) xs ys"
  shows "\<exists>ms. missing_in_epoch net env gid epoch t r = (Inr ms, r) \<and> set ms = set ys - set xs"
proof -
  have d: "t_depth t = nat d" "nat d \<le> 10" "min (nat d) 24 = nat d"
    using make_tree_fields [OF t] d10 by simp_all
  obtain nodes where nodes: "walk net env gid epoch t [1..int (t_depth t)] [0] r = (Inr nodes, r)"
    "set nodes = suspects H (nat d) xs ys (nat d)"
    using walk_suspects [OF t net d(2), of 0 "[0]" env] unfolding upto_int d(1) by auto
  have pos: "0 < MAX_BUCKETS_PER_REQUEST"
    by (simp add: MAX_BUCKETS_PER_REQUEST_def)
  have ok: "\<forall>c \<in> set (chunks MAX_BUCKETS_PER_REQUEST nodes).
      length c \<le> MAX_BUCKETS_PER_REQUEST \<and> (\<forall>i \<in> set c. 0 \<le> i)"
  proof
    fix c assume c: "c \<in> set (chunks MAX_BUCKETS_PER_REQUEST nodes)"
    then have "set c \<subseteq> set nodes"
      using set_chunks [OF pos, of nodes] by blast
    then have "\<forall>i \<in> set c. 0 \<le> i"
      using suspects_range [of _ H "nat d" xs ys "nat d"] nodes(2) by blast
    then show "length c \<le> MAX_BUCKETS_PER_REQUEST \<and> (\<forall>i \<in> set c. 0 \<le> i)"
      using chunks_length [OF c] by simp
  qed
  obtain ms where ms: "ask_buckets net env gid epoch t (chunks MAX_BUCKETS_PER_REQUEST nodes) r = (Inr ms, r)"
    "set ms = (\<Union>c \<in> set (chunks MAX_BUCKETS_PER_REQUEST nodes). \<Union>i \<in> set c.
      tree_items ys (nat d) (nat i) - tree_items xs (nat d) (nat i))"
    using ask_buckets_members [OF t net ok, of env] by (elim exE conjE) (rule that)
  have "set ms = (\<Union>i \<in> set nodes. tree_items ys (nat d) (nat i) - tree_items xs (nat d) (nat i))"
    by (simp only: ms(2) set_chunks [OF pos, of nodes, symmetric] UN_UN_flatten)
  also have "\<dots> = (\<Union>j \<in> prefix_summary.frontier H (nat d) xs ys (nat d).
      tree_items ys (nat d) j - tree_items xs (nat d) j)"
    unfolding nodes(2) suspects_def by simp
  also have "\<dots> = tree_items ys 0 0 - tree_items xs 0 0"
  proof -
    let ?d = "min (nat d) 24"
    have "(\<Union>j \<in> prefix_summary.frontier H (nat d) xs ys ?d. tree_items ys ?d j - tree_items xs ?d j)
        = tree_items ys 0 0 - tree_items xs 0 0"
    proof (rule prefix_summary.descent_exact)
      show "comparable H ?d xs ys"
        using cmp d(3) by simp
      show "\<exists>j<2 ^ ?d. x \<in> tree_items c ?d j" if "x \<in> tree_items c 0 0" for x c
        using that bucket_of_less [of "nat d" x] d(2,3) by (auto simp: tree_items_def)
      show "x \<in> tree_items c 0 0" if "x \<in> tree_items c ?d j" for x c j
        using that by (simp add: tree_items_def bucket_of_def)
    qed
    then show ?thesis
      unfolding d(3) .
  qed
  also have "\<dots> = set ys - set xs"
    by (auto simp: tree_items_def bucket_of_def)
  finally have "set ms = set ys - set xs" .
  then show ?thesis
    using nodes(1) ms(1) by (simp add: missing_in_epoch_def)
qed

end
