(* ===== verification/Control.thy ===== *)
theory Control
  imports Hub_Facts
begin

text \<open>
  The operator channel of \<open>lxmf_hub/control.py\<close>: who may command, how a command line reaches
  \<open>administer\<close>, the queued answers, and the hold for operators RNS does not know yet.
  \<open>shlex.split\<close> and the argument parser are fields of \<open>net_env\<close>, which \<open>Command_Line\<close> supplies; text is ASCII, so the
  replacement of typographic quotes in \<open>_normalise\<close> does nothing here.
\<close>

record net_env = hub_env +
  ne_shlex :: "string \<Rightarrow> string + string list"
  ne_parse :: "string list \<Rightarrow> admin_error + admin_cmd"
  ne_usage :: "string \<Rightarrow> string"
  ne_summary :: "string \<Rightarrow> string"
  ne_verb_help :: "string \<Rightarrow> string"
  ne_key :: bytes
  ne_pick :: "string list \<Rightarrow> string"
  ne_hub_hash :: "bytes option"

record control =
  ct_operators :: "bytes list"
  ct_dest :: "bytes option"
  ct_next_announce :: time
  ct_unverified :: "held list"

definition REMOTE_COMMANDS :: "string list" where
  "REMOTE_COMMANDS = [''add-member'', ''create-group'', ''delete-group'', ''groups'', ''members'',
     ''peers'', ''remove-member'', ''set-acl'', ''status'']"

definition HELP_TOKENS :: "string list" where
  "HELP_TOKENS = [''/help'', ''-h'', ''--help'', ''?'']"

definition CONTROL_MAX_BYTES :: nat where "CONTROL_MAX_BYTES = 4096"

definition new_control :: "hub_config \<Rightarrow> store_error + control" where
  "new_control cfg =
     (case operator_hashes cfg of
        Inl e \<Rightarrow> Inl e
      | Inr ops \<Rightarrow> Inr \<lparr>ct_operators = ops, ct_dest = None, ct_next_announce = 0, ct_unverified = []\<rparr>)"

text \<open>\<open>registered\<close> is what \<open>router.register_delivery_identity\<close> returns.\<close>

definition start_control :: "bytes option \<Rightarrow> control \<Rightarrow> bytes option \<times> control" where
  "start_control registered c =
     (if ct_operators c = [] then (None, c)
      else (registered, c\<lparr>ct_dest := registered\<rparr>))"

definition control_owns :: "bytes \<Rightarrow> control \<Rightarrow> bool" where
  "control_owns h c \<longleftrightarrow> ct_dest c = Some h"

definition control_announce_due :: "hub_config \<Rightarrow> time \<Rightarrow> control \<Rightarrow> bool \<times> control" where
  "control_announce_due cfg now c =
     (if ct_dest c = None \<or> now < ct_next_announce c then (False, c)
      else (True, c\<lparr>ct_next_announce := now + announce_interval_sec cfg\<rparr>))"

section \<open>Executing a command line\<close>

definition help_lines :: "net_env \<Rightarrow> string list" where
  "help_lines env =
     [''Commands:''] @
     concat (map (\<lambda>v. [''  /'' @ ne_usage env v, ''      '' @ ne_summary env v]) REMOTE_COMMANDS) @
     [''Send '' @ quoted ''/help <command>'' @ '' for one command in detail.'',
      ''Hashes may be pasted as <a1b2..>, a1:b2:.. or plain hex.'',
      quoted ''/add-member'' @ ''/'' @ quoted ''/remove-member'' @ '' want a member'' @ [CHR 0x27] @
      ''s LXMF address (delivery destination hash), not their RNS identity hash. For an '' @
      ''invite-only group get it from the member'' @ [CHR 0x27] @ ''s own client -- their address is '' @
      ''dropped before '' @ quoted ''/whoami'' @ '' could ever answer, since they aren'' @ [CHR 0x27] @
      ''t a member yet.'']"

definition operator_help :: "net_env \<Rightarrow> string option \<Rightarrow> string" where
  "operator_help env verb =
     (case map_option (\<lambda>v. dropWhile (\<lambda>c. c = CHR ''/'') (lower v)) verb of
        None \<Rightarrow> join_with NEWLINE (help_lines env)
      | Some v \<Rightarrow>
          if v \<in> set REMOTE_COMMANDS then strip (ne_verb_help env v)
          else join_with NEWLINE (help_lines env))"

definition blank_line :: string where "blank_line = NEWLINE @ NEWLINE"

definition control_execute ::
    "hub_config \<Rightarrow> net_env \<Rightarrow> string \<Rightarrow> store \<Rightarrow> string \<times> store" where
  "control_execute cfg env command s =
     (if CONTROL_MAX_BYTES < length command
      then (''That command is too long (limit '' @ show_nat CONTROL_MAX_BYTES @ '' bytes).'', s)
      else case ne_shlex env (strip command) of
        Inl m \<Rightarrow> (''Could not parse that command: '' @ m @ blank_line @ operator_help env None, s)
      | Inr tokens \<Rightarrow>
          if tokens = [] \<or> lower (hd tokens) \<in> set HELP_TOKENS
          then (operator_help env (if 1 < length tokens then Some (tokens ! 1) else None), s)
          else if take 1 (lower (hd tokens)) \<noteq> ''/''
          then (quoted (hd tokens) @ '' is not an operator command. Operator commands start with '' @
            quoted ''/'' @ '', for example '' @ quoted ''/status'' @ ''.'' @ blank_line @
            operator_help env None, s)
          else
            let verb = drop 1 (lower (hd tokens))
            in if verb \<notin> set REMOTE_COMMANDS
               then (quoted (hd tokens) @ '' is not an operator command.'' @ blank_line @
                 operator_help env None, s)
               else if 1 < length tokens \<and> lower (tokens ! 1) \<in> set HELP_TOKENS
               then (operator_help env (Some verb), s)
               else case ne_parse env (verb # tl tokens) of
                 Inl (CommandError m) \<Rightarrow> (or_text m (operator_help env (Some verb)), s)
               | Inl (AdminRaised e) \<Rightarrow> (''Command failed: '' @ ce_error_text env e, s)
               | Inr cmd \<Rightarrow>
                   (case administer cfg (ce_dest_of env) (ne_hub_hash env) (ne_key env) (ne_pick env)
                       (ce_now env) cmd s of
                      (Inr answer, s1) \<Rightarrow> (or_text answer ''done'', s1)
                    | (Inl (CommandError m), s1) \<Rightarrow> (or_text m (operator_help env (Some verb)), s1)
                    | (Inl (AdminRaised e), s1) \<Rightarrow> (''Command failed: '' @ ce_error_text env e, s1)))"

section \<open>Inbound\<close>

definition control_reply :: "time \<Rightarrow> bytes \<Rightarrow> string \<Rightarrow> control \<Rightarrow> store \<Rightarrow> store" where
  "control_reply now operator answer c s =
     (if ct_dest c = None then s else snd (enqueue_control operator answer now s))"

definition control_hold :: "hub_config \<Rightarrow> net_env \<Rightarrow> lxm \<Rightarrow> control \<times> hub \<Rightarrow> control \<times> hub" where
  "control_hold cfg env m st =
     (case st of (c, h) \<Rightarrow>
        (c\<lparr>ct_unverified := ct_unverified c @ [\<lparr>hd_packed = x_packed m, hd_source = x_source m,
           hd_deadline = ce_now env + unverified_hold_sec (egress_cfg cfg),
           hd_next = ce_now env + path_request_grace_sec (egress_cfg cfg)\<rparr>]\<rparr>,
         h\<lparr>h_requests := request_path (hub_env.truncate env) (x_source m) (h_requests h)\<rparr>))"

definition control_handle :: "hub_config \<Rightarrow> net_env \<Rightarrow> lxm \<Rightarrow> control \<times> hub \<Rightarrow> control \<times> hub" where
  "control_handle cfg env m st =
     (case st of (c, h) \<Rightarrow>
        if \<not> x_valid m
        then (if x_unknown m \<and> x_packed m \<noteq> [] then control_hold cfg env m st else st)
        else if x_source m \<notin> set (ct_operators c) then st
        else
          let (answer, s1) = control_execute cfg env (strip (he_decode env (x_content m))) (h_store h)
          in (c, h\<lparr>h_store := control_reply (ce_now env) (x_source m) answer c s1\<rparr>))"

fun control_retry_held ::
    "hub_config \<Rightarrow> net_env \<Rightarrow> held list \<Rightarrow> control \<times> hub \<Rightarrow> held list \<times> control \<times> hub" where
  "control_retry_held cfg env [] st = ([], st)"
| "control_retry_held cfg env (x # xs) st =
     (if hd_deadline x \<le> ce_now env then control_retry_held cfg env xs st
      else if \<not> he_known env (hd_source x)
      then
        let due = hd_next x \<le> ce_now env;
            (c, h) = st;
            h1 = (if due then h\<lparr>h_requests := request_path (hub_env.truncate env) (hd_source x) (h_requests h)\<rparr>
                  else h);
            x1 = (if due then x\<lparr>hd_next := ce_now env + path_request_grace_sec (egress_cfg cfg)\<rparr>
                  else x);
            (rest, st1) = control_retry_held cfg env xs (c, h1)
        in (x1 # rest, st1)
      else
        let m = he_lxm env (hd_packed x)
        in control_retry_held cfg env xs (if x_valid m then control_handle cfg env m st else st))"

definition control_retry_unverified :: "hub_config \<Rightarrow> net_env \<Rightarrow> control \<times> hub \<Rightarrow> control \<times> hub" where
  "control_retry_unverified cfg env st =
     (case st of (c, h) \<Rightarrow>
        if ct_unverified c = [] then st
        else
          let (still, c1, h1) = control_retry_held cfg env (ct_unverified c) (c\<lparr>ct_unverified := []\<rparr>, h)
          in (c1\<lparr>ct_unverified := ct_unverified c1 @ still\<rparr>, h1))"

definition control_build_reply :: "control \<Rightarrow> bytes \<Rightarrow> string \<Rightarrow> reflection option" where
  "control_build_reply c recipient body =
     map_option (\<lambda>source. \<lparr>r_to = recipient, r_from = source, r_title = [], r_content = utf8 body,
       r_fields = []\<rparr>) (ct_dest c)"

section \<open>Only operators command\<close>

lemma store_ok_control_execute: "store_ok s \<Longrightarrow> store_ok (snd (control_execute cfg env cmd s))"
  using store_ok_administer [of s cfg "ce_dest_of env" "ne_hub_hash env" "ne_key env" "ne_pick env" "ce_now env"]
  by (auto simp: control_execute_def Let_def split: sum.splits admin_error.splits prod.splits)
     (metis snd_conv)+

lemma store_ok_control_reply: "store_ok s \<Longrightarrow> store_ok (control_reply now u a c s)"
  by (simp add: control_reply_def)

lemma store_ok_control_handle:
  "store_ok (h_store (snd st)) \<Longrightarrow> store_ok (h_store (snd (control_handle cfg env m st)))"
  by (cases st)
    (simp add: control_handle_def control_hold_def case_prod_beta Let_def store_ok_control_reply
      store_ok_control_execute)

lemma control_stranger:
  "\<not> x_valid m \<or> x_source m \<notin> set (ct_operators (fst st)) \<Longrightarrow>
   h_store (snd (control_handle cfg env m st)) = h_store (snd st)"
  by (cases st) (auto simp: control_handle_def control_hold_def)

text \<open>Every verified operator message is answered: exactly one row joins the control queue.\<close>

lemma administer_control: "s_control (snd (administer cfg dest_of ctl key pick now cmd s)) = s_control s"
  by (cases cmd) (auto simp: administer_def Let_def create_group_def set_acl_mode_def
      delete_group_def add_member_def remove_member_def split: sum.splits option.splits if_splits)

lemma control_execute_control: "s_control (snd (control_execute cfg env cmd s)) = s_control s"
  using administer_control [of cfg "ce_dest_of env" "ne_hub_hash env" "ne_key env" "ne_pick env" "ce_now env" _ s]
  by (auto simp: control_execute_def Let_def split: sum.splits admin_error.splits prod.splits)
     (metis snd_conv)+

lemma control_answers:
  assumes "x_valid m" and "x_source m \<in> set (ct_operators c)" and "ct_dest c = Some d"
  shows "\<exists>answer. map q_item (q_rows (s_control (h_store (snd (control_handle cfg env m (c, h)))))) =
    map q_item (q_rows (s_control (h_store h))) @ [\<lparr>c_recipient = x_source m, c_body = answer\<rparr>]"
  using assms
  by (auto simp: control_handle_def control_reply_def enqueue_control_def queue_insert_def fresh_row_def
      case_prod_beta Let_def control_execute_control)

end
