(* ===== verification/Directory.thy ===== *)
theory Directory
  imports Hub_Facts
begin

text \<open>
  The endpoint directory of \<open>lxmf_hub/directory.py\<close>: anybody may ask, each asker is answered
  once per interval, and the answer lists this hub's and its peers' address for each group.
\<close>

record directory =
  dr_dest :: "bytes option"
  dr_answered :: "(bytes \<times> time) list"
  dr_next_announce :: time

definition MAX_LINE_GROUPS :: nat where "MAX_LINE_GROUPS = 40"

definition DIRECTORY_GROUP :: string where "DIRECTORY_GROUP = ''*directory*''"

definition directory_owns :: "bytes \<Rightarrow> directory \<Rightarrow> bool" where
  "directory_owns h d \<longleftrightarrow> dr_dest d = Some h"

definition directory_announce_due :: "hub_config \<Rightarrow> time \<Rightarrow> directory \<Rightarrow> bool \<times> directory" where
  "directory_announce_due cfg now d =
     (if dr_dest d = None \<or> now < dr_next_announce d then (False, d)
      else (True, d\<lparr>dr_next_announce := now + announce_interval_sec cfg\<rparr>))"

definition listing_block ::
    "hub_config \<Rightarrow> (bytes \<Rightarrow> bytes option) \<Rightarrow> time \<Rightarrow> store \<Rightarrow> group_record \<Rightarrow> store_error + string list" where
  "listing_block cfg dest_of now s g =
     (case group_destination_hash dest_of (g_key g) of
        Inl e \<Rightarrow> Inl e
      | Inr h \<Rightarrow>
          Inr ((g_id g @ '' '' @ g_acl g @ '' '' @ hub_name cfg @ '' '' @ hex h @ '' here'') #
            map (\<lambda>r. pg_group r @ '' '' @ pg_acl r @ '' '' @ pg_hub r @ '' '' @ hex (pg_dest r) @
                   '' seen '' @ format_age (now - pg_updated r) @ '' ago'')
              (list_peer_groups (Some (g_id g)) s)))"

definition listing ::
    "hub_config \<Rightarrow> (bytes \<Rightarrow> bytes option) \<Rightarrow> time \<Rightarrow> store \<Rightarrow> store_error + string" where
  "listing cfg dest_of now s =
     (case sequence_results (map (listing_block cfg dest_of now s) (take MAX_LINE_GROUPS (list_groups s))) of
        Inl e \<Rightarrow> Inl e
      | Inr blocks \<Rightarrow>
          Inr (if concat blocks = [] then ''This hub hosts no groups.''
               else join_with NEWLINE (concat blocks)))"

text \<open>The asker is remembered before the listing is built, so also when building it fails.\<close>

definition directory_handle ::
    "hub_config \<Rightarrow> (bytes \<Rightarrow> bytes option) \<Rightarrow> time \<Rightarrow> lxm \<Rightarrow> directory \<Rightarrow> store
     \<Rightarrow> (store_error + unit) \<times> directory \<times> store" where
  "directory_handle cfg dest_of now m d s =
     (if \<not> x_valid m then (Inr (), d, s)
      else
        let last = (case map_of (dr_answered d) (x_source m) of None \<Rightarrow> 0 | Some t \<Rightarrow> t)
        in if now - last < dir_min_reply_interval (directory_cfg cfg) then (Inr (), d, s)
           else
             let d1 = d\<lparr>dr_answered := dict_set (x_source m) now (dr_answered d)\<rparr>
             in case listing cfg dest_of now s of
                  Inl e \<Rightarrow> (Inl e, d1, s)
                | Inr body \<Rightarrow>
                    (Inr (), d1, snd (enqueue_notice DIRECTORY_GROUP (x_source m) body SOURCE_DIRECTORY now s)))"

definition directory_build_reply :: "directory \<Rightarrow> bytes \<Rightarrow> string \<Rightarrow> reflection option" where
  "directory_build_reply d recipient body =
     map_option (\<lambda>source. \<lparr>r_to = recipient, r_from = source, r_title = [], r_content = utf8 body,
       r_fields = []\<rparr>) (dr_dest d)"

lemma store_ok_directory_handle:
  "store_ok s \<Longrightarrow> store_ok (snd (snd (directory_handle cfg dest_of now m d s)))"
  by (auto simp: directory_handle_def Let_def split: sum.splits)

definition asked_at :: "directory \<Rightarrow> bytes \<Rightarrow> time option" where
  "asked_at d u = map_of (dr_answered d) u"

lemma directory_answer_time:
  "asked_at (fst (snd (directory_handle cfg dest_of now m d s))) u =
     (if u = x_source m \<and> x_valid m \<and> dir_min_reply_interval (directory_cfg cfg) \<le>
          now - (case asked_at d u of None \<Rightarrow> 0 | Some t \<Rightarrow> t)
      then Some now else asked_at d u)"
  by (auto simp: directory_handle_def asked_at_def Let_def split: sum.splits)

text \<open>A second question within the interval gets nothing, whoever asked in between.\<close>

lemma directory_silence:
  assumes "asked_at d u = Some t" and "x_source m = u" and "now - t < dir_min_reply_interval (directory_cfg cfg)"
  shows "directory_handle cfg dest_of now m d s = (Inr (), d, s)"
  using assms by (simp add: directory_handle_def asked_at_def)

end
