(* ===== verification/Token_Bucket.thy ===== *)
theory Token_Bucket
  imports Hub_Prelude
begin

text \<open>
  \<open>TokenBucket\<close> of \<open>lxmf_hub/egress.py\<close>: the rate limiter on what the hub puts on air. The
  clock value of each call is an argument.
\<close>

record bucket =
  b_rate :: real
  b_burst :: real
  b_tokens :: real
  b_updated :: time

definition new_bucket :: "real \<Rightarrow> real \<Rightarrow> time \<Rightarrow> bucket" where
  "new_bucket rate burst now =
     \<lparr>b_rate = max rate 0, b_burst = max burst 1, b_tokens = max burst 1, b_updated = now\<rparr>"

definition consume :: "real \<Rightarrow> time \<Rightarrow> bucket \<Rightarrow> bool \<times> bucket" where
  "consume n now b =
     (let level = min (b_burst b) (b_tokens b + (now - b_updated b) * b_rate b);
          b1 = b\<lparr>b_tokens := level, b_updated := now\<rparr>
      in if n \<le> level then (True, b1\<lparr>b_tokens := level - n\<rparr>) else (False, b1))"

definition refund :: "real \<Rightarrow> bucket \<Rightarrow> bucket" where
  "refund n b = b\<lparr>b_tokens := min (b_burst b) (b_tokens b + n)\<rparr>"

definition time_until :: "real \<Rightarrow> bucket \<Rightarrow> real" where
  "time_until n b =
     (if b_rate b \<le> 0 then 60 else max 0 ((n - b_tokens b) / b_rate b))"

section \<open>The level stays within the burst\<close>

definition bucket_ok :: "bucket \<Rightarrow> bool" where
  "bucket_ok b \<longleftrightarrow> 0 \<le> b_rate b \<and> 1 \<le> b_burst b \<and> 0 \<le> b_tokens b \<and> b_tokens b \<le> b_burst b"

lemma bucket_ok_new [simp]: "bucket_ok (new_bucket rate burst now)"
  by (simp add: bucket_ok_def new_bucket_def)

lemma bucket_ok_consume:
  "bucket_ok b \<Longrightarrow> b_updated b \<le> now \<Longrightarrow> 0 \<le> n \<Longrightarrow> bucket_ok (snd (consume n now b))"
  by (auto simp: bucket_ok_def consume_def Let_def)

lemma bucket_ok_refund: "bucket_ok b \<Longrightarrow> 0 \<le> n \<Longrightarrow> bucket_ok (refund n b)"
  by (auto simp: bucket_ok_def refund_def)

lemma consume_fields [simp]:
  "b_rate (snd (consume n now b)) = b_rate b" "b_burst (snd (consume n now b)) = b_burst b"
  "b_updated (snd (consume n now b)) = now"
  by (simp_all add: consume_def Let_def)

lemma refund_fields [simp]:
  "b_rate (refund n b) = b_rate b" "b_burst (refund n b) = b_burst b"
  "b_updated (refund n b) = b_updated b"
  by (simp_all add: refund_def)

lemma refund_tokens: "b_tokens (refund n b) \<le> b_tokens b + n"
  by (simp add: refund_def)

text \<open>What is promised to a refused caller: waiting \<open>time_until\<close> makes the next try succeed.\<close>

lemma time_until_enough:
  assumes "bucket_ok b" and "0 < b_rate b" and "n \<le> b_burst b" and "b_updated b + time_until n b \<le> t"
  shows "fst (consume n t b)"
proof -
  have "(n - b_tokens b) / b_rate b \<le> t - b_updated b"
    using assms by (simp add: time_until_def)
  then have "n - b_tokens b \<le> (t - b_updated b) * b_rate b"
    using assms(2) by (simp add: pos_divide_le_eq)
  then show ?thesis
    using assms(3) by (simp add: consume_def Let_def)
qed

section \<open>The long-run rate\<close>

text \<open>A history of one-token uses: attempts at given times, and refunds.\<close>

datatype bucket_op =
    Consume time
  | Refund

fun run_bucket :: "bucket_op list \<Rightarrow> bucket \<Rightarrow> nat \<times> bucket" where
  "run_bucket [] b = (0, b)"
| "run_bucket (Consume t # ops) b =
     (let (granted, b1) = consume 1 t b; (n, b2) = run_bucket ops b1
      in ((if granted then n + 1 else n), b2))"
| "run_bucket (Refund # ops) b = run_bucket ops (refund 1 b)"

fun op_times :: "bucket_op list \<Rightarrow> time list" where
  "op_times [] = []"
| "op_times (Consume t # ops) = t # op_times ops"
| "op_times (Refund # ops) = op_times ops"

lemma consume_potential:
  "b_updated b \<le> t \<Longrightarrow>
   b_tokens (snd (consume 1 t b)) + (if fst (consume 1 t b) then 1 else 0)
     \<le> b_tokens b + b_rate b * (t - b_updated b)"
  by (simp add: consume_def Let_def mult.commute)

lemma run_bucket_bound:
  assumes "bucket_ok b" and "sorted (b_updated b # op_times ops)"
  shows "real (fst (run_bucket ops b)) + b_tokens (snd (run_bucket ops b))
    \<le> b_tokens b + b_rate b * (last (b_updated b # op_times ops) - b_updated b)
      + real (length (filter (\<lambda>p. p = Refund) ops))
    \<and> bucket_ok (snd (run_bucket ops b))"
  using assms
proof (induction ops arbitrary: b)
  case (Cons p ops)
  show ?case
  proof (cases p)
    case (Consume t)
    let ?b1 = "snd (consume 1 t b)"
    let ?e = "last (t # op_times ops)"
    have le: "b_updated b \<le> t" and s: "sorted (b_updated ?b1 # op_times ops)"
      using Cons.prems(2) Consume by auto
    have IH: "real (fst (run_bucket ops ?b1)) + b_tokens (snd (run_bucket ops ?b1))
        \<le> b_tokens ?b1 + b_rate b * (?e - t) + real (length (filter (\<lambda>p. p = Refund) ops))
        \<and> bucket_ok (snd (run_bucket ops ?b1))"
      using Cons.IH [of ?b1] bucket_ok_consume [OF Cons.prems(1) le] s by simp
    have "b_rate b * (?e - t) + b_rate b * (t - b_updated b) = b_rate b * (?e - b_updated b)"
      by (simp add: algebra_simps)
    then show ?thesis
      using IH consume_potential [OF le] Consume by (auto simp: case_prod_beta Let_def)
  next
    case Refund
    have IH: "real (fst (run_bucket ops (refund 1 b))) + b_tokens (snd (run_bucket ops (refund 1 b)))
        \<le> b_tokens (refund 1 b) + b_rate b * (last (b_updated b # op_times ops) - b_updated b)
          + real (length (filter (\<lambda>p. p = Refund) ops))
        \<and> bucket_ok (snd (run_bucket ops (refund 1 b)))"
      using Cons.IH [of "refund 1 b"] Cons.prems Refund bucket_ok_refund [of b 1] by simp
    then show ?thesis
      using Refund refund_tokens [of 1 b] by auto
  qed
qed simp

end
