(* ===== verification/Tickets.thy ===== *)
theory Tickets
  imports Python_Values
begin

text \<open>
  \<open>ScopedTickets\<close> of \<open>lxmf_hub/tickets.py\<close>: tickets per (local destination, remote peer), and
  the reseeding of the router's cache, which knows only the remote peer, before each send.
  \<open>FIELD_TICKET\<close> is LXMF's constant, a parameter.
\<close>

type_synonym ticket_key = "bytes \<times> bytes"
type_synonym tickets = "(ticket_key \<times> (real \<times> bytes)) list"

text \<open>The router's \<open>available_tickets["outbound"]\<close>.\<close>

type_synonym ticket_cache = "bytes \<Rightarrow> (real \<times> bytes) option"

record lxm_header =
  l_source :: bytes
  l_destination :: bytes

definition remember ::
    "int \<Rightarrow> bool \<Rightarrow> lxm_header \<Rightarrow> fields \<Rightarrow> tickets \<Rightarrow> tickets" where
  "remember field_ticket signature_validated m fs tickets =
     (if \<not> signature_validated then tickets
      else case map_of fs field_ticket of
        Some (VList (expires # VBytes ticket # _)) \<Rightarrow>
          (case as_number expires of
             None \<Rightarrow> tickets
           | Some e \<Rightarrow> dict_set (l_destination m, l_source m) (e, ticket) tickets)
      | _ \<Rightarrow> tickets)"

definition seed :: "time \<Rightarrow> lxm_header \<Rightarrow> tickets \<Rightarrow> ticket_cache \<Rightarrow> tickets \<times> ticket_cache" where
  "seed now m tickets cache =
     (let key = (l_source m, l_destination m);
          expired = (case map_of tickets key of None \<Rightarrow> False | Some (e, _) \<Rightarrow> e \<le> now);
          tickets' = (if expired then dict_pop key tickets else tickets)
      in (tickets', cache(l_destination m := map_of tickets' key)))"

definition clean :: "time \<Rightarrow> tickets \<Rightarrow> nat \<times> tickets" where
  "clean now tickets =
     (let expired = filter (\<lambda>(k, e, _). e \<le> now) tickets
      in (length expired, filter (\<lambda>(k, e, _). \<not> e \<le> now) tickets))"

lemma seed_cache:
  "snd (seed now m tickets cache) =
     cache(l_destination m := (case map_of tickets (l_source m, l_destination m) of
       None \<Rightarrow> None | Some (e, t) \<Rightarrow> if e \<le> now then None else Some (e, t)))"
  by (auto simp: seed_def Let_def split: option.splits)

lemma seed_tickets:
  "map_of (fst (seed now m tickets cache)) k =
     (case map_of tickets k of None \<Rightarrow> None
      | Some (e, t) \<Rightarrow> if k = (l_source m, l_destination m) \<and> e \<le> now then None else Some (e, t))"
  by (auto simp: seed_def Let_def split: option.splits)

text \<open>Only a validated message that names a well-formed ticket changes anything, and then only
  the entry of its own pair of addresses.\<close>

lemma remember_other:
  "k \<noteq> (l_destination m, l_source m) \<Longrightarrow>
   map_of (remember ft v m fs tickets) k = map_of tickets k"
  by (auto simp: remember_def split: option.splits pyval.splits list.splits)

lemma remember_valid:
  "map_of fs ft = Some (VList (e # VBytes t # rest)) \<Longrightarrow> as_number e = Some x \<Longrightarrow>
   map_of (remember ft True m fs tickets) (l_destination m, l_source m) = Some (x, t)"
  by (simp add: remember_def)

lemma remember_unvalidated: "remember ft False m fs tickets = tickets"
  by (simp add: remember_def)

lemma clean_live:
  assumes "distinct (map fst tickets)"
  shows "map_of (snd (clean now tickets)) k =
    (case map_of tickets k of None \<Rightarrow> None | Some (e, t) \<Rightarrow> if e \<le> now then None else Some (e, t))"
  using assms
proof (induction tickets)
  case (Cons p tickets)
  then have "fst p \<notin> dom (map_of tickets)"
    by (auto simp: dom_map_of_conv_image_fst)
  with Cons show ?case
    by (cases p) (auto simp: clean_def Let_def dom_def split: option.splits)
qed (simp add: clean_def Let_def)

end
