(* ===== verification/Egress.thy ===== *)
theory Egress
  imports Control Directory Token_Bucket Tickets
begin

text \<open>
  The egress scheduler of \<open>lxmf_hub/egress.py\<close>: four durable queues drained in order of
  urgency under one token bucket, rows re-armed before they are handed to LXMF, and an
  in-flight table that keeps a row from being sent twice while LXMF still carries it.

  The router is outside: \<open>ae_holds\<close> says whether it still carries a message, \<open>ae_accepts\<close>
  whether it takes one, \<open>ae_node\<close> whether a propagation node is set. A message object is
  identified by a number that is never reused. The whole tick reads the clock once. A call to the database
  or to RNS may raise, as \<open>ae_fault\<close>, \<open>ae_reads\<close> and \<open>ae_defers\<close> say: SQLite when another process holds its
  lock for too long. A statement that raises has changed nothing.
\<close>

section \<open>State\<close>

datatype kind = KIND_EGRESS | KIND_NOTICE | KIND_CONTROL | KIND_USER

datatype method_of_delivery = PROPAGATED | DIRECT

text \<open>Where a send raises, if it does: before anything was written or asked for, or after the request for a
  path and before the row is deferred. Both are before the message is marked as in flight; what follows is
  caught by the send itself.\<close>

datatype fault = FAILS | FAILS_AFTER_REQUEST

text \<open>\<open>ae_fault\<close>: what the send of a row meets; \<open>ae_reads\<close>: whether the query for the due rows of a queue
  returns; \<open>ae_defers\<close>: whether the handler of a failed operator answer can defer its row.\<close>

record air_env = net_env +
  ae_holds :: "nat \<Rightarrow> bool"
  ae_accepts :: "nat \<Rightarrow> bool"
  ae_node :: bool
  ae_stopped :: "kind \<Rightarrow> nat \<Rightarrow> bool"
  ae_fault :: "kind \<Rightarrow> nat \<Rightarrow> fault option"
  ae_reads :: "kind \<Rightarrow> bool"
  ae_defers :: "nat \<Rightarrow> bool"

record outbound =
  o_handle :: nat
  o_kind :: kind
  o_row :: nat
  o_message :: reflection
  o_method :: method_of_delivery
  o_ticket :: "(real \<times> bytes) option"

record sched =
  x_hub :: hub
  x_control :: "control option"
  x_directory :: "directory option"
  x_bucket :: bucket
  x_inflight :: "kind \<times> nat \<Rightarrow> (time \<times> nat) option"
  x_fresh :: nat
  x_outbox :: "outbound list"
  x_tickets :: tickets
  x_cache :: ticket_cache

definition x_store :: "sched \<Rightarrow> store" where
  "x_store x = h_store (x_hub x)"

definition upd_store :: "(store \<Rightarrow> store) \<Rightarrow> sched \<Rightarrow> sched" where
  "upd_store f x = x\<lparr>x_hub := (x_hub x)\<lparr>h_store := f (x_store x)\<rparr>\<rparr>"

definition ask_path :: "air_env \<Rightarrow> bytes \<Rightarrow> sched \<Rightarrow> sched" where
  "ask_path env u x = x\<lparr>x_hub := (x_hub x)\<lparr>h_requests :=
     request_path (hub_env.truncate env) u (h_requests (x_hub x))\<rparr>\<rparr>"

section \<open>Waiting times\<close>

definition backoff :: "hub_config \<Rightarrow> nat \<Rightarrow> real" where
  "backoff cfg attempts =
     min (retry_backoff_sec (egress_cfg cfg) * 2 ^ attempts) (retry_backoff_max_sec (egress_cfg cfg))"

definition grace :: "hub_config \<Rightarrow> nat \<Rightarrow> real" where
  "grace cfg graces =
     min (path_request_grace_sec (egress_cfg cfg) * 2 ^ min graces 16)
         (retry_backoff_max_sec (egress_cfg cfg))"

section \<open>In-flight bookkeeping\<close>

definition deadline :: "hub_config \<Rightarrow> air_env \<Rightarrow> time" where
  "deadline cfg env = ce_now env + delivery_timeout_sec (egress_cfg cfg)"

definition in_flight :: "hub_config \<Rightarrow> air_env \<Rightarrow> kind \<Rightarrow> nat \<Rightarrow> sched \<Rightarrow> bool \<times> sched" where
  "in_flight cfg env k i x =
     (case x_inflight x (k, i) of
        None \<Rightarrow> (False, x)
      | Some (until, msg) \<Rightarrow>
          if ce_now env < until then (True, x)
          else if ae_holds env msg
          then (True, x\<lparr>x_inflight := (x_inflight x)((k, i) := Some (deadline cfg env, msg))\<rparr>)
          else (False, x\<lparr>x_inflight := (x_inflight x)((k, i) := None)\<rparr>))"

definition mark_in_flight :: "hub_config \<Rightarrow> air_env \<Rightarrow> kind \<Rightarrow> nat \<Rightarrow> nat \<Rightarrow> sched \<Rightarrow> sched" where
  "mark_in_flight cfg env k i msg x =
     x\<lparr>x_inflight := (x_inflight x)((k, i) := Some (deadline cfg env, msg))\<rparr>"

definition release_row :: "kind \<Rightarrow> nat \<Rightarrow> sched \<Rightarrow> sched" where
  "release_row k i x = x\<lparr>x_inflight := (x_inflight x)((k, i) := None)\<rparr>"

section \<open>Handing a message to the router\<close>

definition desired_method :: "hub_config \<Rightarrow> air_env \<Rightarrow> method_of_delivery" where
  "desired_method cfg env =
     (if prefer_propagation (egress_cfg cfg) \<and> ae_node env then PROPAGATED else DIRECT)"

definition control_method :: "hub_config \<Rightarrow> air_env \<Rightarrow> nat \<Rightarrow> method_of_delivery" where
  "control_method cfg env attempts =
     (if attempts = 0 \<and> ae_node env then DIRECT else desired_method cfg env)"

text \<open>The common tail of the four \<open>send\<close> methods, after the row was re-armed: mark, seed the
  ticket, hand over, release if the router refuses.\<close>

definition hand_over ::
    "hub_config \<Rightarrow> air_env \<Rightarrow> kind \<Rightarrow> nat \<Rightarrow> reflection \<Rightarrow> method_of_delivery \<Rightarrow> sched \<Rightarrow> sched" where
  "hand_over cfg env k i msg method x =
     (let n = x_fresh x;
          x1 = mark_in_flight cfg env k i n (x\<lparr>x_fresh := n + 1\<rparr>);
          (tickets, cache) = seed (ce_now env) \<lparr>l_source = r_from msg, l_destination = r_to msg\<rparr>
            (x_tickets x1) (x_cache x1);
          x2 = x1\<lparr>x_tickets := tickets, x_cache := cache\<rparr>
      in if ae_accepts env n
         then x2\<lparr>x_outbox := x_outbox x2 @ [\<lparr>o_handle = n, o_kind = k, o_row = i, o_message = msg,
                o_method = method, o_ticket = cache (r_to msg)\<rparr>]\<rparr>
         else release_row k i x2)"

section \<open>Sending\<close>

definition send :: "hub_config \<Rightarrow> air_env \<Rightarrow> egress_item qrow \<Rightarrow> sched \<Rightarrow> bool \<times> sched" where
  "send cfg env row x =
     (let i = q_id row; item = q_item row; (busy, x1) = in_flight cfg env KIND_EGRESS i x
      in if busy then (False, x1)
         else case get_message (e_msg item) (x_store x1) of
           None \<Rightarrow> (False, upd_store (complete_egress i) x1)
         | Some record \<Rightarrow>
             if max_attempts (egress_cfg cfg) \<le> q_attempts row
             then (False, upd_store (complete_egress i) x1)
             else if destination_for (e_group item) (ce_dests env) = None
             then (False, upd_store (defer_egress i (retry_backoff_sec (egress_cfg cfg)) False (ce_now env)) x1)
             else if \<not> he_known env (e_recipient item)
             then (True, upd_store (defer_egress i (grace cfg (q_graces row)) False (ce_now env))
                    (ask_path env (e_recipient item) x1))
             else case build_reflection cfg (hub_env.truncate env) record (e_recipient item) (x_store x1) of
               None \<Rightarrow> (False, upd_store (defer_egress i (backoff cfg (q_attempts row)) True (ce_now env)) x1)
             | Some msg \<Rightarrow>
                 (True, hand_over cfg env KIND_EGRESS i msg (desired_method cfg env)
                    (upd_store (defer_egress i (backoff cfg (q_attempts row)) True (ce_now env)) x1)))"

definition build_notice_for :: "air_env \<Rightarrow> notice_item \<Rightarrow> sched \<Rightarrow> reflection option" where
  "build_notice_for env item x =
     (case n_source item of
        SOURCE_DIRECTORY \<Rightarrow>
          (case x_directory x of
             None \<Rightarrow> None
           | Some d \<Rightarrow> directory_build_reply d (n_recipient item) (n_body item))
      | SOURCE_GROUP \<Rightarrow>
          build_notice (hub_env.truncate env) (n_group item) (n_recipient item) (n_body item))"

definition send_notice :: "hub_config \<Rightarrow> air_env \<Rightarrow> notice_item qrow \<Rightarrow> sched \<Rightarrow> bool \<times> sched" where
  "send_notice cfg env row x =
     (let i = q_id row; item = q_item row; (busy, x1) = in_flight cfg env KIND_NOTICE i x
      in if busy then (False, x1)
         else if max_attempts (egress_cfg cfg) \<le> q_attempts row
         then (False, upd_store (complete_notice i) x1)
         else if n_source item = SOURCE_GROUP \<and> destination_for (n_group item) (ce_dests env) = None
         then (False, upd_store (defer_notice i (retry_backoff_sec (egress_cfg cfg)) False (ce_now env)) x1)
         else if n_source item \<noteq> SOURCE_GROUP \<and> x_directory x1 = None
         then (False, upd_store (complete_notice i) x1)
         else if \<not> he_known env (n_recipient item)
         then (True, upd_store (defer_notice i (grace cfg (q_graces row)) False (ce_now env))
                (ask_path env (n_recipient item) x1))
         else case build_notice_for env item x1 of
           None \<Rightarrow> (False, upd_store (defer_notice i (backoff cfg (q_attempts row)) True (ce_now env)) x1)
         | Some msg \<Rightarrow>
             (True, hand_over cfg env KIND_NOTICE i msg (desired_method cfg env)
                (upd_store (defer_notice i (backoff cfg (q_attempts row)) True (ce_now env)) x1)))"

definition send_user :: "hub_config \<Rightarrow> air_env \<Rightarrow> user_item qrow \<Rightarrow> sched \<Rightarrow> bool \<times> sched" where
  "send_user cfg env row x =
     (let i = q_id row; item = q_item row; (busy, x1) = in_flight cfg env KIND_USER i x
      in if busy then (False, x1)
         else if max_attempts (egress_cfg cfg) \<le> q_attempts row
         then (False, upd_store (complete_user i) x1)
         else if destination_for (u_group item) (ce_dests env) = None
         then (False, upd_store (defer_user i (retry_backoff_sec (egress_cfg cfg)) False (ce_now env)) x1)
         else if \<not> he_known env (u_recipient item)
         then (True, upd_store (defer_user i (grace cfg (q_graces row)) False (ce_now env))
                (ask_path env (u_recipient item) x1))
         else case build_notice (hub_env.truncate env) (u_group item) (u_recipient item) (u_body item) of
           None \<Rightarrow> (False, upd_store (defer_user i (backoff cfg (q_attempts row)) True (ce_now env)) x1)
         | Some msg \<Rightarrow>
             (True, hand_over cfg env KIND_USER i msg (desired_method cfg env)
                (upd_store (defer_user i (backoff cfg (q_attempts row)) True (ce_now env)) x1)))"

definition send_control :: "hub_config \<Rightarrow> air_env \<Rightarrow> control_item qrow \<Rightarrow> sched \<Rightarrow> sched" where
  "send_control cfg env row x =
     (let i = q_id row; item = q_item row; (busy, x1) = in_flight cfg env KIND_CONTROL i x
      in if busy then x1
         else case x_control x1 of
           None \<Rightarrow> upd_store (complete_control i) x1
         | Some c \<Rightarrow>
             if max_attempts (egress_cfg cfg) \<le> q_attempts row
             then upd_store (complete_control i) x1
             else if \<not> he_known env (c_recipient item)
             then upd_store (defer_control i (grace cfg (q_graces row)) False (ce_now env))
                    (ask_path env (c_recipient item) x1)
             else case control_build_reply c (c_recipient item) (c_body item) of
               None \<Rightarrow> upd_store (defer_control i (backoff cfg (q_attempts row)) True (ce_now env)) x1
             | Some msg \<Rightarrow>
                 hand_over cfg env KIND_CONTROL i msg (control_method cfg env (q_attempts row))
                   (upd_store (defer_control i (backoff cfg (q_attempts row)) True (ce_now env)) x1))"

section \<open>Callbacks\<close>

definition complete_row :: "kind \<Rightarrow> nat \<Rightarrow> store \<Rightarrow> store" where
  "complete_row k i s =
     (case k of KIND_EGRESS \<Rightarrow> complete_egress i s | KIND_NOTICE \<Rightarrow> complete_notice i s
      | KIND_CONTROL \<Rightarrow> complete_control i s | KIND_USER \<Rightarrow> complete_user i s)"

definition delivered :: "kind \<Rightarrow> nat \<Rightarrow> sched \<Rightarrow> sched" where
  "delivered k i x = upd_store (complete_row k i) (release_row k i x)"

definition delivery_failed :: "kind \<Rightarrow> nat \<Rightarrow> sched \<Rightarrow> sched" where
  "delivery_failed k i x = release_row k i x"

section \<open>One tick\<close>

text \<open>A send that may raise: \<open>None\<close> is the exception, with the state it leaves.\<close>

definition attempt ::
    "hub_config \<Rightarrow> air_env \<Rightarrow> kind \<Rightarrow> ('a \<Rightarrow> bytes) \<Rightarrow> ('a qrow \<Rightarrow> sched \<Rightarrow> 'b \<times> sched) \<Rightarrow> 'a qrow \<Rightarrow> sched
     \<Rightarrow> 'b option \<times> sched" where
  "attempt cfg env k recipient snd_row row x =
     (let (busy, x1) = in_flight cfg env k (q_id row) x; u = recipient (q_item row)
      in case (busy, ae_fault env k (q_id row)) of
           (False, Some f) \<Rightarrow>
             (None, if f = FAILS_AFTER_REQUEST \<and> \<not> he_known env u then ask_path env u x1 else x1)
         | _ \<Rightarrow> map_prod Some id (snd_row row x))"

text \<open>How a loop of the tick ends: it is through, it makes the tick return, or it raises.\<close>

datatype progress = THROUGH | RETURNS real | RAISES

fun drain_control :: "hub_config \<Rightarrow> air_env \<Rightarrow> control_item qrow list \<Rightarrow> sched \<Rightarrow> progress \<times> sched" where
  "drain_control cfg env [] x = (THROUGH, x)"
| "drain_control cfg env (row # rows) x =
     (if ae_stopped env KIND_CONTROL (q_id row) then (RETURNS (1/2), x)
      else
        case attempt cfg env KIND_CONTROL c_recipient (\<lambda>r y. ((), send_control cfg env r y)) row x of
          (Some _, x1) \<Rightarrow> drain_control cfg env rows x1
        | (None, x1) \<Rightarrow>
            let x2 = release_row KIND_CONTROL (q_id row) x1
            in if ae_defers env (q_id row)
               then drain_control cfg env rows
                 (upd_store (defer_control (q_id row) (backoff cfg (q_attempts row)) True (ce_now env)) x2)
               else (RAISES, x2))"

text \<open>A paced queue: a token before each row, given back if nothing went on air. After an exception the
  token is gone.\<close>

fun drain_paced ::
    "('a qrow \<Rightarrow> sched \<Rightarrow> bool option \<times> sched) \<Rightarrow> air_env \<Rightarrow> kind \<Rightarrow> 'a qrow list \<Rightarrow> sched
     \<Rightarrow> progress \<times> sched" where
  "drain_paced snd_row env k [] x = (THROUGH, x)"
| "drain_paced snd_row env k (row # rows) x =
     (if ae_stopped env k (q_id row) then (RETURNS (1/2), x)
      else
        let (granted, b) = consume 1 (ce_now env) (x_bucket x); x1 = x\<lparr>x_bucket := b\<rparr>
        in if \<not> granted then (RETURNS (max (1/2) (time_until 1 b)), x1)
           else case snd_row row x1 of
             (None, x2) \<Rightarrow> (RAISES, x2)
           | (Some aired, x2) \<Rightarrow>
               drain_paced snd_row env k rows
                 (if aired then x2 else x2\<lparr>x_bucket := refund 1 (x_bucket x2)\<rparr>))"

definition drain_queues :: "hub_config \<Rightarrow> air_env \<Rightarrow> bool \<Rightarrow> sched \<Rightarrow> progress \<times> sched" where
  "drain_queues cfg env replied x =
     (let limit = batch_size (egress_cfg cfg);
          answers = due_user limit (ce_now env) (x_store x);
          notices = due_notices limit (ce_now env) (x_store x);
          items = due_egress limit (ce_now env) (x_store x)
      in if \<not> (ae_reads env KIND_USER \<and> ae_reads env KIND_NOTICE \<and> ae_reads env KIND_EGRESS) then (RAISES, x)
         else if answers = [] \<and> notices = [] \<and> items = [] then (RETURNS (if replied then 1/2 else 2), x)
         else case drain_paced (attempt cfg env KIND_USER u_recipient (send_user cfg env)) env KIND_USER answers x of
           (THROUGH, x1) \<Rightarrow>
             (case drain_paced (attempt cfg env KIND_NOTICE n_recipient (send_notice cfg env)) env KIND_NOTICE notices x1 of
                (THROUGH, x2) \<Rightarrow>
                  (case drain_paced (attempt cfg env KIND_EGRESS e_recipient (send cfg env)) env KIND_EGRESS items x2 of
                     (THROUGH, x3) \<Rightarrow> (RETURNS (1/2), x3)
                   | r \<Rightarrow> r)
              | r \<Rightarrow> r)
         | r \<Rightarrow> r)"

text \<open>The two retries of held messages, and whether they return.\<close>

definition retry_all :: "hub_config \<Rightarrow> air_env \<Rightarrow> sched \<Rightarrow> bool \<times> sched" where
  "retry_all cfg env x =
     (let (returned, h) = retry_unverified cfg (hub_env.truncate env) (x_hub x)
      in if \<not> returned then (False, x\<lparr>x_hub := h\<rparr>)
         else case x_control x of
           None \<Rightarrow> (True, x\<lparr>x_hub := h\<rparr>)
         | Some c \<Rightarrow>
             let (c1, h1) = control_retry_unverified cfg (net_env.truncate env) (c, h)
             in (True, x\<lparr>x_hub := h1, x_control := Some c1\<rparr>))"

definition tick :: "hub_config \<Rightarrow> air_env \<Rightarrow> sched \<Rightarrow> progress \<times> sched" where
  "tick cfg env x =
     (let (returned, x1) = retry_all cfg env x;
          replies = due_control (batch_size (egress_cfg cfg)) (ce_now env) (x_store x1)
      in if \<not> (returned \<and> ae_reads env KIND_CONTROL) then (RAISES, x1)
         else case drain_control cfg env replies x1 of
           (THROUGH, x2) \<Rightarrow> drain_queues cfg env (replies \<noteq> []) x2
         | r \<Rightarrow> r)"

text \<open>One turn of \<open>_run\<close>: how long the thread sleeps, five seconds after an exception.\<close>

definition egress_turn :: "hub_config \<Rightarrow> air_env \<Rightarrow> sched \<Rightarrow> real \<times> sched" where
  "egress_turn cfg env x =
     (case tick cfg env x of (RETURNS idle, x1) \<Rightarrow> (idle, x1) | (_, x1) \<Rightarrow> (5, x1))"

end
