(* ===== verification/Egress_Facts.thy ===== *)
theory Egress_Facts
  imports Egress
begin

text \<open>
  What the scheduler guarantees: a row LXMF still carries is not sent again, a row is re-armed
  before it leaves, no row is handed over more often than \<open>max_attempts\<close>, what goes on air is
  bounded by the token bucket, and no message leaves with another conversation's ticket.
\<close>

section \<open>Frames\<close>

lemma upd_store_fields [simp]:
  "x_outbox (upd_store f x) = x_outbox x" "x_bucket (upd_store f x) = x_bucket x"
  "x_inflight (upd_store f x) = x_inflight x" "x_tickets (upd_store f x) = x_tickets x"
  "x_cache (upd_store f x) = x_cache x" "x_fresh (upd_store f x) = x_fresh x"
  "x_store (upd_store f x) = f (x_store x)" "x_control (upd_store f x) = x_control x"
  by (simp_all add: upd_store_def x_store_def)

lemma ask_path_fields [simp]:
  "x_outbox (ask_path env u x) = x_outbox x" "x_bucket (ask_path env u x) = x_bucket x"
  "x_inflight (ask_path env u x) = x_inflight x" "x_store (ask_path env u x) = x_store x"
  "x_tickets (ask_path env u x) = x_tickets x" "x_fresh (ask_path env u x) = x_fresh x"
  by (simp_all add: ask_path_def x_store_def)

lemma in_flight_fields [simp]:
  "x_outbox (snd (in_flight cfg env k i x)) = x_outbox x" "x_bucket (snd (in_flight cfg env k i x)) = x_bucket x"
  "x_store (snd (in_flight cfg env k i x)) = x_store x" "x_tickets (snd (in_flight cfg env k i x)) = x_tickets x"
  "x_cache (snd (in_flight cfg env k i x)) = x_cache x" "x_fresh (snd (in_flight cfg env k i x)) = x_fresh x"
  "x_control (snd (in_flight cfg env k i x)) = x_control x" "x_directory (snd (in_flight cfg env k i x)) = x_directory x"
  by (auto simp: in_flight_def x_store_def split: option.splits)

lemma hand_over_fields [simp]:
  "x_bucket (hand_over cfg env k i msg m x) = x_bucket x"
  "x_store (hand_over cfg env k i msg m x) = x_store x"
  by (simp_all add: hand_over_def mark_in_flight_def release_row_def x_store_def Let_def case_prod_beta)

text \<open>What the message is handed over with: the ticket of exactly this pair of addresses, if it
  has not expired.\<close>

definition scoped_ticket :: "time \<Rightarrow> tickets \<Rightarrow> bytes \<Rightarrow> bytes \<Rightarrow> (real \<times> bytes) option" where
  "scoped_ticket now ts from to =
     (case map_of ts (from, to) of None \<Rightarrow> None | Some (e, t) \<Rightarrow> if e \<le> now then None else Some (e, t))"

lemma hand_over_outbox:
  "x_outbox (hand_over cfg env k i msg m x) =
     (if ae_accepts env (x_fresh x)
      then x_outbox x @ [\<lparr>o_handle = x_fresh x, o_kind = k, o_row = i, o_message = msg, o_method = m,
        o_ticket = scoped_ticket (ce_now env) (x_tickets x) (r_from msg) (r_to msg)\<rparr>]
      else x_outbox x)"
  by (simp add: hand_over_def mark_in_flight_def release_row_def scoped_ticket_def Let_def
      case_prod_beta seed_cache)

lemma hand_over_inflight:
  "x_inflight (hand_over cfg env k i msg m x) =
     (x_inflight x)((k, i) := if ae_accepts env (x_fresh x) then Some (deadline cfg env, x_fresh x) else None)"
  by (simp add: hand_over_def mark_in_flight_def release_row_def Let_def case_prod_beta)

section \<open>Outcomes of a send\<close>

text \<open>Every send either leaves the outbox alone or hands over one message, after counting and
  re-arming its row; \<open>quiet\<close> covers the first case.\<close>

definition busy :: "hub_config \<Rightarrow> air_env \<Rightarrow> kind \<Rightarrow> nat \<Rightarrow> sched \<Rightarrow> bool" where
  "busy cfg env k i x \<longleftrightarrow> fst (in_flight cfg env k i x)"

lemma busy_iff:
  "busy cfg env k i x \<longleftrightarrow>
     (\<exists>until msg. x_inflight x (k, i) = Some (until, msg) \<and> (ce_now env < until \<or> ae_holds env msg))"
  by (auto simp: busy_def in_flight_def split: option.splits if_splits)

lemma send_busy:
  "busy cfg env KIND_EGRESS (q_id row) x \<Longrightarrow> fst (send cfg env row x) = False \<and>
     x_outbox (snd (send cfg env row x)) = x_outbox x \<and> x_store (snd (send cfg env row x)) = x_store x"
  by (simp add: send_def busy_def case_prod_beta Let_def)

lemma send_eq:
  "send cfg env row x =
     (let i = q_id row; item = q_item row; x1 = snd (in_flight cfg env KIND_EGRESS i x)
      in if busy cfg env KIND_EGRESS i x then (False, x1)
         else case get_message (e_msg item) (x_store x) of
           None \<Rightarrow> (False, upd_store (complete_egress i) x1)
         | Some r \<Rightarrow>
             if max_attempts (egress_cfg cfg) \<le> q_attempts row then (False, upd_store (complete_egress i) x1)
             else if destination_for (e_group item) (ce_dests env) = None
             then (False, upd_store (defer_egress i (retry_backoff_sec (egress_cfg cfg)) False (ce_now env)) x1)
             else if \<not> he_known env (e_recipient item)
             then (True, upd_store (defer_egress i (grace cfg (q_graces row)) False (ce_now env))
                    (ask_path env (e_recipient item) x1))
             else case build_reflection cfg (hub_env.truncate env) r (e_recipient item) (x_store x) of
               None \<Rightarrow> (False, upd_store (defer_egress i (backoff cfg (q_attempts row)) True (ce_now env)) x1)
             | Some msg \<Rightarrow> (True, hand_over cfg env KIND_EGRESS i msg (desired_method cfg env)
                 (upd_store (defer_egress i (backoff cfg (q_attempts row)) True (ce_now env)) x1)))"
  by (simp add: send_def busy_def Let_def case_prod_beta cong: option.case_cong if_cong)

lemma send_cases:
  obtains (quiet) f where "x_outbox (snd (send cfg env row x)) = x_outbox x"
      "x_store (snd (send cfg env row x)) = f (x_store x)"
      "f = id \<or> f = complete_egress (q_id row) \<or> (\<exists>d. f = defer_egress (q_id row) d False (ce_now env)) \<or>
        (f = defer_egress (q_id row) (backoff cfg (q_attempts row)) True (ce_now env))"
    | (handed) msg x1 where "snd (send cfg env row x) = hand_over cfg env KIND_EGRESS (q_id row) msg
        (desired_method cfg env) x1"
      "fst (send cfg env row x)" "x_outbox x1 = x_outbox x" "x_tickets x1 = x_tickets x"
      "x_store x1 = defer_egress (q_id row) (backoff cfg (q_attempts row)) True (ce_now env) (x_store x)"
      "q_attempts row < max_attempts (egress_cfg cfg)" "\<not> busy cfg env KIND_EGRESS (q_id row) x"
      "r_to msg = e_recipient (q_item row)"
proof -
  let ?i = "q_id row" and ?item = "q_item row"
  define x1 where "x1 = snd (in_flight cfg env KIND_EGRESS ?i x)"
  have x1: "x_outbox x1 = x_outbox x" "x_store x1 = x_store x" "x_tickets x1 = x_tickets x"
    by (simp_all add: x1_def)
  note s = send_eq [of cfg env row x, unfolded Let_def, folded x1_def]
  show thesis
  proof (cases "busy cfg env KIND_EGRESS ?i x \<or> get_message (e_msg ?item) (x_store x) = None \<or>
      max_attempts (egress_cfg cfg) \<le> q_attempts row \<or>
      destination_for (e_group ?item) (ce_dests env) = None \<or> \<not> he_known env (e_recipient ?item)")
    case True
    show thesis
      by (rule quiet [of "if busy cfg env KIND_EGRESS ?i x then id
          else if get_message (e_msg ?item) (x_store x) = None \<or> max_attempts (egress_cfg cfg) \<le> q_attempts row
          then complete_egress ?i
          else if destination_for (e_group ?item) (ce_dests env) = None
          then defer_egress ?i (retry_backoff_sec (egress_cfg cfg)) False (ce_now env)
          else defer_egress ?i (grace cfg (q_graces row)) False (ce_now env)"])
        (use True in \<open>auto simp: s x1 split: option.splits\<close>)
  next
    case False
    then obtain r where r: "get_message (e_msg ?item) (x_store x) = Some r"
      by auto
    show thesis
    proof (cases "build_reflection cfg (hub_env.truncate env) r (e_recipient ?item) (x_store x)")
      case None
      show thesis
        by (rule quiet [of "defer_egress ?i (backoff cfg (q_attempts row)) True (ce_now env)"])
          (use False r None in \<open>auto simp: s x1\<close>)
    next
      case (Some msg)
      have "r_to msg = e_recipient ?item"
        using Some by (auto simp: build_reflection_def split: option.splits)
      then show thesis
        by (intro handed [of msg "upd_store (defer_egress ?i (backoff cfg (q_attempts row)) True (ce_now env)) x1"])
          (use False r Some in \<open>auto simp: s x1\<close>)
    qed
  qed
qed

text \<open>A send hands nothing over, or one message after its row was re-armed.\<close>

lemma send_handed:
  "x_outbox (snd (send cfg env row x)) = x_outbox x \<or>
   (\<exists>o'. x_outbox (snd (send cfg env row x)) = x_outbox x @ [o'] \<and> o_kind o' = KIND_EGRESS \<and> o_row o' = q_id row \<and>
      x_store (snd (send cfg env row x)) =
        defer_egress (q_id row) (backoff cfg (q_attempts row)) True (ce_now env) (x_store x))"
  by (cases rule: send_cases [of cfg env row x]) (auto simp: hand_over_outbox)

section \<open>Waiting grows and is capped\<close>

lemma backoff_le_max: "backoff cfg a \<le> retry_backoff_max_sec (egress_cfg cfg)"
  by (simp add: backoff_def)

lemma backoff_mono:
  assumes "0 \<le> retry_backoff_sec (egress_cfg cfg)" and "a \<le> b"
  shows "backoff cfg a \<le> backoff cfg b"
proof -
  have "retry_backoff_sec (egress_cfg cfg) * 2 ^ a \<le> retry_backoff_sec (egress_cfg cfg) * 2 ^ b"
    using assms by (intro mult_left_mono power_increasing) auto
  then show ?thesis by (simp add: backoff_def)
qed

lemma grace_mono:
  assumes "0 \<le> path_request_grace_sec (egress_cfg cfg)" and "a \<le> b"
  shows "grace cfg a \<le> grace cfg b"
proof -
  have "(2 :: real) ^ min a 16 \<le> 2 ^ min b 16"
    using assms(2) by (intro power_increasing) auto
  then have "path_request_grace_sec (egress_cfg cfg) * 2 ^ min a 16
      \<le> path_request_grace_sec (egress_cfg cfg) * 2 ^ min b 16"
    using assms(1) by (rule mult_left_mono)
  then show ?thesis by (simp add: grace_def)
qed

section \<open>Pacing\<close>

text \<open>What went on air on the members' account: everything but the operator answers.\<close>

definition paced :: "sched \<Rightarrow> nat" where
  "paced x = length (filter (\<lambda>o'. o_kind o' \<noteq> KIND_CONTROL) (x_outbox x))"

text \<open>From \<open>x\<close> to \<open>x'\<close>, the messages sent are paid for by the tokens spent and the tokens that
  accrued until the bucket was last updated.\<close>

definition paid_by :: "time \<Rightarrow> sched \<Rightarrow> sched \<Rightarrow> bool" where
  "paid_by now x x' \<longleftrightarrow>
     bucket_ok (x_bucket x') \<and> b_rate (x_bucket x') = b_rate (x_bucket x) \<and>
     b_burst (x_bucket x') = b_burst (x_bucket x) \<and>
     b_updated (x_bucket x) \<le> b_updated (x_bucket x') \<and> b_updated (x_bucket x') \<le> now \<and>
     real (paced x') + b_tokens (x_bucket x') \<le> real (paced x) + b_tokens (x_bucket x)
       + b_rate (x_bucket x) * (b_updated (x_bucket x') - b_updated (x_bucket x))"

lemma paid_by_same:
  "bucket_ok (x_bucket x) \<Longrightarrow> b_updated (x_bucket x) \<le> now \<Longrightarrow> x_bucket x' = x_bucket x \<Longrightarrow>
   paced x' = paced x \<Longrightarrow> paid_by now x x'"
  by (simp add: paid_by_def)

lemma paid_by_trans:
  assumes "paid_by t x y" and "paid_by t' y z" and "t \<le> t'"
  shows "paid_by t' x z"
proof -
  have "b_rate (x_bucket x) * (b_updated (x_bucket z) - b_updated (x_bucket x)) =
      b_rate (x_bucket x) * (b_updated (x_bucket z) - b_updated (x_bucket y)) +
      b_rate (x_bucket x) * (b_updated (x_bucket y) - b_updated (x_bucket x))"
    by (simp add: algebra_simps)
  then show ?thesis
    using assms by (auto simp: paid_by_def)
qed

lemma paid_by_ok:
  "paid_by t x y \<Longrightarrow> bucket_ok (x_bucket y)" "paid_by t x y \<Longrightarrow> b_updated (x_bucket y) \<le> t"
  by (simp_all add: paid_by_def)

lemma paid_by_then:
  assumes "paid_by t x y" and "\<And>z. bucket_ok (x_bucket y) \<Longrightarrow> b_updated (x_bucket y) \<le> t \<Longrightarrow> paid_by t y (f y)"
  shows "paid_by t x (f y)"
  using assms paid_by_trans [OF assms(1) _ order_refl] by (simp add: paid_by_ok)

text \<open>One token taken, at most one message sent, or the token given back.\<close>

lemma paid_by_token:
  assumes "bucket_ok (x_bucket x)" and "b_updated (x_bucket x) \<le> now"
    and "b = snd (consume 1 now (x_bucket x))" and "fst (consume 1 now (x_bucket x)) \<or> \<not> aired"
    and "x_bucket y = (if aired then b else refund 1 b) \<and> fst (consume 1 now (x_bucket x)) \<or> x_bucket y = b"
    and "paced y \<le> paced x + (if aired then 1 else 0)"
  shows "paid_by now x y"
proof -
  let ?g = "fst (consume 1 now (x_bucket x))"
  have ok: "bucket_ok b" "bucket_ok (refund 1 b)"
    using bucket_ok_consume [OF assms(1,2)] bucket_ok_refund [of b 1] assms(3) by simp_all
  have f: "b_rate b = b_rate (x_bucket x)" "b_burst b = b_burst (x_bucket x)" "b_updated b = now"
    by (simp_all add: assms(3))
  have pot: "b_tokens b + (if ?g then 1 else 0)
      \<le> b_tokens (x_bucket x) + b_rate (x_bucket x) * (now - b_updated (x_bucket x))"
    using consume_potential [OF assms(2)] by (simp add: assms(3))
  have lvl: "real (paced y) + b_tokens (x_bucket y) \<le> real (paced x) + b_tokens b + (if ?g then 1 else 0)"
    using assms(4-6) refund_tokens [of 1 b] by (cases aired; cases ?g) auto
  have fields: "bucket_ok (x_bucket y)" "b_rate (x_bucket y) = b_rate (x_bucket x)"
    "b_burst (x_bucket y) = b_burst (x_bucket x)" "b_updated (x_bucket y) = now"
    using assms(5) ok f by auto
  show ?thesis
    using fields pot lvl assms(2) by (simp add: paid_by_def)
qed

text \<open>What an attempt to send leaves: what the send leaves, or after an exception only the in-flight table
  and the requested paths may have changed.\<close>

lemma attempt_cases:
  obtains (returned) "attempt cfg env k recipient snd_row row x = map_prod Some id (snd_row row x)"
    | (raised) x1 where "attempt cfg env k recipient snd_row row x = (None, x1)"
      "x1 = snd (in_flight cfg env k (q_id row) x) \<or>
       x1 = ask_path env (recipient (q_item row)) (snd (in_flight cfg env k (q_id row) x))"
      "\<not> busy cfg env k (q_id row) x"
proof -
  obtain b y where fl: "in_flight cfg env k (q_id row) x = (b, y)"
    by (cases "in_flight cfg env k (q_id row) x")
  show thesis
  proof (cases "b \<or> ae_fault env k (q_id row) = None")
    case True
    then show thesis
      by (intro returned) (auto simp: attempt_def fl Let_def split: option.split bool.split)
  next
    case False
    then show thesis
      by (intro raised [of "snd (attempt cfg env k recipient snd_row row x)"]) (auto simp: attempt_def fl busy_def Let_def)
  qed
qed

lemma attempt_keeps:
  assumes "\<And>f. P (snd (snd_row row x))" and "P (snd (in_flight cfg env k (q_id row) x))"
    and "P (ask_path env (recipient (q_item row)) (snd (in_flight cfg env k (q_id row) x)))"
  shows "P (snd (attempt cfg env k recipient snd_row row x))"
  by (cases rule: attempt_cases [of cfg env k recipient snd_row row x]) (use assms in \<open>auto simp: case_prod_beta\<close>)

text \<open>What the paced loop needs of a send: it does not touch the bucket, it hands over at most
  one message, and none when it raises or says that nothing went on air.\<close>

locale row_sender =
  fixes snd_row :: "'a qrow \<Rightarrow> sched \<Rightarrow> bool option \<times> sched"
  assumes bucket_same: "x_bucket (snd (snd_row row x)) = x_bucket x"
    and paced_le: "paced (snd (snd_row row x)) \<le> paced x + (if fst (snd_row row x) = Some True then 1 else 0)"
begin

lemma paced_bound:
  "bucket_ok (x_bucket x) \<Longrightarrow> b_updated (x_bucket x) \<le> ce_now env \<Longrightarrow>
   paid_by (ce_now env) x (snd (drain_paced snd_row env k rows x))"
proof (induction rows arbitrary: x)
  case (Cons row rows)
  show ?case
  proof (cases "ae_stopped env k (q_id row)")
    case False
    let ?b = "snd (consume 1 (ce_now env) (x_bucket x))"
    let ?x1 = "x\<lparr>x_bucket := ?b\<rparr>"
    show ?thesis
    proof (cases "fst (consume 1 (ce_now env) (x_bucket x))")
      case refused: False
      have "paid_by (ce_now env) x ?x1"
        by (rule paid_by_token [where aired = False, OF Cons.prems refl]) (simp_all add: refused paced_def)
      then show ?thesis
        using refused False by (simp add: case_prod_beta Let_def)
    next
      case granted: True
      let ?x2 = "snd (snd_row row ?x1)"
      have b2: "x_bucket ?x2 = ?b"
        using bucket_same [of row ?x1] by simp
      have same: "paced ?x1 = paced x" "paced (?x2\<lparr>x_bucket := b\<rparr>) = paced ?x2" for b
        by (simp_all add: paced_def)
      show ?thesis
      proof (cases "fst (snd_row row ?x1)")
        case None
        have "paid_by (ce_now env) x ?x2"
          by (rule paid_by_token [where aired = False, OF Cons.prems refl])
            (use paced_le [of row ?x1] None in \<open>simp_all add: b2 same\<close>)
        then show ?thesis
          using False granted None by (simp add: case_prod_beta Let_def)
      next
        case (Some aired)
        let ?x3 = "if aired then ?x2 else ?x2\<lparr>x_bucket := refund 1 (x_bucket ?x2)\<rparr>"
        have "paid_by (ce_now env) x ?x3"
          by (rule paid_by_token [where aired = aired, OF Cons.prems refl])
            (use paced_le [of row ?x1] granted Some in \<open>simp_all add: b2 same split: if_splits\<close>)
        then have "paid_by (ce_now env) x (snd (drain_paced snd_row env k rows ?x3))"
          by (rule paid_by_then) (rule Cons.IH)
        then show ?thesis
          using False granted Some by (simp add: case_prod_beta Let_def)
      qed
    qed
  qed (use Cons.prems in \<open>auto intro: paid_by_same\<close>)
qed (auto intro: paid_by_same)

end

lemma paced_fields [simp]:
  "paced (upd_store f x) = paced x" "paced (ask_path env u x) = paced x"
  "paced (snd (in_flight cfg env k i x)) = paced x" "paced (release_row k i x) = paced x"
  by (simp_all add: paced_def release_row_def)

lemma paced_hand_over:
  "paced (hand_over cfg env k i msg m x) = paced x \<or> paced (hand_over cfg env k i msg m x) = Suc (paced x)"
  "paced (hand_over cfg env KIND_CONTROL i msg m x) = paced x"
  by (simp_all add: hand_over_outbox paced_def)

lemma paced_hand_over_le: "paced (hand_over cfg env k i msg m x) \<le> Suc (paced x)"
  using paced_hand_over(1) [of cfg env k i msg m x] by auto

lemma send_bucket:
  "x_bucket (snd (send cfg env e x)) = x_bucket x" "x_bucket (snd (send_notice cfg env n x)) = x_bucket x"
  "x_bucket (snd (send_user cfg env u x)) = x_bucket x"
  by (simp_all add: send_def send_notice_def send_user_def case_prod_beta Let_def split: option.split)

lemma send_paced:
  "paced (snd (send cfg env e x)) \<le> paced x + (if fst (send cfg env e x) then 1 else 0)"
  "paced (snd (send_notice cfg env n x)) \<le> paced x + (if fst (send_notice cfg env n x) then 1 else 0)"
  "paced (snd (send_user cfg env u x)) \<le> paced x + (if fst (send_user cfg env u x) then 1 else 0)"
  subgoal
    by (auto simp: send_def case_prod_beta Let_def intro: order_trans [OF paced_hand_over_le] split: option.splits)
  subgoal
    by (auto simp: send_notice_def case_prod_beta Let_def intro: order_trans [OF paced_hand_over_le] split: option.splits)
  subgoal
    by (auto simp: send_user_def case_prod_beta Let_def intro: order_trans [OF paced_hand_over_le] split: option.splits)
  done

lemma row_sender_attempt:
  assumes "\<And>row x. x_bucket (snd (snd_row row x)) = x_bucket x"
    and "\<And>row x. paced (snd (snd_row row x)) \<le> paced x + (if fst (snd_row row x) then 1 else 0)"
  shows "row_sender (attempt cfg env k recipient snd_row)"
proof
  fix row x
  show "x_bucket (snd (attempt cfg env k recipient snd_row row x)) = x_bucket x"
    by (rule attempt_keeps [where P = "\<lambda>y. x_bucket y = x_bucket x"]) (simp_all add: assms(1))
  show "paced (snd (attempt cfg env k recipient snd_row row x)) \<le>
      paced x + (if fst (attempt cfg env k recipient snd_row row x) = Some True then 1 else 0)"
    by (cases rule: attempt_cases [of cfg env k recipient snd_row row x]) (use assms in \<open>auto simp: case_prod_beta\<close>)
qed

interpretation egress_sender: row_sender "attempt cfg env KIND_EGRESS e_recipient (send cfg env)" for cfg env
  by (rule row_sender_attempt) (rule send_bucket, rule send_paced)

interpretation notice_sender: row_sender "attempt cfg env KIND_NOTICE n_recipient (send_notice cfg env)" for cfg env
  by (rule row_sender_attempt) (rule send_bucket, rule send_paced)

interpretation user_sender: row_sender "attempt cfg env KIND_USER u_recipient (send_user cfg env)" for cfg env
  by (rule row_sender_attempt) (rule send_bucket, rule send_paced)

lemma send_control_paced [simp]:
  "x_bucket (send_control cfg env row x) = x_bucket x" "paced (send_control cfg env row x) = paced x"
  by (auto simp: send_control_def case_prod_beta Let_def paced_hand_over(2) split: option.splits)

text \<open>A property that a send and the handling of its failure keep survives the operator answers.\<close>

lemma drain_control_keeps:
  assumes send: "\<And>row x. P x \<Longrightarrow> P (send_control cfg env row x)"
    and flight: "\<And>i x. P x \<Longrightarrow> P (snd (in_flight cfg env KIND_CONTROL i x))"
    and ask: "\<And>u x. P x \<Longrightarrow> P (ask_path env u x)"
    and rel: "\<And>i x. P x \<Longrightarrow> P (release_row KIND_CONTROL i x)"
    and put_off: "\<And>i d x. P x \<Longrightarrow> P (upd_store (defer_control i d True (ce_now env)) x)"
  shows "P x \<Longrightarrow> P (snd (drain_control cfg env rows x))"
proof (induction rows arbitrary: x)
  case (Cons row rows)
  let ?a = "attempt cfg env KIND_CONTROL c_recipient (\<lambda>r y. ((), send_control cfg env r y)) row x"
  have "P (snd ?a)"
    by (rule attempt_keeps) (use Cons.prems send flight ask in auto)
  then show ?case
    using Cons.IH Cons.prems rel put_off by (cases ?a) (auto simp: Let_def split: option.split)
qed simp

lemma drain_control_paced [simp]:
  "x_bucket (snd (drain_control cfg env rows x)) = x_bucket x"
  "paced (snd (drain_control cfg env rows x)) = paced x"
  by (rule drain_control_keeps [where P = "\<lambda>y. x_bucket y = x_bucket x"]; simp add: release_row_def)
    (rule drain_control_keeps [where P = "\<lambda>y. paced y = paced x"]; simp)

lemma retry_all_paced [simp]:
  "x_bucket (snd (retry_all cfg env x)) = x_bucket x" "paced (snd (retry_all cfg env x)) = paced x"
  by (simp_all add: retry_all_def paced_def case_prod_beta Let_def split: option.splits)

text \<open>Where the three paced queues can end.\<close>

lemma drain_queues_end:
  assumes "x1 = snd (drain_paced (attempt cfg env KIND_USER u_recipient (send_user cfg env)) env KIND_USER
      (due_user (batch_size (egress_cfg cfg)) (ce_now env) (x_store x)) x)"
    and "x2 = snd (drain_paced (attempt cfg env KIND_NOTICE n_recipient (send_notice cfg env)) env KIND_NOTICE
      (due_notices (batch_size (egress_cfg cfg)) (ce_now env) (x_store x)) x1)"
    and "x3 = snd (drain_paced (attempt cfg env KIND_EGRESS e_recipient (send cfg env)) env KIND_EGRESS
      (due_egress (batch_size (egress_cfg cfg)) (ce_now env) (x_store x)) x2)"
  shows "snd (drain_queues cfg env replied x) \<in> {x, x1, x2, x3}"
proof -
  define A where "A = due_user (batch_size (egress_cfg cfg)) (ce_now env) (x_store x)"
  define N where "N = due_notices (batch_size (egress_cfg cfg)) (ce_now env) (x_store x)"
  define E where "E = due_egress (batch_size (egress_cfg cfg)) (ce_now env) (x_store x)"
  obtain r1 r2 r3 where
    1: "drain_paced (attempt cfg env KIND_USER u_recipient (send_user cfg env)) env KIND_USER A x = (r1, x1)" and
    2: "drain_paced (attempt cfg env KIND_NOTICE n_recipient (send_notice cfg env)) env KIND_NOTICE N x1 = (r2, x2)" and
    3: "drain_paced (attempt cfg env KIND_EGRESS e_recipient (send cfg env)) env KIND_EGRESS E x2 = (r3, x3)"
    using assms unfolding A_def N_def E_def by (metis prod.collapse)
  show ?thesis
    unfolding drain_queues_def Let_def A_def [symmetric] N_def [symmetric] E_def [symmetric] 1
    by (cases r1; cases r2; cases r3) (simp_all add: 2 3)
qed

lemma drain_queues_paid:
  assumes ok: "bucket_ok (x_bucket x)" and le: "b_updated (x_bucket x) \<le> ce_now env"
  shows "paid_by (ce_now env) x (snd (drain_queues cfg env replied x))"
proof -
  let ?l = "batch_size (egress_cfg cfg)" and ?now = "ce_now env"
  define A where "A = due_user ?l ?now (x_store x)"
  define N where "N = due_notices ?l ?now (x_store x)"
  define E where "E = due_egress ?l ?now (x_store x)"
  define x1 where "x1 = snd (drain_paced (attempt cfg env KIND_USER u_recipient (send_user cfg env)) env KIND_USER A x)"
  define x2 where "x2 = snd (drain_paced (attempt cfg env KIND_NOTICE n_recipient (send_notice cfg env)) env KIND_NOTICE N x1)"
  define x3 where "x3 = snd (drain_paced (attempt cfg env KIND_EGRESS e_recipient (send cfg env)) env KIND_EGRESS E x2)"
  have p1: "paid_by ?now x x1"
    unfolding x1_def by (rule user_sender.paced_bound [OF ok le])
  then have p2: "paid_by ?now x x2"
    unfolding x2_def by (rule paid_by_then) (rule notice_sender.paced_bound)
  then have p3: "paid_by ?now x x3"
    unfolding x3_def by (rule paid_by_then) (rule egress_sender.paced_bound)
  have p0: "paid_by ?now x x"
    using ok le by (rule paid_by_same) simp_all
  have "snd (drain_queues cfg env replied x) \<in> {x, x1, x2, x3}"
    by (rule drain_queues_end) (simp_all add: x1_def x2_def x3_def A_def N_def E_def)
  then show ?thesis
    using p0 p1 p2 p3 by auto
qed

lemma tick_paid:
  assumes "bucket_ok (x_bucket x)" and "b_updated (x_bucket x) \<le> ce_now env"
  shows "paid_by (ce_now env) x (snd (tick cfg env x))"
proof -
  let ?x1 = "snd (retry_all cfg env x)"
  let ?replies = "due_control (batch_size (egress_cfg cfg)) (ce_now env) (x_store ?x1)"
  let ?x2 = "snd (drain_control cfg env ?replies ?x1)"
  have p1: "paid_by (ce_now env) x ?x1"
    using assms by (rule paid_by_same) simp_all
  have p: "paid_by (ce_now env) x ?x2"
    using assms by (rule paid_by_same) simp_all
  then have "paid_by (ce_now env) x (snd (drain_queues cfg env (?replies \<noteq> []) ?x2))"
    by (rule paid_by_then) (rule drain_queues_paid)
  with p p1 show ?thesis
    by (simp add: tick_def Let_def case_prod_beta split: progress.split)
qed

end
