(* ===== verification/Sample.thy ===== *)
theory Sample
  imports Federation_Facts Egress_Facts Failover
begin

text \<open>
  A small concrete hub, used by the witnesses to show that the hypotheses of the properties can
  hold together: one group with two members and a banned third, and stand-ins for the libraries.
\<close>

definition alice :: bytes where "alice = replicate 16 1"
definition bob :: bytes where "bob = replicate 16 2"
definition mallory :: bytes where "mallory = replicate 16 3"
definition stranger :: bytes where "stranger = replicate 16 4"
definition net_hash :: bytes where "net_hash = replicate 16 5"
definition peer_hub :: bytes where "peer_hub = replicate 16 6"

lemmas who_defs = alice_def bob_def mallory_def stranger_def net_hash_def peer_hub_def

lemma who_distinct [simp]:
  "alice \<noteq> bob" "bob \<noteq> alice" "alice \<noteq> mallory" "mallory \<noteq> alice" "bob \<noteq> mallory" "mallory \<noteq> bob"
  "alice \<noteq> stranger" "stranger \<noteq> alice" "bob \<noteq> stranger" "stranger \<noteq> bob"
  "mallory \<noteq> stranger" "stranger \<noteq> mallory"
  by (simp_all add: who_defs)

definition sample_group :: group_record where
  "sample_group = \<lparr>g_id = ''net'', g_name = ''Net'', g_key = [7], g_created = 0, g_acl = ''invite''\<rparr>"

definition sample_members :: "member_row list" where
  "sample_members =
     [\<lparr>mb_group = ''net'', mb_user = alice, mb_role = ROLE_MEMBER, mb_added = 0\<rparr>,
      \<lparr>mb_group = ''net'', mb_user = bob, mb_role = ROLE_ADMIN, mb_added = 0\<rparr>,
      \<lparr>mb_group = ''net'', mb_user = mallory, mb_role = ROLE_BANNED, mb_added = 0\<rparr>]"

definition sample_store :: store where
  "sample_store = empty_store\<lparr>s_groups := [sample_group], s_members := sample_members\<rparr>"

definition sample_record :: message_record where
  "sample_record = \<lparr>m_hash = [42], m_group = ''net'', m_sender = alice, m_time = 7200, m_payload = [1],
     m_origin = ORIGIN_LOCAL\<rparr>"

definition sample_dests :: destinations where
  "sample_dests = \<lparr>ds_dests = [(''net'', net_hash)], ds_by_hash = (\<lambda>h. if h = net_hash then Some ''net'' else None),
     ds_next = [(''net'', 0)], ds_router = (\<lambda>h. h = net_hash), ds_announced = []\<rparr>"

definition sample_env :: hub_env where
  "sample_env = \<lparr>ce_now = 7300, ce_later = 7300, ce_new_id = replicate 16 9, ce_code = ''ABCDEF'',
     ce_dests = sample_dests, ce_dest_of = (\<lambda>k. Some net_hash), ce_operator_help = [],
     ce_error_text = (\<lambda>e. ''error''), ce_number_text = (\<lambda>x. ''number''),
     he_sha = (\<lambda>x. take 32 (rev x @ replicate 32 0)), he_double = (\<lambda>t. replicate 8 0),
     he_pack = (\<lambda>(t, title, content, fs). content), he_unpack = (\<lambda>x. Some (7200, [], x, [])),
     he_known = (\<lambda>u. True), he_path = (\<lambda>u. True),
     he_packable = (\<lambda>m. True), he_lxm = (\<lambda>x. \<lparr>x_source = [], x_destination = [], x_valid = False, x_unknown = False, x_packed = [],
        x_time = 0, x_title = [], x_content = [], x_fields = []\<rparr>),
     he_decode = map (\<lambda>b. char_of (unat b)), he_pretty = hex\<rparr>"

definition sample_lxm :: lxm where
  "sample_lxm = \<lparr>x_source = alice, x_destination = net_hash, x_valid = True, x_unknown = False,
     x_packed = [1], x_time = 7200, x_title = [], x_content = [104, 105], x_fields = [(253, VStr ''bob'')]\<rparr>"

definition sample_hub :: hub where
  "sample_hub = \<lparr>h_store = sample_store, h_commands = None, h_unverified = [], h_requests = []\<rparr>"

lemmas sample_defs = sample_group_def sample_members_def sample_store_def sample_record_def
  sample_dests_def sample_env_def sample_lxm_def sample_hub_def

lemmas default_defs = default_config_def default_egress_def default_federation_def
  default_failover_def default_directory_def default_commands_def

lemma sample_store_ok [simp]: "store_ok sample_store"
  by (simp add: store_ok_def ok_defs sample_defs empty_store_def empty_queue_def names_unique_def
      named_def keys_distinct_def member_key_def queue_ok_def)

lemma sample_roles [simp]:
  "get_role ''net'' alice sample_store = Some ROLE_MEMBER"
  "get_role ''net'' bob sample_store = Some ROLE_ADMIN"
  "get_role ''net'' mallory sample_store = Some ROLE_BANNED"
  "get_role ''net'' stranger sample_store = None"
  by (simp_all add: get_role_def sample_store_def sample_members_def sql_lookup_def member_key_def)

end
