(* ===== verification/Store_Properties.thy ===== *)
theory Store_Properties
  imports Sample
begin

text \<open>
  Properties of the persistent store: atomicity of the store-and-queue transaction, durability
  of the queues and gossip.
\<close>

section \<open>The transaction\<close>

text \<open>C36: \<open>store_and_enqueue\<close> is atomic under a crash: whatever number of the SQL statements of the
  call had run when the process was killed, the database is the one before the call, unless the
  commit had run, and then it is the one the call computes.\<close>

theorem crash_atomic:
  "work (crash (run_stmts (take k (enqueue_stmts r us now s)) \<lparr>disk = s, work = s\<rparr>)) =
     (if k < length (enqueue_stmts r us now s) then s else snd (store_and_enqueue r us now s))"
  using crash_before_commit [of k r us now s] run_enqueue_stmts [of r us now s]
  by (auto simp: crash_def)

section \<open>Queues\<close>

text \<open>A queued delivery is lost only by completing it: after any sequence of pushes, deferrals
  and completions of other rows the row is still there with its item.\<close>

theorem queued_until_completed:
  assumes "queue_ok q" and "queue_item q i = Some x" and "QComplete i \<notin> set ops"
  shows "queue_item (egress_q.run ops q) i = Some x"
  using assms by (rule egress_q.survives)

definition sample_queue :: "egress_item queue" where
  "sample_queue = snd (queue_insert_ignore egress_key
     \<lparr>e_group = ''net'', e_recipient = bob, e_msg = [42]\<rparr> 0 0 empty_queue)"

lemma sample_queue_facts:
  "queue_ok sample_queue"
  "queue_item sample_queue 1 = Some \<lparr>e_group = ''net'', e_recipient = bob, e_msg = [42]\<rparr>"
  by (simp_all add: sample_queue_def) (simp add: queue_insert_ignore_def empty_queue_def fresh_row_def
      queue_item_def queue_row_def sql_lookup_def has_key_def)

theorem queued_until_completed_witness:
  "queue_item (egress_q.run [QPush \<lparr>e_group = ''net'', e_recipient = alice, e_msg = [42]\<rparr> 1,
     QDefer 1 60 True 1, QComplete 2] sample_queue) 1 =
   Some \<lparr>e_group = ''net'', e_recipient = bob, e_msg = [42]\<rparr>"
  by (rule queued_until_completed [OF sample_queue_facts]) simp

section \<open>Gossip\<close>

text \<open>A peer that lists a member twice makes \<open>record_peer_state\<close> raise after it has deleted what
  was known of the peer: the call fails and the peer's former members are gone, although the
  method is meant to replace the state in one transaction.\<close>

theorem gossip_half_applied:
  "fst (record_peer_state peer name groups [(g, [u, u])] now s) = Inl IntegrityError \<and>
   (v \<noteq> u \<or> h \<noteq> g \<longrightarrow> v \<notin> set (list_peer_members peer h (snd (record_peer_state peer name groups [(g, [u, u])] now s))))"
  by (auto simp: record_peer_state_def Let_def case_prod_beta set_list_peer_members sql_insert_def
      has_key_def peer_member_key_def sql_delete_def split: option.splits)

theorem gossip_half_applied_witness:
  "bob \<notin> set (list_peer_members peer_hub ''net'' (snd (record_peer_state peer_hub ''Other'' []
     [(''net'', [alice, alice])] 0 sample_store)))"
  using gossip_half_applied [of peer_hub "''Other''" "[]" "''net''" alice 0 sample_store bob "''net''"] by simp

end
