(* ===== verification/Hub_Properties.thy ===== *)
theory Hub_Properties
  imports Store_Properties
begin

text \<open>
  Properties of the reflection core: whom a message reaches, bans, verification, attribution,
  and exactly-once ingest of what peers send.
\<close>

section \<open>Delivery\<close>

lemma adopted_authorise: "adopted p g u (snd (authorise now x v s)) = adopted p g u s"
  by (simp add: adopted_def)

lemma recipients_after_authorise:
  assumes "store_ok s" and "g_id g = gid" and "fst (authorise now g v s)" and "u \<noteq> v"
  shows "u \<in> set (recipients gid (snd (authorise now g v s))) \<longleftrightarrow>
    (case get_role gid u s of Some r \<Rightarrow> r \<noteq> ROLE_BANNED | None \<Rightarrow> \<exists>p. adopted p gid u s)"
proof -
  have "groups_ok (snd (authorise now g v s))"
    using store_ok_authorise [OF assms(1)] by (rule store_okD)
  then show ?thesis
    using assms(4) by (cases "get_role gid u s") (simp_all add: recipients_iff authorise_role adopted_authorise)
qed

lemma is_queued_cong: "s_egress s' = s_egress s \<Longrightarrow> is_queued u h s' = is_queued u h s"
  by (simp add: is_queued_def)

text \<open>C1: a verified message from an authorised sender that is no command is stored, and queued for
  exactly the members of its group that are not banned and the members adopted from silent peers,
  the sender excepted; no other delivery appears or disappears.\<close>

theorem inbound_reaches_recipients:
  assumes "posted cfg env m h gid g" and "store_ok (h_store h)"
    and "\<not> has_message (m_hash (inbound_record cfg env gid m)) (h_store h)"
  shows "get_message (m_hash (inbound_record cfg env gid m)) (h_store (handle_inbound cfg env m h)) =
      Some (inbound_record cfg env gid m) \<and>
    (is_queued u k (h_store (handle_inbound cfg env m h)) \<longleftrightarrow>
      is_queued u k (h_store h) \<or>
      (k = m_hash (inbound_record cfg env gid m) \<and> u \<noteq> x_source m \<and>
        (case get_role gid u (h_store h) of
           Some r \<Rightarrow> r \<noteq> ROLE_BANNED | None \<Rightarrow> \<exists>p. adopted p gid u (h_store h))))"
proof -
  let ?s1 = "snd (authorise (ce_now env) g (x_source m) (h_store h))"
  have id: "g_id g = gid" and ok1: "fst (authorise (ce_now env) g (x_source m) (h_store h))"
    using assms(1) by (auto simp: posted_def accepted_def get_group_id)
  have new: "\<not> has_message (m_hash (inbound_record cfg env gid m)) ?s1"
    using assms(3) by (simp add: has_message_def)
  note out = store_and_fan_out_new [OF store_ok_authorise [OF assms(2)] new, where now = "ce_now env"]
  show ?thesis
    unfolding posted_store [OF assms(1)] out(2) out(3)
    using recipients_after_authorise [OF assms(2) id ok1, of u] is_queued_cong [of ?s1 "h_store h" u k]
    by (cases "u = x_source m") auto
qed

lemma sample_posted: "posted default_config sample_env sample_lxm sample_hub ''net'' sample_group"
  by (simp add: posted_def accepted_def sample_defs empty_store_def group_for_hash_def get_group_def sql_lookup_def
      authorise_def get_role_def member_key_def)

theorem inbound_reaches_recipients_witness:
  "is_queued bob (m_hash (inbound_record default_config sample_env ''net'' sample_lxm))
     (h_store (handle_inbound default_config sample_env sample_lxm sample_hub)) \<and>
   \<not> is_queued mallory (m_hash (inbound_record default_config sample_env ''net'' sample_lxm))
     (h_store (handle_inbound default_config sample_env sample_lxm sample_hub))"
proof -
  have s: "h_store sample_hub = sample_store" "x_source sample_lxm = alice"
    by (simp_all add: sample_hub_def sample_lxm_def)
  have fresh: "\<not> has_message k sample_store" "\<not> is_queued u k sample_store" for u k
    by (simp_all add: has_message_def is_queued_def sample_store_def empty_store_def empty_queue_def has_key_def)
  have ok: "store_ok (h_store sample_hub)"
    by (simp add: s)
  have new: "\<not> has_message (m_hash (inbound_record default_config sample_env ''net'' sample_lxm)) (h_store sample_hub)"
    by (simp add: s fresh)
  show ?thesis
    using inbound_reaches_recipients [OF sample_posted ok new] by (simp add: s fresh)
qed

section \<open>Attribution\<close>

text \<open>C35: a reflection of a message names its verified sender, whatever the fields of the original claimed: the
  author field holds the source hash of the message with the username of that sender's persona, the group and
  the hub, and the line that members see starts with that username, or with the address of the sender if there
  is none. All other fields, the title and the content after that are those of the original.\<close>

theorem author_not_forgeable:
  assumes "he_unpack env (m_payload (inbound_record cfg env gid m)) =
      Some (x_time m, x_title m, x_content m, sanitise_fields cfg (x_fields m))"
    and "reflection_payload cfg env (inbound_record cfg env gid m) hub s = Some (title, content, fs)"
  shows "map_of fs (author_field cfg) = Some (VDict [(VStr ''author'', VBytes (x_source m)), (VStr ''group'', VStr gid),
      (VStr ''hub'', VBytes hub),
      (VStr ''name'', case display_name_for (x_source m) s of None \<Rightarrow> VNone | Some n \<Rightarrow> VStr n)]) \<and>
    (\<forall>k. k \<noteq> author_field cfg \<longrightarrow> map_of fs k = map_of (x_fields m) k) \<and>
    title = x_title m \<and>
    content = (if author_prefix_in_content cfg
       then utf8 ((case display_name_for (x_source m) s of
           None \<Rightarrow> he_pretty env (x_source m) | Some n \<Rightarrow> if n = '''' then he_pretty env (x_source m) else n) @ '': '')
       else []) @ x_content m"
  using reflection_of_inbound [OF assms] by blast

text \<open>The witness is a message of alice whose author field claims to be from bob.\<close>

theorem author_not_forgeable_witness:
  "map_of (x_fields sample_lxm) 253 = Some (VStr ''bob'') \<and> (\<exists>title content fs. reflection_payload default_config sample_env
      (inbound_record default_config sample_env ''net'' sample_lxm) net_hash sample_store = Some (title, content, fs) \<and>
    map_of fs 253 = Some (VDict [(VStr ''author'', VBytes alice), (VStr ''group'', VStr ''net''), (VStr ''hub'', VBytes net_hash),
      (VStr ''name'', VNone)]) \<and> content = utf8 (hex alice @ '': '') @ x_content sample_lxm)"
proof -
  have u: "he_unpack sample_env (m_payload (inbound_record default_config sample_env ''net'' sample_lxm)) =
      Some (x_time sample_lxm, x_title sample_lxm, x_content sample_lxm,
        sanitise_fields default_config (x_fields sample_lxm))"
    by (simp add: sample_env_def sample_lxm_def sanitise_fields_def dict_pop_def default_config_def)
  then obtain title content fs where p: "reflection_payload default_config sample_env
      (inbound_record default_config sample_env ''net'' sample_lxm) net_hash sample_store = Some (title, content, fs)"
    by (simp add: reflection_payload_def Let_def)
  have "display_name_for (x_source sample_lxm) sample_store = None"
    by (simp add: display_name_for_def persona_for_identity_def get_persona_identity_def sample_store_def
        empty_store_def sql_lookup_def)
  moreover have "author_field default_config = 253" "author_prefix_in_content default_config" "x_source sample_lxm = alice"
    "he_pretty sample_env = hex" "map_of (x_fields sample_lxm) 253 = Some (VStr ''bob'')"
    by (simp_all add: default_config_def sample_lxm_def sample_env_def)
  ultimately show ?thesis
    using author_not_forgeable [OF u p] p by (intro conjI exI [of _ title] exI [of _ content] exI [of _ fs]) simp_all
qed

section \<open>Messages from peers\<close>

text \<open>Ingesting a batch from a peer counts and stores exactly the new messages of the groups
  hosted here, however often a message occurs in the batch, and a replay of the batch stores
  nothing and changes nothing.\<close>

theorem ingest_exactly_once:
  assumes "store_ok s"
  shows "fst (ingest_federated env xs s) = card (offered env xs s - Collect (\<lambda>h. has_message h s)) \<and>
    (has_message h (snd (ingest_federated env xs s)) \<longleftrightarrow> has_message h s \<or> h \<in> offered env xs s) \<and>
    ingest_federated env xs (snd (ingest_federated env xs s)) = (0, snd (ingest_federated env xs s))"
  using ingest_federated_effect(1-3) [OF assms] by blast

theorem ingest_exactly_once_witness:
  "fst (ingest_federated sample_env [(''net'', bob, 0, [1]), (''net'', bob, 0, [1]), (''none'', bob, 0, [1])] sample_store) = 1"
proof -
  let ?xs = "[(''net'', bob, 0 :: real, [1 :: byte]), (''net'', bob, 0, [1]), (''none'', bob, 0, [1])]"
  have "{x \<in> set ?xs. get_group (fst x) sample_store \<noteq> None} = {(''net'', bob, 0, [1])}"
    by (auto simp: get_group_def sample_store_def sample_group_def sql_lookup_def)
  moreover have "Collect (\<lambda>h. has_message h sample_store) = {}"
    by (simp add: has_message_def sample_store_def empty_store_def has_key_def)
  ultimately show ?thesis
    using ingest_exactly_once [OF sample_store_ok, of sample_env ?xs] by (simp add: offered_def)
qed

definition toy_digest :: "bytes \<Rightarrow> bytes" where
  "toy_digest x = last x # replicate 31 (if length x \<le> 16 then 0 else 1)"

end
