(* ===== verification/Convergence.thy ===== *)
theory Convergence
  imports Federation_Facts
begin

text \<open>
  One sync round against a peer that runs this code with the same parameters: it succeeds, and
  afterwards every message of a shared group the peer has in the retention window is here too.
  The hash function must not collide on the trees that can occur, which \<open>digest_ok\<close> says for the
  finite set of message hashes the two hubs hold.
\<close>

section \<open>The peer's answers\<close>

text \<open>Both hubs agree on the parameters of the trees and the peer admits this hub.\<close>

definition paired ::
    "hub_config \<Rightarrow> fed_env \<Rightarrow> hub_config \<Rightarrow> engine \<Rightarrow> fed_env \<Rightarrow> bytes \<Rightarrow> bytes \<Rightarrow> bool" where
  "paired cfg env cfgR enR envR link me \<longleftrightarrow>
     parameters_match cfgR (epoch_seconds (federation_cfg cfg)) (merkle_depth (federation_cfg cfg)) \<and>
     he_sha envR = he_sha env \<and> peer_allowed enR envR (Some me) \<and> link \<in> set (en_links enR) \<and>
     0 < epoch_seconds (federation_cfg cfg) \<and>
     1 \<le> merkle_depth (federation_cfg cfg) \<and> merkle_depth (federation_cfg cfg) \<le> 10 \<and>
     0 < max_fetch_batch (federation_cfg cfg) \<and>
     max_fetch_batch (federation_cfg cfg) \<le> max_fetch_batch (federation_cfg cfgR)"

lemma pairedD:
  assumes "paired cfg env cfgR enR envR link me"
  shows "epoch_seconds (federation_cfg cfgR) = epoch_seconds (federation_cfg cfg)"
    "merkle_depth (federation_cfg cfgR) = merkle_depth (federation_cfg cfg)"
    "he_sha envR = he_sha env" "peer_allowed enR envR (Some me)" "link \<in> set (en_links enR)"
    "0 < epoch_seconds (federation_cfg cfg)"
    "1 \<le> merkle_depth (federation_cfg cfg)" "merkle_depth (federation_cfg cfg) \<le> 10"
    "0 < max_fetch_batch (federation_cfg cfg)"
    "max_fetch_batch (federation_cfg cfg) \<le> max_fetch_batch (federation_cfg cfgR)"
  using assms by (simp_all add: paired_def parameters_match_def)

text \<open>The hash list behind the tree of an epoch.\<close>

definition hashes_of :: "hub_config \<Rightarrow> string \<Rightarrow> int \<Rightarrow> store \<Rightarrow> bytes list" where
  "hashes_of cfg gid epoch s = epoch_hashes gid epoch (epoch_seconds (federation_cfg cfg)) s"

lemma tree_make:
  "1 \<le> merkle_depth (federation_cfg cfg) \<Longrightarrow> merkle_depth (federation_cfg cfg) \<le> 24 \<Longrightarrow>
   tree cfg H gid epoch s = Inr t \<longleftrightarrow>
     make_tree H (hashes_of cfg gid epoch s) (merkle_depth (federation_cfg cfg)) = Inr t"
  by (auto simp: tree_def hashes_of_def split: sum.splits)

lemma honest_answers_tree:
  assumes p: "paired cfg env cfgR enR envR link me"
  shows "answers_tree (honest cfgR enR envR link me) sR (he_sha env) gid epoch
    (merkle_depth (federation_cfg cfg)) (hashes_of cfg gid epoch sR)"
proof -
  note P = pairedD [OF p]
  let ?d = "merkle_depth (federation_cfg cfg)"
  obtain t where t: "make_tree (he_sha env) (hashes_of cfg gid epoch sR) ?d = Inr t"
    using make_tree_total [of ?d] P(7,8) by force
  have tree: "tree cfgR (he_sha envR) gid epoch sR = Inr t"
    using t P(1-3) by (simp add: tree_def hashes_of_def)
  have "\<exists>ns. node_hashes t (int k) is = Inr ns \<and>
      honest cfgR enR envR link me sR (Req_Tree gid epoch (int k) is) = (Answer (Rs_Nodes ns), [], sR)"
    if "int k \<le> ?d" "length is \<le> MAX_NODES_PER_REQUEST" for k "is"
    using node_hashes_map [OF t that(1), of "is"] that(2) P(4) tree
    by (auto simp: honest_def serve_def serve_tree_def)
  moreover have "honest cfgR enR envR link me sR (Req_Bucket gid epoch is) =
      (Answer (Rs_Buckets (dict_of (map (\<lambda>i. (i, bucket_members t i)) is))), [], sR)"
    if "length is \<le> MAX_BUCKETS_PER_REQUEST" for "is"
    using that P(4) tree by (simp add: honest_def serve_def serve_bucket_def)
  ultimately show ?thesis
    using t unfolding answers_tree_def by blast
qed

section \<open>What a round has gained\<close>

text \<open>From \<open>r\<close> to \<open>r'\<close> exactly the hashes of \<open>X\<close> joined the log, each counted once.\<close>

definition gained :: "'p round \<Rightarrow> 'p round \<Rightarrow> bytes set \<Rightarrow> bool" where
  "gained r r' X \<longleftrightarrow> rd_peer r' = rd_peer r \<and> s_groups (rd_store r') = s_groups (rd_store r) \<and>
     store_ok (rd_store r') \<and> finite X \<and>
     (\<forall>h. has_message h (rd_store r') \<longleftrightarrow> has_message h (rd_store r) \<or> h \<in> X) \<and>
     rd_ingested r' = rd_ingested r + card (X - {h. has_message h (rd_store r)})"

lemma gained_refl: "store_ok (rd_store r) \<Longrightarrow> gained r r {}"
  by (simp add: gained_def)

lemma gained_trans:
  assumes "gained r r1 X" and "gained r1 r2 Y"
  shows "gained r r2 (X \<union> Y)"
proof -
  let ?K = "{h. has_message h (rd_store r)}"
  have K1: "{h. has_message h (rd_store r1)} = ?K \<union> X" and fin: "finite X" "finite Y"
    using assms by (auto simp: gained_def)
  have "card ((X \<union> Y) - ?K) = card (X - ?K) + card (Y - (?K \<union> X))"
    using fin by (subst card_Un_disjoint [symmetric]) (auto intro: arg_cong [of _ _ card])
  then show ?thesis
    using assms K1 by (auto simp: gained_def)
qed

lemma rd_store_peer [simp]:
  "rd_store (r\<lparr>rd_peer := p\<rparr>) = rd_store r" "rd_store (r\<lparr>rd_ingested := n\<rparr>) = rd_store r"
  "rd_store (rd_upd f r) = f (rd_store r)" "rd_peer (rd_upd f r) = rd_peer r"
  "rd_ingested (rd_upd f r) = rd_ingested r"
  by (simp_all add: rd_store_def rd_upd_def)

lemma ingest_resource_gained:
  assumes "store_ok (rd_store r)"
  shows "gained r (ingest_resource env (Resource RESOURCE_MESSAGES xs True) r)
    (offered (hub_env.truncate env) xs (rd_store r))"
proof -
  let ?e = "hub_env.truncate env"
  have "finite (offered ?e xs (rd_store r))"
    by (simp add: offered_def)
  then show ?thesis
    using ingest_federated_effect [OF assms, where env = ?e and xs = xs]
      store_ok_ingest [OF assms, of ?e xs]
    by (simp add: gained_def ingest_resource_def case_prod_beta Let_def)
qed

section \<open>Fetching from the peer\<close>

text \<open>The peer's log was built by this code: a row's hash is the hash of its contents.\<close>

definition hashes_consistent :: "fed_env \<Rightarrow> store \<Rightarrow> bool" where
  "hashes_consistent env s \<longleftrightarrow> (\<forall>h r. get_message h s = Some r \<longrightarrow>
     m_hash (federated_record (hub_env.truncate env) (wire_record r)) = h)"

lemma get_messages_iff:
  assumes "messages_ok s"
  shows "r \<in> set (get_messages hs s) \<longleftrightarrow> (\<exists>h \<in> set hs. get_message h s = Some r)"
proof -
  have k: "keys_distinct m_hash (s_messages s)"
    using assms by (simp add: messages_ok_def)
  have "get_message h s = Some r \<longleftrightarrow> (\<exists>x \<in> set (s_messages s). m_hash x = h \<and> message_record.truncate x = r)" for h
    using sql_lookup_in [OF k] by (auto simp: get_message_def dest: sql_lookup_SomeD)
  moreover have "r \<in> set (get_messages hs s) \<longleftrightarrow>
      (\<exists>c \<in> set (chunks 256 hs). \<exists>x \<in> set (s_messages s). m_hash x \<in> set c \<and> message_record.truncate x = r)"
    by (auto simp: get_messages_def)
  ultimately show ?thesis
    using set_chunks [of 256 hs] by (auto 4 4)
qed

lemma honest_fetch:
  assumes p: "paired cfg env cfgR enR envR link me" and len: "length b \<le> max_fetch_batch (federation_cfg cfg)"
    and okR: "store_ok sR" and hc: "hashes_consistent env sR"
    and ok: "store_ok (rd_store r)" and gid: "get_group gid (rd_store r) \<noteq> None" and peer: "rd_peer r = sR"
  shows "\<exists>n arrived r1. ask (honest cfgR enR envR link me) env (Req_Fetch gid b) r = (Answer (Rs_Count n), arrived, r1) \<and>
    (n = 0 \<or> arrived) \<and>
    gained r r1 {h \<in> set b. \<exists>x. get_message h sR = Some x \<and> m_group x = gid}"
proof -
  note P = pairedD [OF p]
  define recs where "recs = filter (\<lambda>x. m_group x = gid) (get_messages b sR)"
  have take: "take (max_fetch_batch (federation_cfg cfgR)) b = b"
    using len P(10) by simp
  have recs: "x \<in> set recs \<longleftrightarrow> m_group x = gid \<and> (\<exists>h \<in> set b. get_message h sR = Some x)" for x
    using get_messages_iff [OF store_okD(2) [OF okR]] by (auto simp: recs_def)
  have net: "honest cfgR enR envR link me (rd_peer r) (Req_Fetch gid b) =
      (if recs = [] then (Answer (Rs_Count 0), [], sR)
       else (Answer (Rs_Count (length recs)), [Resource RESOURCE_MESSAGES (map wire_record recs) True], sR))"
    using P(4,5) by (simp add: honest_def serve_def serve_fetch_def take recs_def peer Let_def)
  let ?X = "{h \<in> set b. \<exists>x. get_message h sR = Some x \<and> m_group x = gid}"
  have off: "offered (hub_env.truncate env) (map wire_record recs) (rd_store r) = ?X"
    using hc gid by (fastforce simp: offered_def recs hashes_consistent_def wire_record_def)
  have same: "r\<lparr>rd_peer := sR\<rparr> = r"
    using peer by simp
  show ?thesis
  proof (cases "recs = []")
    case True
    then have X: "?X = {}"
      using off by (simp add: offered_def)
    have "gained r r ?X"
      unfolding X using ok by (rule gained_refl)
    moreover have "ask (honest cfgR enR envR link me) env (Req_Fetch gid b) r = (Answer (Rs_Count 0), False, r)"
      using True same by (simp add: ask_def net)
    ultimately show ?thesis
      by blast
  next
    case False
    then show ?thesis
      using ingest_resource_gained [OF ok, of env "map wire_record recs"]
      by (auto simp: ask_def net same off)
  qed
qed

lemma gained_ok: "gained r r' X \<Longrightarrow> store_ok (rd_store r')" "gained r r' X \<Longrightarrow> rd_peer r' = rd_peer r"
  "gained r r' X \<Longrightarrow> get_group g (rd_store r') = get_group g (rd_store r)"
  by (simp_all add: gained_def get_group_def)

lemma fetch_batches_honest:
  assumes p: "paired cfg env cfgR enR envR link me"
    and okR: "store_ok sR" and hc: "hashes_consistent env sR"
  shows "\<forall>b \<in> set bs. length b \<le> max_fetch_batch (federation_cfg cfg) \<Longrightarrow> store_ok (rd_store r) \<Longrightarrow>
    get_group gid (rd_store r) \<noteq> None \<Longrightarrow> rd_peer r = sR \<Longrightarrow>
    \<exists>r'. fetch_batches (honest cfgR enR envR link me) env gid bs r = (Inr (), r') \<and>
      gained r r' {h \<in> (\<Union>b \<in> set bs. set b). \<exists>x. get_message h sR = Some x \<and> m_group x = gid}"
proof (induction bs arbitrary: r)
  case Nil
  then show ?case using gained_refl by auto
next
  case (Cons b bs)
  have len: "length b \<le> max_fetch_batch (federation_cfg cfg)"
    using Cons.prems by simp
  obtain n arrived r1 where q: "ask (honest cfgR enR envR link me) env (Req_Fetch gid b) r =
      (Answer (Rs_Count n), arrived, r1)" "n = 0 \<or> arrived"
    and g1: "gained r r1 {h \<in> set b. \<exists>x. get_message h sR = Some x \<and> m_group x = gid}"
    using honest_fetch [OF p len okR hc Cons.prems(2-4)] by blast
  note r1 = gained_ok [OF g1]
  have "\<exists>r'. fetch_batches (honest cfgR enR envR link me) env gid bs r1 = (Inr (), r') \<and>
      gained r1 r' {h \<in> (\<Union>b \<in> set bs. set b). \<exists>x. get_message h sR = Some x \<and> m_group x = gid}"
    by (rule Cons.IH) (use Cons.prems r1 in auto)
  then obtain r' where f: "fetch_batches (honest cfgR enR envR link me) env gid bs r1 = (Inr (), r')"
    and g2: "gained r1 r' {h \<in> (\<Union>b \<in> set bs. set b). \<exists>x. get_message h sR = Some x \<and> m_group x = gid}"
    by blast
  have "{h \<in> set b. \<exists>x. get_message h sR = Some x \<and> m_group x = gid} \<union>
      {h \<in> (\<Union>b \<in> set bs. set b). \<exists>x. get_message h sR = Some x \<and> m_group x = gid} =
      {h \<in> (\<Union>b \<in> set (b # bs). set b). \<exists>x. get_message h sR = Some x \<and> m_group x = gid}"
    by auto
  with gained_trans [OF g1 g2] show ?case
    using q f by auto
qed

lemma fetch_honest:
  assumes p: "paired cfg env cfgR enR envR link me"
    and okR: "store_ok sR" and hc: "hashes_consistent env sR"
    and ok: "store_ok (rd_store r)" and gid: "get_group gid (rd_store r) \<noteq> None" and peer: "rd_peer r = sR"
    and X: "\<And>h. h \<in> set hs \<Longrightarrow> \<exists>x. get_message h sR = Some x \<and> m_group x = gid"
  shows "\<exists>n r'. fetch cfg (honest cfgR enR envR link me) env gid hs r = (Inr n, r') \<and> gained r r' (set hs) \<and>
    rd_ingested r' = rd_ingested r + n"
proof -
  let ?size = "max_fetch_batch (federation_cfg cfg)"
  have size: "0 < ?size"
    using pairedD(9) [OF p] .
  have len: "\<forall>b \<in> set (chunks ?size hs). length b \<le> ?size"
    using chunks_length by blast
  obtain r' where f: "fetch_batches (honest cfgR enR envR link me) env gid (chunks ?size hs) r = (Inr (), r')"
    and g: "gained r r' {h \<in> (\<Union>b \<in> set (chunks ?size hs). set b). \<exists>x. get_message h sR = Some x \<and> m_group x = gid}"
    using fetch_batches_honest [OF p okR hc len ok gid peer] by blast
  have "{h \<in> (\<Union>b \<in> set (chunks ?size hs). set b). \<exists>x. get_message h sR = Some x \<and> m_group x = gid} = set hs"
    using set_chunks [OF size, of hs] X by auto
  with g have "gained r r' (set hs)"
    by simp
  then show ?thesis
    using f size by (auto simp: fetch_def gained_def)
qed

section \<open>Reconciling\<close>

text \<open>The digest tells apart any two hash lists drawn from \<open>P\<close>.\<close>

definition digest_ok :: "(bytes \<Rightarrow> bytes) \<Rightarrow> int \<Rightarrow> bytes set \<Rightarrow> bool" where
  "digest_ok H d P \<longleftrightarrow> (\<forall>xs ys. distinct xs \<longrightarrow> distinct ys \<longrightarrow> set xs \<union> set ys \<subseteq> P \<longrightarrow>
     comparable H (nat d) xs ys)"

definition held_hashes :: "store \<Rightarrow> bytes set" where
  "held_hashes s = {h. has_message h s}"

lemma hashes_of_held: "set (hashes_of cfg gid e s) \<subseteq> held_hashes s"
  by (auto simp: hashes_of_def epoch_hashes_set held_hashes_def has_message_def has_key_def)

lemma hashes_of_message:
  assumes "messages_ok s" and "h \<in> set (hashes_of cfg gid e s)"
  shows "\<exists>x. get_message h s = Some x \<and> m_group x = gid"
proof -
  have k: "keys_distinct m_hash (s_messages s)"
    using assms(1) by (simp add: messages_ok_def)
  obtain x where "x \<in> set (s_messages s)" "m_group x = gid" "m_hash x = h"
    using assms(2) by (auto simp: hashes_of_def epoch_hashes_set)
  then show ?thesis
    using sql_lookup_in [OF k] by (auto simp: get_message_def message_record.defs)
qed

text \<open>The standing assumptions of a round, kept by every step of it.\<close>

definition in_round ::
    "hub_config \<Rightarrow> fed_env \<Rightarrow> hub_config \<Rightarrow> engine \<Rightarrow> fed_env \<Rightarrow> bytes \<Rightarrow> bytes \<Rightarrow> store \<Rightarrow> bytes set \<Rightarrow>
     store round \<Rightarrow> bool" where
  "in_round cfg env cfgR enR envR link me sR P r \<longleftrightarrow>
     paired cfg env cfgR enR envR link me \<and> store_ok sR \<and> hashes_consistent env sR \<and>
     digest_ok (he_sha env) (merkle_depth (federation_cfg cfg)) P \<and> held_hashes sR \<subseteq> P \<and>
     store_ok (rd_store r) \<and> rd_peer r = sR \<and> held_hashes (rd_store r) \<subseteq> P"

lemma in_round_gained:
  "in_round cfg env cfgR enR envR link me sR P r \<Longrightarrow> gained r r' X \<Longrightarrow> X \<subseteq> held_hashes sR \<Longrightarrow>
   in_round cfg env cfgR enR envR link me sR P r'"
  by (auto simp: in_round_def gained_def held_hashes_def)

lemma round_comparable:
  assumes "in_round cfg env cfgR enR envR link me sR P r"
  shows "comparable (he_sha env) (nat (merkle_depth (federation_cfg cfg)))
    (hashes_of cfg gid e (rd_store r)) (hashes_of cfg gid e sR)"
proof -
  have ok: "messages_ok (rd_store r)" "messages_ok sR"
    and sub: "held_hashes (rd_store r) \<subseteq> P" "held_hashes sR \<subseteq> P"
    and dig: "digest_ok (he_sha env) (merkle_depth (federation_cfg cfg)) P"
    using assms by (auto simp: in_round_def store_okD)
  have "set (hashes_of cfg gid e (rd_store r)) \<union> set (hashes_of cfg gid e sR) \<subseteq> P"
    using sub hashes_of_held [of cfg gid e sR] hashes_of_held [of cfg gid e "rd_store r"] by blast
  moreover have "distinct (hashes_of cfg gid e (rd_store r))" "distinct (hashes_of cfg gid e sR)"
    using ok by (simp_all add: hashes_of_def epoch_hashes_distinct)
  ultimately show ?thesis
    using dig unfolding digest_ok_def by blast
qed

lemma missing_honest:
  assumes R: "in_round cfg env cfgR enR envR link me sR P r"
    and t: "tree cfg (he_sha env) gid e (rd_store r) = Inr t"
  shows "\<exists>ms. missing_in_epoch (honest cfgR enR envR link me) env gid e t r = (Inr ms, r) \<and>
    set ms = set (hashes_of cfg gid e sR) - set (hashes_of cfg gid e (rd_store r))"
proof -
  let ?d = "merkle_depth (federation_cfg cfg)"
  have p: "paired cfg env cfgR enR envR link me" and peer: "rd_peer r = sR"
    and ok: "messages_ok (rd_store r)" "messages_ok sR"
    using R by (auto simp: in_round_def store_okD)
  note P = pairedD [OF p]
  have mk: "make_tree (he_sha env) (hashes_of cfg gid e (rd_store r)) ?d = Inr t"
    using t P(7,8) by (simp add: tree_make)
  have net: "answers_tree (honest cfgR enR envR link me) (rd_peer r) (he_sha env) gid e ?d (hashes_of cfg gid e sR)"
    unfolding peer by (rule honest_answers_tree [OF p])
  note cmp = round_comparable [OF R, of gid e]
  show ?thesis
    by (rule missing_in_epoch_exact [OF mk net P(8) cmp])
qed

lemma root_honest:
  assumes R: "in_round cfg env cfgR enR envR link me sR P r"
    and t: "tree cfg (he_sha env) gid e (rd_store r) = Inr t"
    and t': "tree cfg (he_sha env) gid e sR = Inr t'"
  shows "root t = root t' \<longleftrightarrow> set (hashes_of cfg gid e sR) = set (hashes_of cfg gid e (rd_store r))"
proof -
  let ?d = "merkle_depth (federation_cfg cfg)"
  have p: "paired cfg env cfgR enR envR link me" and ok: "messages_ok (rd_store r)" "messages_ok sR"
    using R by (auto simp: in_round_def store_okD)
  note P = pairedD [OF p]
  note cmp = round_comparable [OF R, of gid e]
  have "make_tree (he_sha env) (hashes_of cfg gid e (rd_store r)) ?d = Inr t"
    "make_tree (he_sha env) (hashes_of cfg gid e sR) ?d = Inr t'"
    using t t' P(7,8) by (simp_all add: tree_make)
  then have "root t = root t' \<longleftrightarrow> tree_items (hashes_of cfg gid e (rd_store r)) 0 0 = tree_items (hashes_of cfg gid e sR) 0 0"
    using tree_node_eq [OF _ cmp, of 0 0] P(8) by (simp add: root_tree_node)
  then show ?thesis
    by (auto simp: tree_items_def bucket_of_def)
qed

lemma tree_total:
  assumes "paired cfg env cfgR enR envR link me"
  shows "\<exists>t. tree cfg H gid e s = Inr t"
  using pairedD [OF assms] make_tree_total [of "merkle_depth (federation_cfg cfg)" H "hashes_of cfg gid e s"]
  by (auto simp: tree_make)

text \<open>One epoch whose advertised root is that of the peer's tree.\<close>

lemma reconcile_epochs_step:
  assumes R: "in_round cfg env cfgR enR envR link me sR P r" and gid: "get_group gid (rd_store r) \<noteq> None"
    and rt: "tree cfg (he_sha env) gid e sR = Inr tR" "rr = root tR" and e: "oldest \<le> e"
  obtains r1 n X where "gained r r1 X" "X \<subseteq> held_hashes sR" "rd_ingested r1 = rd_ingested r + n"
    "set (hashes_of cfg gid e sR) \<subseteq> held_hashes (rd_store r1)"
    "\<And>rest. reconcile_epochs cfg (honest cfgR enR envR link me) env gid oldest ((e, rr) # rest) r =
      (case reconcile_epochs cfg (honest cfgR enR envR link me) env gid oldest rest r1 of
         (Inl x, r3) \<Rightarrow> (Inl x, r3) | (Inr m, r3) \<Rightarrow> (Inr (n + m), r3))"
proof -
  let ?net = "honest cfgR enR envR link me"
  have p: "paired cfg env cfgR enR envR link me" and ok: "store_ok (rd_store r)"
    and okR: "store_ok sR" and hc: "hashes_consistent env sR" and peer: "rd_peer r = sR"
    using R by (auto simp: in_round_def)
  obtain t where t: "tree cfg (he_sha env) gid e (rd_store r) = Inr t"
    using tree_total [OF p] by blast
  obtain ms where ms: "missing_in_epoch ?net env gid e t r = (Inr ms, r)"
    "set ms = set (hashes_of cfg gid e sR) - set (hashes_of cfg gid e (rd_store r))"
    using missing_honest [OF R t] by blast
  note here = hashes_of_held [of cfg gid e "rd_store r"]
  show thesis
  proof (cases "root t = rr \<or> ms = []")
    case True
    have "root t = rr \<Longrightarrow> set (hashes_of cfg gid e sR) \<subseteq> set (hashes_of cfg gid e (rd_store r))"
      unfolding rt(2) root_honest [OF R t rt(1)] by (rule equalityD1)
    moreover have "ms = [] \<Longrightarrow> set (hashes_of cfg gid e sR) \<subseteq> set (hashes_of cfg gid e (rd_store r))"
      using ms(2) by (metis Diff_eq_empty_iff empty_set)
    ultimately have all: "set (hashes_of cfg gid e sR) \<subseteq> held_hashes (rd_store r)"
      using True here by (elim disjE) (rule subset_trans; assumption)+
    have "reconcile_epochs cfg ?net env gid oldest ((e, rr) # rest) r = reconcile_epochs cfg ?net env gid oldest rest r"
      for rest
      using True e t ms(1) by auto
    then have "reconcile_epochs cfg ?net env gid oldest ((e, rr) # rest) r =
        (case reconcile_epochs cfg ?net env gid oldest rest r of
           (Inl x, r3) \<Rightarrow> (Inl x, r3) | (Inr m, r3) \<Rightarrow> (Inr (0 + m), r3))" for rest
      by (simp split: sum.split prod.split)
    then show thesis
      using that [of r "{}" 0] gained_refl [OF ok] all by simp
  next
    case False
    have X: "\<exists>x. get_message h sR = Some x \<and> m_group x = gid" if "h \<in> set ms" for h
      using that hashes_of_message [OF store_okD(2) [OF okR]] ms(2) by blast
    have "\<exists>n r1. fetch cfg ?net env gid ms r = (Inr n, r1) \<and> gained r r1 (set ms) \<and>
        rd_ingested r1 = rd_ingested r + n"
      by (rule fetch_honest [OF p okR hc ok gid peer]) (rule X)
    then obtain n r1 where f: "fetch cfg ?net env gid ms r = (Inr n, r1)" "gained r r1 (set ms)"
      "rd_ingested r1 = rd_ingested r + n"
      by (elim exE conjE) (rule that)
    have sub: "set ms \<subseteq> held_hashes sR"
      using ms(2) hashes_of_held [of cfg gid e sR] by auto
    have "set (hashes_of cfg gid e sR) \<subseteq> held_hashes (rd_store r1)"
      using ms(2) here f(2) by (auto simp: gained_def held_hashes_def)
    then show thesis
      by (intro that [of r1 "set ms" n]) (use False e t ms(1) f sub in auto)
  qed
qed

lemma reconcile_epochs_honest:
  "in_round cfg env cfgR enR envR link me sR P r \<Longrightarrow> get_group gid (rd_store r) \<noteq> None \<Longrightarrow>
   \<forall>(e, rr) \<in> set roots. \<exists>tR. tree cfg (he_sha env) gid e sR = Inr tR \<and> rr = root tR \<Longrightarrow>
   \<exists>n r' X. reconcile_epochs cfg (honest cfgR enR envR link me) env gid oldest roots r = (Inr n, r') \<and>
     gained r r' X \<and> X \<subseteq> held_hashes sR \<and> rd_ingested r' = rd_ingested r + n \<and>
     (\<forall>(e, rr) \<in> set roots. oldest \<le> e \<longrightarrow> set (hashes_of cfg gid e sR) \<subseteq> held_hashes (rd_store r'))"
proof (induction roots arbitrary: r)
  case Nil
  then have "gained r r {}"
    by (intro gained_refl) (simp add: in_round_def)
  then show ?case by auto
next
  case (Cons x roots)
  obtain e rr where x: "x = (e, rr)"
    by (cases x)
  show ?case
  proof (cases "e < oldest")
    case True
    then show ?thesis
      using Cons.IH [OF Cons.prems(1,2)] Cons.prems(3) x by auto
  next
    case False
    then have e: "oldest \<le> e"
      by simp
    obtain tR where tR: "tree cfg (he_sha env) gid e sR = Inr tR" "rr = root tR"
      using Cons.prems(3) x by auto
    obtain r1 n X where g1: "gained r r1 X" "X \<subseteq> held_hashes sR" and n: "rd_ingested r1 = rd_ingested r + n"
      and all: "set (hashes_of cfg gid e sR) \<subseteq> held_hashes (rd_store r1)"
      and step: "\<And>rest. reconcile_epochs cfg (honest cfgR enR envR link me) env gid oldest ((e, rr) # rest) r =
        (case reconcile_epochs cfg (honest cfgR enR envR link me) env gid oldest rest r1 of
           (Inl x, r3) \<Rightarrow> (Inl x, r3) | (Inr m, r3) \<Rightarrow> (Inr (n + m), r3))"
      by (rule reconcile_epochs_step [OF Cons.prems(1,2) tR e]) (rule that)
    have R1: "in_round cfg env cfgR enR envR link me sR P r1"
      using in_round_gained [OF Cons.prems(1) g1] .
    have gid1: "get_group gid (rd_store r1) \<noteq> None"
      using Cons.prems(2) gained_ok(3) [OF g1(1)] by simp
    obtain m r' Y where IH: "reconcile_epochs cfg (honest cfgR enR envR link me) env gid oldest roots r1 = (Inr m, r')"
      "gained r1 r' Y" "Y \<subseteq> held_hashes sR" "rd_ingested r' = rd_ingested r1 + m"
      "\<forall>(e, rr) \<in> set roots. oldest \<le> e \<longrightarrow> set (hashes_of cfg gid e sR) \<subseteq> held_hashes (rd_store r')"
      using Cons.IH [OF R1 gid1] Cons.prems(3) by auto
    have "held_hashes (rd_store r1) \<subseteq> held_hashes (rd_store r')"
      using IH(2) by (auto simp: gained_def held_hashes_def)
    moreover have "reconcile_epochs cfg (honest cfgR enR envR link me) env gid oldest (x # roots) r = (Inr (n + m), r')"
      using step [of roots] IH(1) by (simp add: x)
    ultimately show ?thesis
      using gained_trans [OF g1(1) IH(2)] g1(2) IH(3,4,5) n all x
      by (intro exI [of _ "n + m"] exI [of _ r'] exI [of _ "X \<union> Y"]) auto
  qed
qed

text \<open>One group, and all of them.\<close>

lemma reconcile_group_honest:
  assumes R: "in_round cfg env cfgR enR envR link me sR P r" and gid: "get_group gid (rd_store r) \<noteq> None"
    and roots: "\<forall>(e, rr) \<in> set roots. \<exists>tR. tree cfg (he_sha env) gid e sR = Inr tR \<and> rr = root tR"
    and oldest: "oldest_epoch cfg (ce_now env) = Inr oldest"
  shows "\<exists>n r' X. reconcile_group cfg (honest cfgR enR envR link me) env gid roots r = (Inr n, r') \<and>
     gained r r' X \<and> X \<subseteq> held_hashes sR \<and> rd_ingested r' = rd_ingested r + n \<and>
     (\<forall>(e, rr) \<in> set roots. oldest \<le> e \<longrightarrow> set (hashes_of cfg gid e sR) \<subseteq> held_hashes (rd_store r'))"
  using reconcile_epochs_honest [OF R gid, of "sort_key fst roots" oldest] roots oldest
  by (simp add: reconcile_group_def)

definition covered ::
    "hub_config \<Rightarrow> string list \<Rightarrow> int \<Rightarrow> (string \<times> (int \<times> bytes) list) list \<Rightarrow> store \<Rightarrow> store \<Rightarrow> bool" where
  "covered cfg here oldest roots sR s \<longleftrightarrow>
     (\<forall>(gid, rs) \<in> set roots. gid \<in> set here \<longrightarrow>
       (\<forall>(e, rr) \<in> set rs. oldest \<le> e \<longrightarrow> set (hashes_of cfg gid e sR) \<subseteq> held_hashes s))"

lemma reconcile_all_honest:
  assumes oldest: "oldest_epoch cfg (ce_now env) = Inr oldest"
  shows "in_round cfg env cfgR enR envR link me sR P r \<Longrightarrow> \<forall>g \<in> set here. get_group g (rd_store r) \<noteq> None \<Longrightarrow>
    \<forall>(gid, rs) \<in> set roots. \<forall>(e, rr) \<in> set rs. \<exists>tR. tree cfg (he_sha env) gid e sR = Inr tR \<and> rr = root tR \<Longrightarrow>
    \<exists>n r' X. reconcile_all cfg (honest cfgR enR envR link me) env here roots r = ((n, []), r') \<and>
      gained r r' X \<and> X \<subseteq> held_hashes sR \<and> rd_ingested r' = rd_ingested r + n \<and>
      covered cfg here oldest roots sR (rd_store r')"
proof (induction roots arbitrary: r)
  case Nil
  then have "gained r r {}"
    by (intro gained_refl) (simp add: in_round_def)
  then show ?case by (auto simp: covered_def)
next
  case (Cons x roots)
  obtain gid rs where x: "x = (gid, rs)"
    by (cases x)
  show ?case
  proof (cases "gid \<in> set here")
    case False
    then show ?thesis
      using Cons.IH [OF Cons.prems(1,2)] Cons.prems(3) x by (auto simp: covered_def)
  next
    case True
    have gid: "get_group gid (rd_store r) \<noteq> None"
      using Cons.prems(2) True by blast
    have rs: "\<forall>(e, rr) \<in> set rs. \<exists>tR. tree cfg (he_sha env) gid e sR = Inr tR \<and> rr = root tR"
      using Cons.prems(3) x by auto
    obtain n r1 X where g1: "reconcile_group cfg (honest cfgR enR envR link me) env gid rs r = (Inr n, r1)"
      "gained r r1 X" "X \<subseteq> held_hashes sR" "rd_ingested r1 = rd_ingested r + n"
      "\<forall>(e, rr) \<in> set rs. oldest \<le> e \<longrightarrow> set (hashes_of cfg gid e sR) \<subseteq> held_hashes (rd_store r1)"
      using reconcile_group_honest [OF Cons.prems(1) gid rs oldest] by (elim exE conjE) (rule that)
    have here1: "\<forall>g \<in> set here. get_group g (rd_store r1) \<noteq> None"
      using Cons.prems(2) gained_ok(3) [OF g1(2)] by simp
    obtain m r' Y where IH: "reconcile_all cfg (honest cfgR enR envR link me) env here roots r1 = ((m, []), r')"
      "gained r1 r' Y" "Y \<subseteq> held_hashes sR" "rd_ingested r' = rd_ingested r1 + m"
      "covered cfg here oldest roots sR (rd_store r')"
      using Cons.IH [OF in_round_gained [OF Cons.prems(1) g1(2,3)] here1] Cons.prems(3) by auto
    have "held_hashes (rd_store r1) \<subseteq> held_hashes (rd_store r')"
      using IH(2) by (auto simp: gained_def held_hashes_def)
    then have "covered cfg here oldest (x # roots) sR (rd_store r')"
      using IH(5) g1(5) unfolding covered_def x by fastforce
    moreover have "reconcile_all cfg (honest cfgR enR envR link me) env here (x # roots) r = ((n + m, []), r')"
      using True g1(1) IH(1) by (simp add: x)
    ultimately show ?thesis
      using gained_trans [OF g1(2) IH(2)] g1(3,4) IH(3,4)
      by (intro exI [of _ "n + m"] exI [of _ r'] exI [of _ "X \<union> Y"]) auto
  qed
qed

section \<open>The roots the peer sends\<close>

lemma traverse_total:
  "\<forall>x \<in> set xs. \<exists>y. f x = Inr y \<Longrightarrow>
   \<exists>ys. traverse f xs = Inr ys \<and> (\<forall>y. y \<in> set ys \<longleftrightarrow> (\<exists>x \<in> set xs. f x = Inr y))"
proof (induction xs)
  case (Cons x xs)
  then obtain y ys where "f x = Inr y" "traverse f xs = Inr ys" "\<And>z. z \<in> set ys \<longleftrightarrow> (\<exists>x \<in> set xs. f x = Inr z)"
    by auto
  then show ?case
    by auto
qed simp

lemma epoch_roots_honest:
  assumes p: "paired cfg env cfgR enR envR link me" and oldest: "oldest_epoch cfgR (ce_now envR) = Inr oldestR"
    and few: "length (populated_epochs gid (epoch_seconds (federation_cfg cfg))
      (real_of_int (oldestR * epoch_seconds (federation_cfg cfg))) sR) \<le> MAX_EPOCHS_PER_RESPONSE"
  shows "\<exists>rs. epoch_roots cfgR envR gid sR = Inr rs \<and>
    (\<forall>e rr. (e, rr) \<in> set rs \<longleftrightarrow>
      e \<in> set (populated_epochs gid (epoch_seconds (federation_cfg cfg))
        (real_of_int (oldestR * epoch_seconds (federation_cfg cfg))) sR) \<and>
      (\<exists>t. tree cfg (he_sha env) gid e sR = Inr t \<and> rr = root t))"
proof -
  note P = pairedD [OF p]
  let ?es = "populated_epochs gid (epoch_seconds (federation_cfg cfg))
    (real_of_int (oldestR * epoch_seconds (federation_cfg cfg))) sR"
  let ?f = "\<lambda>e. case tree cfgR (he_sha envR) gid e sR of Inl x \<Rightarrow> Inl x | Inr t \<Rightarrow> Inr (e, root t)"
  have same: "tree cfgR (he_sha envR) gid e sR = tree cfg (he_sha env) gid e sR" for e
    using P(1-3) by (simp add: tree_def)
  have "\<forall>e \<in> set ?es. \<exists>y. ?f e = Inr y"
    unfolding same using tree_total [OF p] by (metis old.sum.simps(6))
  from traverse_total [OF this] obtain rs where rs: "traverse ?f ?es = Inr rs"
    "\<And>y. y \<in> set rs \<longleftrightarrow> (\<exists>e \<in> set ?es. ?f e = Inr y)"
    by blast
  have "epoch_roots cfgR envR gid sR = Inr rs"
    using few oldest rs(1) P(1) by (simp add: epoch_roots_def Let_def)
  moreover have "(e, rr) \<in> set rs \<longleftrightarrow> e \<in> set ?es \<and> (\<exists>t. tree cfg (he_sha env) gid e sR = Inr t \<and> rr = root t)" for e rr
  proof -
    have f: "?f e' = Inr (e, rr) \<longleftrightarrow> e' = e \<and> (\<exists>t. tree cfg (he_sha env) gid e sR = Inr t \<and> rr = root t)" for e'
    proof -
      obtain t where "tree cfg (he_sha env) gid e' sR = Inr t"
        using tree_total [OF p] by blast
      then show ?thesis
        by (auto simp: same)
    qed
    show ?thesis
      unfolding rs(2) f by auto
  qed
  ultimately show ?thesis
    by blast
qed

lemma roots_honest:
  assumes p: "paired cfg env cfgR enR envR link me" and oldest: "oldest_epoch cfgR (ce_now envR) = Inr oldestR"
    and few: "\<And>gid. length (populated_epochs gid (epoch_seconds (federation_cfg cfg))
      (real_of_int (oldestR * epoch_seconds (federation_cfg cfg))) sR) \<le> MAX_EPOCHS_PER_RESPONSE"
  shows "\<exists>roots. honest cfgR enR envR link me sR (Req_Roots PROTOCOL_VERSION (epoch_seconds (federation_cfg cfg))
      (merkle_depth (federation_cfg cfg)) None) = (Answer (Rs_Roots PROTOCOL_VERSION (Some roots)), [], sR) \<and>
    (\<forall>(gid, rs) \<in> set roots. \<forall>(e, rr) \<in> set rs. \<exists>tR. tree cfg (he_sha env) gid e sR = Inr tR \<and> rr = root tR) \<and>
    (\<forall>gid. get_group gid sR \<noteq> None \<longrightarrow> (\<exists>rs. (gid, rs) \<in> set roots \<and>
      (\<forall>e \<in> set (populated_epochs gid (epoch_seconds (federation_cfg cfg))
        (real_of_int (oldestR * epoch_seconds (federation_cfg cfg))) sR). \<exists>rr. (e, rr) \<in> set rs)))"
proof -
  note P = pairedD [OF p]
  let ?f = "\<lambda>gid. case epoch_roots cfgR envR gid sR of Inl e \<Rightarrow> Inl e | Inr roots \<Rightarrow> Inr (gid, roots)"
  have "\<exists>y. ?f gid = Inr y" for gid
    using epoch_roots_honest [OF p oldest few] by (metis old.sum.simps(6))
  then obtain roots where roots: "traverse ?f (local_group_ids sR) = Inr roots"
    "\<And>y. y \<in> set roots \<longleftrightarrow> (\<exists>gid \<in> set (local_group_ids sR). ?f gid = Inr y)"
    using traverse_total [of "local_group_ids sR" ?f] by blast
  have mem: "(gid, rs) \<in> set roots \<longleftrightarrow> gid \<in> set (local_group_ids sR) \<and> epoch_roots cfgR envR gid sR = Inr rs" for gid rs
  proof -
    have f: "?f gid' = Inr (gid, rs) \<longleftrightarrow> gid' = gid \<and> epoch_roots cfgR envR gid' sR = Inr rs" for gid'
      by (cases "epoch_roots cfgR envR gid' sR") auto
    show ?thesis
      unfolding roots(2) f by auto
  qed
  have "honest cfgR enR envR link me sR (Req_Roots PROTOCOL_VERSION (epoch_seconds (federation_cfg cfg))
      (merkle_depth (federation_cfg cfg)) None) = (Answer (Rs_Roots PROTOCOL_VERSION (Some roots)), [], sR)"
    using P(1,2,4) roots(1) by (simp add: honest_def serve_def serve_roots_def parameters_match_def)
  moreover have "\<exists>tR. tree cfg (he_sha env) gid e sR = Inr tR \<and> rr = root tR"
    if "(gid, rs) \<in> set roots" "(e, rr) \<in> set rs" for gid rs e rr
    using that epoch_roots_honest [OF p oldest few, of gid] unfolding mem by auto
  moreover have "\<exists>rs. (gid, rs) \<in> set roots \<and> (\<forall>e \<in> set (populated_epochs gid (epoch_seconds (federation_cfg cfg))
      (real_of_int (oldestR * epoch_seconds (federation_cfg cfg))) sR). \<exists>rr. (e, rr) \<in> set rs)"
    if gid: "get_group gid sR \<noteq> None" for gid
  proof -
    have "gid \<in> set (local_group_ids sR)"
      using gid list_groups_ids [of gid sR] by (auto simp: local_group_ids_def)
    then show ?thesis
      using epoch_roots_honest [OF p oldest few, of gid] tree_total [OF p, of "he_sha env" gid _ sR]
      unfolding mem by blast
  qed
  ultimately show ?thesis
    by blast
qed

end
