(* ===== verification/Federation_Safety.thy ===== *)
theory Federation_Safety
  imports Convergence
begin

text \<open>
  What no peer can do to a hub, however it answers: the parts of a round that leave the log alone,
  the relation every step of a round keeps whatever the remote side sends, and the induction over
  the whole round, stated once as the locale \<open>round_relation\<close>.
\<close>

section \<open>Steps that leave the log alone\<close>

definition same_log :: "store \<Rightarrow> store \<Rightarrow> bool" where
  "same_log s s' \<longleftrightarrow> s_messages s' = s_messages s \<and> s_groups s' = s_groups s \<and>
     s_members s' = s_members s \<and> s_adoptions s' = s_adoptions s \<and> s_egress s' = s_egress s \<and>
     s_meta s' = s_meta s \<and> s_notices s' = s_notices s \<and> s_control s' = s_control s"

lemma same_log_refl [simp]: "same_log s s"
  by (simp add: same_log_def)

lemma same_log_trans: "same_log s s1 \<Longrightarrow> same_log s1 s2 \<Longrightarrow> same_log s s2"
  by (simp add: same_log_def)

lemma same_log_peer [simp]:
  "same_log s (record_peer_sync p e t s)" "same_log s (record_peer_success p t s)"
  "same_log s (snd (record_peer_state p hub gs ms t s))"
  by (simp_all add: same_log_def peer_defs Let_def case_prod_beta)

lemma same_log_personas [simp]:
  "upsert_persona p s = Inr s' \<Longrightarrow> same_log s s'"
  "set_persona_name pid n rv upd now s = Inr s' \<Longrightarrow> same_log s s'"
  "same_log s (adopt_identity r s)"
  by (auto simp: same_log_def upsert_persona_def set_persona_name_def adopt_identity_def
      upsert_persona_identity_def put_identity_def Let_def split: if_splits option.splits)

lemma same_log_adopt_persona: "same_log s (snd (adopt_persona now r s))"
  by (auto simp: adopt_persona_def Let_def split: option.splits sum.splits
      intro: same_log_trans [OF same_log_personas(2) same_log_personas(1)])

lemma same_log_merge_personas: "same_log s (snd (merge_personas now rs s))"
proof (induction rs arbitrary: s)
  case (Cons r rs)
  obtain res s1 where a: "adopt_persona now r s = (res, s1)"
    by (cases "adopt_persona now r s")
  then have "same_log s s1"
    using same_log_adopt_persona [of s now r] by simp
  then have "same_log s (snd (merge_personas now rs s1))"
    using Cons.IH same_log_trans by blast
  with a \<open>same_log s s1\<close> show ?case
    using Cons.IH [of s] by (auto split: sum.splits prod.splits)
qed simp

lemma same_log_merge: "same_log s (snd (registry_merge now ps is s))"
proof -
  have "same_log s (merge_identities is s)" for s
    unfolding merge_identities_def
    by (induction "is" arbitrary: s) (auto intro: same_log_trans [OF same_log_personas(3)])
  then show ?thesis
    using same_log_merge_personas [of s now ps]
    by (auto simp: registry_merge_def split: sum.splits prod.splits intro: same_log_trans)
qed

lemma notify_devices_effect:
  "same_log s (snd (notify_devices now body rs s)) \<and>
   (store_ok s \<longrightarrow> store_ok (snd (notify_devices now body rs s)))"
proof (induction rs arbitrary: s)
  case (Cons r rs)
  have "same_log s (snd (enqueue_user g u b now s))" for g u b
    by (simp add: same_log_def enqueue_user_def case_prod_beta)
  then have "same_log s (snd (notify_devices now body rs (snd (enqueue_user g u b now s))))" for g u b
    using Cons.IH same_log_trans by blast
  moreover have "store_ok s \<Longrightarrow> store_ok (snd (enqueue_user g u b now s))" for g u b
    by simp
  ultimately show ?case
    using Cons.IH by (auto simp: case_prod_beta Let_def split: list.splits)
qed simp

section \<open>What every step of a round keeps\<close>

text \<open>Groups, members, adoptions, flags and the notice and operator queues are as before, no stored
  message or queued delivery is lost or altered, and what is queued in addition goes to recipients
  of a group hosted here.\<close>

definition unharmed :: "store \<Rightarrow> store \<Rightarrow> bool" where
  "unharmed s s' \<longleftrightarrow> s_groups s' = s_groups s \<and> s_members s' = s_members s \<and>
     s_adoptions s' = s_adoptions s \<and> s_meta s' = s_meta s \<and> s_notices s' = s_notices s \<and>
     s_control s' = s_control s \<and> store_ok s' \<and>
     (\<forall>h m. get_message h s = Some m \<longrightarrow> get_message h s' = Some m) \<and>
     (\<forall>u h. is_queued u h s \<longrightarrow> is_queued u h s') \<and>
     (\<forall>u h. is_queued u h s' \<longrightarrow> is_queued u h s \<or>
        (\<exists>m. get_message h s' = Some m \<and> get_group (m_group m) s \<noteq> None \<and>
           u \<in> set (recipients (m_group m) s) \<and> u \<noteq> m_sender m))"

lemma unharmed_same_log: "same_log s s' \<Longrightarrow> store_ok s' \<Longrightarrow> unharmed s s'"
  by (simp add: unharmed_def same_log_def get_message_def is_queued_def)

lemma recipients_cong:
  "s_members s' = s_members s \<Longrightarrow> s_adoptions s' = s_adoptions s \<Longrightarrow> recipients g s' = recipients g s"
  by (simp add: recipients_def list_members_def list_adopted_def)

lemma unharmedD:
  assumes "unharmed s s'"
  shows "store_ok s'" "get_group g s' = get_group g s" "recipients g s' = recipients g s"
    "get_message h s = Some m \<Longrightarrow> get_message h s' = Some m" "is_queued u h s \<Longrightarrow> is_queued u h s'"
    "is_queued u h s' \<Longrightarrow> is_queued u h s \<or> (\<exists>m. get_message h s' = Some m \<and>
       get_group (m_group m) s \<noteq> None \<and> u \<in> set (recipients (m_group m) s) \<and> u \<noteq> m_sender m)"
  using assms recipients_cong [of s' s g] by (simp_all add: unharmed_def get_group_def)

lemma unharmed_trans:
  assumes "unharmed s s1" and "unharmed s1 s2"
  shows "unharmed s s2"
proof -
  note a = unharmedD [OF assms(1)] and b = unharmedD [OF assms(2)]
  have "is_queued u h s \<or> (\<exists>m. get_message h s2 = Some m \<and> get_group (m_group m) s \<noteq> None \<and>
      u \<in> set (recipients (m_group m) s) \<and> u \<noteq> m_sender m)" if q: "is_queued u h s2" for u h
    using b(6) [OF q]
  proof (elim disjE)
    assume "is_queued u h s1"
    from a(6) [OF this] show ?thesis
      using b(4) by blast
  next
    assume "\<exists>m. get_message h s2 = Some m \<and> get_group (m_group m) s1 \<noteq> None \<and>
      u \<in> set (recipients (m_group m) s1) \<and> u \<noteq> m_sender m"
    then show ?thesis
      unfolding a(2,3) by blast
  qed
  moreover have "\<forall>h m. get_message h s = Some m \<longrightarrow> get_message h s2 = Some m"
    using a(4) b(4) by blast
  moreover have "\<forall>u h. is_queued u h s \<longrightarrow> is_queued u h s2"
    using a(5) b(5) by blast
  moreover have "s_groups s2 = s_groups s" "s_members s2 = s_members s" "s_adoptions s2 = s_adoptions s"
    "s_meta s2 = s_meta s" "s_notices s2 = s_notices s" "s_control s2 = s_control s"
    using assms by (simp_all add: unharmed_def)
  ultimately show ?thesis
    unfolding unharmed_def using b(1) by blast
qed

lemma store_and_fan_out_rest:
  "s_meta (snd (store_and_fan_out now r s)) = s_meta s \<and> s_notices (snd (store_and_fan_out now r s)) = s_notices s \<and>
   s_control (snd (store_and_fan_out now r s)) = s_control s"
proof -
  let ?us = "filter (\<lambda>u. u \<noteq> m_sender r) (recipients (m_group r) s)"
  obtain q where "snd (enqueue_all (m_group r) (m_hash r) ?us now (snd (store_message r now s))) =
      (snd (store_message r now s))\<lparr>s_egress := q\<rparr>"
    using enqueue_all_frame by blast
  then show ?thesis
    by (simp add: store_and_fan_out_def store_and_enqueue_def store_message_def case_prod_beta Let_def)
qed

lemma unharmed_store:
  assumes ok: "store_ok s" and g: "get_group (m_group r) s \<noteq> None"
  shows "unharmed s (snd (store_and_fan_out now r s))"
proof (cases "has_message (m_hash r) s")
  case True
  then show ?thesis
    using ok by (simp add: store_and_fan_out_known unharmed_same_log)
next
  case False
  note new = store_and_fan_out_new [OF ok False, where now = now]
  have "get_message h (snd (store_and_fan_out now r s)) = (if h = m_hash r then Some r else get_message h s)" for h
    using False new(2) by (simp add: store_and_fan_out_def get_message_store_and_enqueue)
  moreover have "get_message (m_hash r) s = None"
    using False by (simp add: get_message_def has_message_def sql_lookup_None)
  ultimately show ?thesis
    using g store_ok_store_and_fan_out [OF ok, of now r] store_and_fan_out_rest [of now r s]
    unfolding unharmed_def new(3) by auto
qed

lemma unharmed_ingest: "store_ok s \<Longrightarrow> unharmed s (snd (ingest_federated env xs s))"
proof (induction xs arbitrary: s)
  case Nil
  then show ?case by (simp add: unharmed_same_log)
next
  case (Cons x xs)
  show ?case
  proof (cases "get_group (fst x) s = None")
    case True
    then show ?thesis
      using Cons by simp
  next
    case False
    let ?s1 = "snd (store_and_fan_out (ce_now env) (federated_record env x) s)"
    have "m_group (federated_record env x) = fst x"
      by (simp add: federated_record_def split: prod.split)
    then have u: "unharmed s ?s1"
      using unharmed_store [OF Cons.prems, of "federated_record env x"] False by simp
    then have "unharmed ?s1 (snd (ingest_federated env xs ?s1))"
      by (intro Cons.IH) (simp add: unharmed_def)
    with u show ?thesis
      using False unharmed_trans [OF u] by (auto simp: case_prod_beta Let_def)
  qed
qed

section \<open>A round, step by step\<close>

text \<open>A relation between the state before and after that every elementary step of a round has, holds
  for the whole round, whatever the remote side answers.\<close>

locale round_relation =
  fixes rel :: "'p round \<Rightarrow> 'p round \<Rightarrow> bool" and env :: fed_env and dest :: bytes
  assumes rel_refl: "rel r r"
    and rel_trans: "rel r r1 \<Longrightarrow> rel r1 r2 \<Longrightarrow> rel r r2"
    and rel_peer: "rel r (r\<lparr>rd_peer := p\<rparr>)"
    and rel_fresh: "rel r (r\<lparr>rd_ingested := 0\<rparr>)"
    and rel_path: "rel r (snd (establish env dest r))"
    and rel_ingest: "rel r (ingest_resource env res r)"
    and rel_sync: "rel r (rd_upd (record_peer_sync dest e now) r)"
    and rel_success: "rel r (rd_upd (record_peer_success dest now) r)"
    and rel_gossip: "rel r (rd_upd (\<lambda>_. snd (record_peer_state dest name gs ms now (rd_store r))) r)"
    and rel_merge: "rel r (rd_upd (\<lambda>_. snd (registry_merge now ps is (rd_store r))) r)"
    and rel_losers: "rel r (tell_losers env losers r)"
begin

lemma rel_ask: "ask net env q r = (rep, b, r1) \<Longrightarrow> rel r r1"
proof -
  have "rel r (fold (ingest_resource env) pushed r)" for pushed and r :: "'p round"
    by (induction pushed arbitrary: r) (auto intro: rel_refl rel_trans rel_ingest)
  then show "ask net env q r = (rep, b, r1) \<Longrightarrow> rel r r1"
    by (auto simp: ask_def Let_def split: prod.splits intro: rel_trans [OF rel_peer])
qed

lemma rel_walk: "walk net env gid e t ls nodes r = (res, r1) \<Longrightarrow> rel r r1"
proof (induction ls arbitrary: nodes r)
  case Nil
  then show ?case by (simp add: rel_refl)
next
  case (Cons l ls)
  obtain rep b r2 where q: "ask net env (Req_Tree gid e l (take MAX_NODES_PER_REQUEST (children_of nodes))) r = (rep, b, r2)"
    by (cases "ask net env (Req_Tree gid e l (take MAX_NODES_PER_REQUEST (children_of nodes))) r") auto
  note first = rel_ask [OF q]
  have "rel r2 r1"
    using Cons.prems Cons.IH [of _ r2] q
    by (auto simp: Let_def rel_refl split: reply.splits response.splits sum.splits if_splits)
  with first show ?case
    by (rule rel_trans)
qed

lemma rel_buckets: "ask_buckets net env gid e t chs r = (res, r1) \<Longrightarrow> rel r r1"
proof (induction chs arbitrary: res r r1)
  case Nil
  then show ?case by (simp add: rel_refl)
next
  case (Cons c chs)
  obtain rep b r2 where q: "ask net env (Req_Bucket gid e c) r = (rep, b, r2)"
    by (cases "ask net env (Req_Bucket gid e c) r") auto
  obtain res3 r3 where rest: "ask_buckets net env gid e t chs r2 = (res3, r3)"
    by (cases "ask_buckets net env gid e t chs r2")
  have "rel r2 r1"
    using Cons.prems Cons.IH [OF rest] q rest
    by (auto simp: Let_def rel_refl split: reply.splits response.splits sum.splits)
  with rel_ask [OF q] show ?case
    by (rule rel_trans)
qed

lemma rel_missing: "missing_in_epoch net env gid e t r = (res, r1) \<Longrightarrow> rel r r1"
  by (auto simp: missing_in_epoch_def split: prod.splits sum.splits
      intro: rel_walk rel_trans [OF rel_walk rel_buckets])

lemma rel_batches: "fetch_batches net env gid bs r = (res, r1) \<Longrightarrow> rel r r1"
proof (induction bs arbitrary: r)
  case Nil
  then show ?case by (simp add: rel_refl)
next
  case (Cons b bs)
  obtain rep arrived r2 where q: "ask net env (Req_Fetch gid b) r = (rep, arrived, r2)"
    by (cases "ask net env (Req_Fetch gid b) r") auto
  have "rel r2 r1"
    using Cons.prems Cons.IH [of r2] q
    by (auto simp: Let_def rel_refl split: reply.splits response.splits if_splits)
  with rel_ask [OF q] show ?case
    by (rule rel_trans)
qed

lemma rel_fetch: "fetch cfg net env gid hs r = (res, r1) \<Longrightarrow> rel r r1"
  by (auto simp: fetch_def Let_def rel_refl split: if_splits prod.splits sum.splits intro: rel_batches)

lemma rel_epochs: "reconcile_epochs cfg net env gid oldest roots r = (res, r1) \<Longrightarrow> rel r r1"
proof (induction roots arbitrary: res r r1)
  case Nil
  then show ?case by (simp add: rel_refl)
next
  case (Cons x roots)
  obtain e rr where x: "x = (e, rr)"
    by (cases x)
  show ?case
  proof (cases "e < oldest")
    case True
    then show ?thesis
      using Cons x by simp
  next
    case False
    show ?thesis
    proof (cases "tree cfg (he_sha env) gid e (rd_store r)")
      case (Inl err)
      then show ?thesis
        using Cons.prems False x by (simp add: rel_refl)
    next
      case (Inr t)
      obtain ms r2 where m: "missing_in_epoch net env gid e t r = (ms, r2)"
        by (cases "missing_in_epoch net env gid e t r")
      have "rel r2 r1" if "root t \<noteq> rr"
      proof (cases ms)
        case (Inl err)
        then show ?thesis
          using Cons.prems False x Inr m that by (simp add: rel_refl)
      next
        case (Inr hs)
        obtain n r3 where f: "fetch cfg net env gid hs r2 = (n, r3)"
          by (cases "fetch cfg net env gid hs r2")
        obtain res4 r4 where rest: "reconcile_epochs cfg net env gid oldest roots r3 = (res4, r4)"
          by (cases "reconcile_epochs cfg net env gid oldest roots r3")
        have there: "rel r2 r3" "rel r2 r4"
          using rel_fetch [OF f] rel_trans [OF rel_fetch [OF f] Cons.IH [OF rest]] .
        have "reconcile_epochs cfg net env gid oldest (x # roots) r = (if hs = [] then reconcile_epochs cfg net env gid oldest roots r2
            else case n of Inl e \<Rightarrow> (Inl e, r3)
              | Inr k \<Rightarrow> (case res4 of Inl e \<Rightarrow> (Inl e, r4) | Inr m \<Rightarrow> (Inr (k + m), r4)))"
          using False x \<open>tree _ _ _ _ _ = _\<close> m Inr that f rest
          by (cases "hs = []"; cases n; cases res4) simp_all
        note step = this [unfolded Cons.prems]
        show ?thesis
        proof (cases "hs = []")
          case True
          then show ?thesis
            using step by (intro Cons.IH [where res = res]) simp
        next
          case False
          then show ?thesis
            using step there by (auto split: sum.splits)
        qed
      qed
      then show ?thesis
        using Cons x False Inr rel_trans [OF rel_missing [OF m]] by (cases "root t = rr") auto
    qed
  qed
qed

lemma rel_all: "reconcile_all cfg net env here roots r = (res, r1) \<Longrightarrow> rel r r1"
proof (induction roots arbitrary: res r r1)
  case Nil
  then show ?case by (simp add: rel_refl)
next
  case (Cons x roots)
  obtain gid rs where x: "x = (gid, rs)"
    by (cases x)
  obtain res2 r2 where g: "reconcile_group cfg net env gid rs r = (res2, r2)"
    by (cases "reconcile_group cfg net env gid rs r")
  obtain res3 r3 where rest: "reconcile_all cfg net env here roots r2 = (res3, r3)"
    by (cases "reconcile_all cfg net env here roots r2")
  have "rel r r2"
    using g by (auto simp: reconcile_group_def rel_refl split: sum.splits intro: rel_epochs)
  then have "rel r r3"
    using Cons.IH [OF rest] rel_trans by blast
  then show ?case
    using Cons g rest x by (auto simp: Let_def case_prod_beta split: if_splits sum.splits)
qed

lemma rel_state: "exchange_state net env dest r = (res, r1) \<Longrightarrow> rel r r1"
proof -
  assume e: "exchange_state net env dest r = (res, r1)"
  obtain rep b r2 where q: "ask net env (Req_State PROTOCOL_VERSION) r = (rep, b, r2)"
    by (cases "ask net env (Req_State PROTOCOL_VERSION) r") auto
  have "rel r2 r1"
    using e q rel_trans [OF rel_success rel_gossip] rel_success [of r2]
    by (auto simp: exchange_state_def Let_def case_prod_beta rel_refl split: reply.splits response.splits if_splits)
  with rel_ask [OF q] show ?thesis
    by (rule rel_trans)
qed

lemma rel_personas: "exchange_personas net env r = (res, r1) \<Longrightarrow> rel r r1"
proof -
  assume e: "exchange_personas net env r = (res, r1)"
  obtain rep b r2 where q: "ask net env (Req_Personas PROTOCOL_VERSION) r = (rep, b, r2)"
    by (cases "ask net env (Req_Personas PROTOCOL_VERSION) r") auto
  have merged: "registry_merge (ce_now env) ps is (rd_store r2) = (x, s) \<Longrightarrow> rel r2 (rd_upd (\<lambda>_. s) r2)" for ps "is" x s
    using rel_merge [of r2 "ce_now env" ps "is"] by simp
  have "rel r2 r1"
    using e q
    by (auto simp: exchange_personas_def Let_def rel_refl split: reply.splits response.splits if_splits prod.splits sum.splits
        intro: merged rel_trans [OF merged rel_losers])
  with rel_ask [OF q] show ?thesis
    by (rule rel_trans)
qed

lemma rel_round: "reconcile_round cfg net env dest r = (res, r1) \<Longrightarrow> rel r r1"
proof -
  assume e: "reconcile_round cfg net env dest r = (res, r1)"
  let ?req = "Req_Roots PROTOCOL_VERSION (epoch_seconds (federation_cfg cfg)) (merkle_depth (federation_cfg cfg)) None"
  obtain rep b r2 where q: "ask net env ?req r = (rep, b, r2)"
    by (cases "ask net env ?req r") auto
  have all: "rel r2 (snd (reconcile_all cfg net env here roots r2))" for here roots
    using rel_all by (metis prod.collapse)
  have "rel r2 r1"
    using e q
    by (auto simp: reconcile_round_def Let_def case_prod_beta rel_refl rel_sync
        split: reply.splits response.splits option.splits if_splits
        intro: rel_trans [OF all rel_trans [OF rel_sync rel_success]])
  with rel_ask [OF q] show ?thesis
    by (rule rel_trans)
qed

lemma rel_sync_peer: "sync_peer cfg net env dest r = (res, r1) \<Longrightarrow> rel r r1"
proof -
  assume e: "sync_peer cfg net env dest r = (res, r1)"
  let ?r0 = "(snd (establish env dest r))\<lparr>rd_ingested := 0\<rparr>"
  have r0: "rel r ?r0"
    using rel_trans [OF rel_path rel_fresh] .
  obtain x2 r2 where s: "exchange_state net env dest ?r0 = (x2, r2)"
    by (cases "exchange_state net env dest ?r0")
  obtain x3 r3 where p: "exchange_personas net env r2 = (x3, r3)"
    by (cases "exchange_personas net env r2")
  have r2: "rel r r2"
    using rel_trans [OF r0 rel_state [OF s]] .
  have r3: "rel r r3"
    using rel_trans [OF r2 rel_personas [OF p]] .
  have round: "rel r r1" if "reconcile_round cfg net env dest r3 = (res, r1)"
    using rel_trans [OF r3 rel_round [OF that]] .
  have off: "rel r (rd_upd (record_peer_sync dest err now) (snd (establish env dest r)))" for err now
    by (rule rel_trans [OF rel_path rel_sync])
  show ?thesis
  proof (cases "fst (establish env dest r)")
    case False
    then show ?thesis
      using e off by (simp add: sync_peer_def case_prod_beta Let_def split: if_splits) blast
  next
    case True
    then show ?thesis
      using e s p r2 r3 round by (cases x2; cases x3) (simp_all add: sync_peer_def case_prod_beta Let_def)
  qed
qed

lemma rel_guarded: "rel r (sync_guarded cfg net env dest r)"
  using rel_sync_peer rel_trans [OF rel_sync_peer rel_sync]
  by (auto simp: sync_guarded_def split: prod.splits sum.splits)

end

text \<open>No peer harms the log, the queues, the groups or the members.\<close>

definition no_harm :: "'p round \<Rightarrow> 'p round \<Rightarrow> bool" where
  "no_harm r r' \<longleftrightarrow> (store_ok (rd_store r) \<longrightarrow> unharmed (rd_store r) (rd_store r'))"

lemma no_harm_upd:
  "same_log (rd_store r) (f (rd_store r)) \<Longrightarrow> (store_ok (rd_store r) \<Longrightarrow> store_ok (f (rd_store r))) \<Longrightarrow>
   no_harm r (rd_upd f r)"
  by (simp add: no_harm_def unharmed_same_log)

lemma no_harm_same: "rd_store r' = rd_store r \<Longrightarrow> no_harm r r'"
  by (simp add: no_harm_def unharmed_same_log)

lemma no_harm_trans: "no_harm r r1 \<Longrightarrow> no_harm r1 r2 \<Longrightarrow> no_harm r r2"
  using unharmed_trans unharmedD(1) unfolding no_harm_def by blast

lemma no_harm_ingest: "no_harm r (ingest_resource env res r)"
  using unharmed_ingest [of "rd_store r" "hub_env.truncate env"]
  by (auto simp: no_harm_def ingest_resource_def unharmed_same_log case_prod_beta Let_def split: resource.split)

lemma no_harm_losers: "no_harm r (tell_losers env losers r)"
proof -
  let ?f = "\<lambda>(p, lost). rd_upd (\<lambda>s. snd (notify_name_lost (ce_now env) (p_id p) lost s))"
  have step: "no_harm r (?f x r)" for x and r :: "'a round"
    by (cases x) (auto simp: notify_name_lost_def notify_devices_effect intro!: no_harm_upd)
  have "no_harm r (fold ?f losers r)" for r :: "'a round"
  proof (induction losers arbitrary: r)
    case Nil
    then show ?case by (simp add: no_harm_same)
  next
    case (Cons x losers)
    show ?case
      using no_harm_trans [OF step Cons.IH] by simp
  qed
  then show ?thesis
    by (simp add: tell_losers_def no_harm_same)
qed

interpretation any_peer: round_relation no_harm env dest for env dest
  by unfold_locales
    (auto intro: no_harm_trans no_harm_same no_harm_ingest no_harm_losers same_log_merge
      store_ok_registry_merge store_ok_record_peer_state
      intro!: no_harm_upd simp: establish_def rd_store_def)

lemma no_harm_pass: "no_harm r (sync_pass cfg net env stopped k hubs r)"
proof (induction hubs arbitrary: k r)
  case (Cons dest hubs)
  show ?case
    using no_harm_trans [OF any_peer.rel_guarded Cons.IH] by (simp add: no_harm_same)
qed (simp add: no_harm_same)

end
