(* ===== verification/Sync_Round.thy ===== *)
theory Sync_Round
  imports Federation_Safety
begin

text \<open>
  The rest of a round with a peer that runs this code: gossip and personas leave the log and the
  groups alone, the peer's gossip is always accepted, and the round as a whole brings the two
  logs together.
\<close>

lemma gained_same_log:
  assumes "same_log (rd_store r) (rd_store r')" and "store_ok (rd_store r')"
    and "rd_peer r' = rd_peer r" and "rd_ingested r' = rd_ingested r"
  shows "gained r r' {}"
  using assms by (simp add: gained_def same_log_def has_message_def)

lemma tell_losers_effect:
  "store_ok (rd_store r) \<Longrightarrow> gained r (tell_losers env losers r) {}"
proof -
  let ?f = "\<lambda>(p, lost). rd_upd (\<lambda>s. snd (notify_name_lost (ce_now env) (p_id p) lost s))"
  have "store_ok (rd_store r) \<Longrightarrow> gained r (fold ?f losers r) {}"
  proof (induction losers arbitrary: r)
    case Nil
    then show ?case by (simp add: gained_refl)
  next
    case (Cons x losers)
    have g: "gained r (?f x r) {}"
      using Cons.prems notify_devices_effect
      by (intro gained_same_log) (auto simp: notify_name_lost_def case_prod_beta)
    then have "gained (?f x r) (fold ?f losers (?f x r)) {}"
      by (intro Cons.IH gained_ok(1))
    from gained_trans [OF g this] show ?case
      by simp
  qed
  then show "store_ok (rd_store r) \<Longrightarrow> gained r (tell_losers env losers r) {}"
    by (simp add: tell_losers_def gained_refl)
qed

section \<open>Gossip\<close>

lemma traverse_map:
  "traverse f xs = Inr ys \<Longrightarrow> (\<And>x y. f x = Inr y \<Longrightarrow> k y = h x) \<Longrightarrow> map k ys = map h xs"
  by (induction xs arbitrary: ys) (auto split: sum.splits)

text \<open>Rows for distinct keys never clash once what was known of the peer is deleted.\<close>

lemma distinct_member_pairs:
  "distinct (map fst members) \<Longrightarrow> \<forall>(g, us) \<in> set members. distinct us \<Longrightarrow>
   distinct (concat (map (\<lambda>(g, us). map (\<lambda>u. (peer, g, u)) us) members))"
  by (induction members) (force simp: distinct_map inj_on_def)+

lemma member_keys:
  "map peer_member_key (concat (map (\<lambda>(gid, users). map (\<lambda>u. \<lparr>pm_peer = peer, pm_group = gid,
     pm_user = u, pm_updated = now\<rparr>) users) members)) =
   concat (map (\<lambda>(g, us). map (\<lambda>u. (peer, g, u)) us) members)"
  by (induction members) (auto simp: peer_member_key_def)

lemma record_peer_state_accepts:
  assumes ok: "store_ok s" and gs: "distinct (map fst groups)"
    and ms: "distinct (map fst members)" "\<forall>(g, us) \<in> set members. distinct us"
  shows "fst (record_peer_state peer name groups members now s) = Inr ()"
proof -
  let ?kg = "sql_delete (\<lambda>r. pg_peer r = peer) (s_peer_groups s)"
  let ?km = "sql_delete (\<lambda>r. pm_peer r = peer) (s_peer_members s)"
  let ?ng = "map (\<lambda>(gid, dest, acl). \<lparr>pg_peer = peer, pg_group = gid, pg_dest = dest,
    pg_hub = name, pg_acl = acl, pg_updated = now\<rparr>) groups"
  let ?nm = "concat (map (\<lambda>(gid, users). map (\<lambda>u. \<lparr>pm_peer = peer, pm_group = gid,
    pm_user = u, pm_updated = now\<rparr>) users) members)"
  have kept: "keys_distinct peer_group_key ?kg" "keys_distinct peer_member_key ?km"
    using ok by (auto simp: store_ok_def peers_ok_def intro: keys_intros)
  have "map peer_group_key ?ng = map (Pair peer) (map fst groups)"
    by (auto simp: peer_group_key_def)
  then have "distinct (map peer_group_key ?ng)"
    using gs by (simp add: distinct_map inj_on_def)
  then have g: "distinct (map peer_group_key (?kg @ ?ng))"
    using kept(1) by (auto simp: keys_distinct_def peer_group_key_def sql_delete_def)
  have m: "distinct (map peer_member_key (?km @ ?nm))"
  proof -
    have "peer_member_key ` set ?km \<inter> set (map peer_member_key ?nm) = {}"
      unfolding member_keys by (auto simp: peer_member_key_def sql_delete_def)
    moreover have "distinct (map peer_member_key ?nm)"
      unfolding member_keys using ms by (rule distinct_member_pairs)
    ultimately show ?thesis
      using kept(2) by (auto simp: keys_distinct_def)
  qed
  show ?thesis
    using insert_many_all [OF g] insert_many_all [OF m]
    unfolding record_peer_state_def Let_def case_prod_beta by simp
qed

lemma serve_state_accepted:
  assumes ok: "store_ok s" and okR: "store_ok sR"
    and served: "serve_state cfgR enR envR who sR = Inr (Rs_State v name groups members)"
  shows "v = PROTOCOL_VERSION \<and> fst (record_peer_state peer name groups members now s) = Inr ()"
proof -
  let ?f = "\<lambda>g. case group_destination_hash (ce_dest_of envR) (g_key g) of
    Inl e \<Rightarrow> Inl (Store_Error e) | Inr h \<Rightarrow> Inr (g_id g, h, g_acl g)"
  have t: "traverse ?f (list_groups sR) = Inr groups" and v: "v = PROTOCOL_VERSION"
    and m: "members = map (\<lambda>g. (g_id g, map fst (list_members (g_id g) False sR))) (list_groups sR)"
    using served by (auto simp: serve_state_def split: if_splits sum.splits)
  have "map fst groups = map g_id (list_groups sR)"
    using t by (rule traverse_map) (auto split: sum.splits)
  moreover have "distinct (map g_id (list_groups sR))"
    using okR by (simp add: store_ok_def groups_ok_def list_groups_def keys_distinct_def distinct_map)
  moreover have "distinct (map fst (list_members g False sR))" for g
    using okR by (simp add: store_ok_def list_members_distinct)
  ultimately show ?thesis
    using v by (auto simp: m comp_def intro!: record_peer_state_accepts [OF ok])
qed

lemma exchange_state_honest:
  assumes ok: "store_ok (rd_store r)" and okR: "store_ok sR" and peer: "rd_peer r = sR"
  shows "\<exists>r1. exchange_state (honest cfgR enR envR link me) env dest r = (Inr (), r1) \<and> gained r r1 {}"
proof -
  have same: "r\<lparr>rd_peer := sR\<rparr> = r"
    using peer by simp
  show ?thesis
  proof (cases "serve_state cfgR enR envR (Some me) sR")
    case (Inl e)
    then show ?thesis
      using gained_refl [OF ok] by (simp add: exchange_state_def ask_def honest_def serve_def same peer)
  next
    case (Inr x)
    then consider "x = Rs_None" | v name groups members where "x = Rs_State v name groups members"
      by (auto simp: serve_state_def split: if_splits sum.splits)
    then show ?thesis
    proof cases
      case 1
      then show ?thesis
        using Inr gained_refl [OF ok] by (simp add: exchange_state_def ask_def honest_def serve_def same peer)
    next
      case 2
      let ?r2 = "rd_upd (record_peer_success dest (ce_now env)) r"
      let ?res = "record_peer_state dest name groups members (ce_now env) (rd_store ?r2)"
      have ok2: "store_ok (rd_store ?r2)"
        using ok by simp
      have acc: "v = PROTOCOL_VERSION" "fst ?res = Inr ()"
        using serve_state_accepted [OF ok2 okR Inr [unfolded 2]] by auto
      have "exchange_state (honest cfgR enR envR link me) env dest r = (Inr (), rd_upd (\<lambda>_. snd ?res) ?r2)"
        using Inr 2 acc
        by (simp add: exchange_state_def ask_def honest_def serve_def same peer case_prod_beta Let_def)
      moreover have "gained r (rd_upd (\<lambda>_. snd ?res) ?r2) {}"
        using ok2 store_ok_record_peer_state [OF ok2]
        by (intro gained_same_log)
          (auto intro: same_log_trans [OF same_log_peer(2) same_log_peer(3)])
      ultimately show ?thesis
        by blast
    qed
  qed
qed

lemma exchange_personas_honest:
  assumes ok: "store_ok (rd_store r)" and peer: "rd_peer r = sR"
  shows "\<exists>r1. exchange_personas (honest cfgR enR envR link me) env r = (Inr (), r1) \<and> gained r r1 {}"
proof -
  have same: "r\<lparr>rd_peer := sR\<rparr> = r"
    using peer by simp
  consider "serve_personas enR envR (Some me) sR = Rs_None"
    | ps "is" where "serve_personas enR envR (Some me) sR = Rs_Personas PROTOCOL_VERSION ps is"
    by (cases "peer_allowed enR envR (Some me)") (auto simp: serve_personas_def snapshot_def)
  then show ?thesis
  proof cases
    case 1
    then show ?thesis
      using gained_refl [OF ok] by (simp add: exchange_personas_def ask_def honest_def serve_def same peer)
  next
    case 2
    let ?res = "registry_merge (ce_now env) ps is (rd_store r)"
    let ?r1 = "rd_upd (\<lambda>_. snd ?res) r"
    have ok1: "store_ok (rd_store ?r1)"
      using store_ok_registry_merge [OF ok] by simp
    then have g: "gained r ?r1 {}"
      using same_log_merge by (intro gained_same_log) auto
    show ?thesis
    proof (cases "fst ?res")
      case (Inl e)
      then show ?thesis
        using 2 g by (cases ?res) (simp add: exchange_personas_def ask_def honest_def serve_def same peer)
    next
      case (Inr losers)
      have "exchange_personas (honest cfgR enR envR link me) env r = (Inr (), tell_losers env losers ?r1)"
        using 2 Inr by (cases ?res) (simp add: exchange_personas_def ask_def honest_def serve_def same peer)
      then show ?thesis
        using gained_trans [OF g tell_losers_effect [OF ok1]] by auto
    qed
  qed
qed

section \<open>The whole round\<close>

text \<open>A message of the peer that the round has to bring: its group is on both hubs and it is inside
  the retention window of both.\<close>

definition due_here :: "hub_config \<Rightarrow> int \<Rightarrow> int \<Rightarrow> store \<Rightarrow> store \<Rightarrow> message_row \<Rightarrow> bool" where
  "due_here cfg oldest oldestR sR s x \<longleftrightarrow> x \<in> set (s_messages sR) \<and>
     get_group (m_group x) s \<noteq> None \<and> get_group (m_group x) sR \<noteq> None \<and>
     real_of_int (max oldest oldestR * epoch_seconds (federation_cfg cfg)) \<le> m_time x"

text \<open>The peer's window is one answer, its clock never ran before 1970.\<close>

definition window_ok :: "hub_config \<Rightarrow> int \<Rightarrow> store \<Rightarrow> bool" where
  "window_ok cfg oldestR sR \<longleftrightarrow> (\<forall>x \<in> set (s_messages sR). 0 \<le> m_time x) \<and>
     (\<forall>gid. length (populated_epochs gid (epoch_seconds (federation_cfg cfg))
       (real_of_int (oldestR * epoch_seconds (federation_cfg cfg))) sR) \<le> MAX_EPOCHS_PER_RESPONSE)"

lemma due_here_epoch:
  assumes es: "0 < epoch_seconds (federation_cfg cfg)" and w: "window_ok cfg oldestR sR"
    and x: "due_here cfg oldest oldestR sR s x"
  obtains e where "oldest \<le> e" "m_hash x \<in> set (hashes_of cfg (m_group x) e sR)"
    "e \<in> set (populated_epochs (m_group x) (epoch_seconds (federation_cfg cfg))
      (real_of_int (oldestR * epoch_seconds (federation_cfg cfg))) sR)"
proof -
  let ?es = "epoch_seconds (federation_cfg cfg)"
  let ?e = "py_int (m_time x / real_of_int ?es)"
  have in_sR: "x \<in> set (s_messages sR)" and t: "0 \<le> m_time x"
    using x w by (auto simp: due_here_def window_ok_def)
  have win: "real_of_int (?e * ?es) \<le> m_time x" "m_time x < real_of_int (?e * ?es + ?es)"
    using epoch_window [of ?es "m_time x" ?e] es t by auto
  have both: "oldest * ?es \<le> max oldest oldestR * ?es" "oldestR * ?es \<le> max oldest oldestR * ?es"
    using es by (simp_all add: mult_right_mono)
  moreover have late: "real_of_int (max oldest oldestR * ?es) \<le> m_time x"
    using x by (simp add: due_here_def)
  ultimately have "real_of_int (oldest * ?es) < real_of_int ((?e + 1) * ?es)"
    using win(2) by (simp add: distrib_right del: of_int_mult of_int_add)
  then have "oldest \<le> ?e"
    using es by (simp del: of_int_mult)
  moreover have h: "m_hash x \<in> set (hashes_of cfg (m_group x) ?e sR)"
    using in_sR win by (auto simp: hashes_of_def epoch_hashes_set)
  moreover have "real_of_int (oldestR * ?es) \<le> m_time x"
    using both(2) late by linarith
  then have "?e \<in> set (populated_epochs (m_group x) ?es (real_of_int (oldestR * ?es)) sR)"
    using in_sR by (auto simp: populated_epochs_def)
  ultimately show thesis
    by (rule that)
qed

lemma reconcile_round_honest:
  assumes R: "in_round cfg env cfgR enR envR link me sR P r"
    and oldest: "oldest_epoch cfg (ce_now env) = Inr oldest" "oldest_epoch cfgR (ce_now envR) = Inr oldestR"
    and w: "window_ok cfg oldestR sR"
  shows "\<exists>n r' X. reconcile_round cfg (honest cfgR enR envR link me) env dest r = (Inr n, r') \<and>
    gained r r' X \<and> X \<subseteq> held_hashes sR \<and> rd_ingested r' = rd_ingested r + n \<and>
    (\<forall>x. due_here cfg oldest oldestR sR (rd_store r) x \<longrightarrow> has_message (m_hash x) (rd_store r')) \<and>
    peer_state dest (rd_store r') = Some (ce_now env, None) \<and>
    peer_last_success dest (rd_store r') = Some (ce_now env)"
proof -
  let ?net = "honest cfgR enR envR link me"
  let ?es = "epoch_seconds (federation_cfg cfg)" and ?d = "merkle_depth (federation_cfg cfg)"
  let ?pop = "\<lambda>gid. populated_epochs gid ?es (real_of_int (oldestR * ?es)) sR"
  have p: "paired cfg env cfgR enR envR link me" and peer: "rd_peer r = sR"
    using R by (auto simp: in_round_def)
  have same: "r\<lparr>rd_peer := sR\<rparr> = r"
    using peer by simp
  have few: "length (?pop gid) \<le> MAX_EPOCHS_PER_RESPONSE" for gid
    using w by (simp add: window_ok_def)
  obtain roots where roots: "?net sR (Req_Roots PROTOCOL_VERSION ?es ?d None) =
      (Answer (Rs_Roots PROTOCOL_VERSION (Some roots)), [], sR)"
    "\<forall>(gid, rs) \<in> set roots. \<forall>(e, rr) \<in> set rs. \<exists>tR. tree cfg (he_sha env) gid e sR = Inr tR \<and> rr = root tR"
    "\<forall>gid. get_group gid sR \<noteq> None \<longrightarrow> (\<exists>rs. (gid, rs) \<in> set roots \<and> (\<forall>e \<in> set (?pop gid). \<exists>rr. (e, rr) \<in> set rs))"
    using roots_honest [OF p oldest(2) few] by (elim exE conjE) (rule that)
  let ?here = "local_group_ids (rd_store r)"
  have here: "g \<in> set ?here \<longleftrightarrow> get_group g (rd_store r) \<noteq> None" for g
    using list_groups_ids [of g "rd_store r"] by (auto simp: local_group_ids_def)
  obtain n r1 X where all: "reconcile_all cfg ?net env ?here roots r = ((n, []), r1)"
    "gained r r1 X" "X \<subseteq> held_hashes sR" "rd_ingested r1 = rd_ingested r + n"
    "covered cfg ?here oldest roots sR (rd_store r1)"
    using reconcile_all_honest [OF oldest(1) R _ roots(2), of ?here] here by blast
  let ?r2 = "rd_upd (record_peer_success dest (ce_now env)) (rd_upd (record_peer_sync dest None (ce_now env)) r1)"
  have "gained r1 ?r2 {}"
    using gained_ok(1) [OF all(2)] by (intro gained_same_log) (auto intro: same_log_trans [OF same_log_peer(1,2)])
  then have g: "gained r ?r2 X"
    using gained_trans [OF all(2)] by fastforce
  have "has_message (m_hash x) (rd_store r1)" if x: "due_here cfg oldest oldestR sR (rd_store r) x" for x
  proof -
    obtain e where e: "oldest \<le> e" "m_hash x \<in> set (hashes_of cfg (m_group x) e sR)" "e \<in> set (?pop (m_group x))"
      using due_here_epoch [OF pairedD(6) [OF p] w x] .
    have "get_group (m_group x) sR \<noteq> None" and mine: "m_group x \<in> set ?here"
      using x here by (auto simp: due_here_def)
    then obtain rs rr where "(m_group x, rs) \<in> set roots" "(e, rr) \<in> set rs"
      using roots(3) e(3) by blast
    then have "set (hashes_of cfg (m_group x) e sR) \<subseteq> held_hashes (rd_store r1)"
      using all(5) e(1) mine unfolding covered_def by fast
    then show ?thesis
      using e(2) by (auto simp: held_hashes_def)
  qed
  then have "has_message (m_hash x) (rd_store ?r2)" if "due_here cfg oldest oldestR sR (rd_store r) x" for x
    using that by (simp add: has_message_def record_peer_success_def record_peer_sync_def)
  moreover have "reconcile_round cfg ?net env dest r = (Inr n, ?r2)"
    using roots(1) all(1) by (simp add: reconcile_round_def ask_def peer same failed_text_def Let_def)
  moreover have "rd_ingested ?r2 = rd_ingested r + n"
    using all(4) by simp
  moreover have "peer_state dest (rd_store ?r2) = Some (ce_now env, None)"
    "peer_last_success dest (rd_store ?r2) = Some (ce_now env)"
    by (simp_all add: peer_defs)
  ultimately show ?thesis
    using g all(3) by blast
qed

lemma in_round_cong:
  "rd_store r' = rd_store r \<Longrightarrow> rd_peer r' = rd_peer r \<Longrightarrow>
   in_round cfg env cfgR enR envR link me sR P r' = in_round cfg env cfgR enR envR link me sR P r"
  by (simp add: in_round_def)

lemma gained_empty_cong:
  "gained r r' {} \<Longrightarrow> due_here cfg oldest oldestR sR (rd_store r') x = due_here cfg oldest oldestR sR (rd_store r) x"
  by (simp add: gained_def due_here_def get_group_def)

lemma sync_peer_honest:
  assumes R: "in_round cfg env cfgR enR envR link me sR P r"
    and oldest: "oldest_epoch cfg (ce_now env) = Inr oldest" "oldest_epoch cfgR (ce_now envR) = Inr oldestR"
    and w: "window_ok cfg oldestR sR" and up: "he_known env dest" "fe_link_up env dest"
  shows "\<exists>n r' X. sync_peer cfg (honest cfgR enR envR link me) env dest r = (Inr n, r') \<and>
    gained (r\<lparr>rd_ingested := 0\<rparr>) r' X \<and> X \<subseteq> held_hashes sR \<and> rd_ingested r' = n \<and>
    (\<forall>x. due_here cfg oldest oldestR sR (rd_store r) x \<longrightarrow> has_message (m_hash x) (rd_store r')) \<and>
    peer_state dest (rd_store r') = Some (ce_now env, None) \<and>
    peer_last_success dest (rd_store r') = Some (ce_now env)"
proof -
  let ?net = "honest cfgR enR envR link me"
  let ?r0 = "(snd (establish env dest r))\<lparr>rd_ingested := 0\<rparr>"
  have est: "fst (establish env dest r)"
    using up by (simp add: establish_def)
  have s0: "rd_store ?r0 = rd_store r" "rd_peer ?r0 = rd_peer r" "rd_ingested ?r0 = 0"
    by (simp_all add: establish_def rd_store_def)
  have R0: "in_round cfg env cfgR enR envR link me sR P ?r0"
    using R in_round_cong [OF s0(1,2)] by simp
  then have ok: "store_ok (rd_store ?r0)" and okR: "store_ok sR" and peer: "rd_peer ?r0 = sR"
    by (auto simp: in_round_def)
  obtain r1 where r1: "exchange_state ?net env dest ?r0 = (Inr (), r1)" "gained ?r0 r1 {}"
    using exchange_state_honest [OF ok okR peer] by blast
  obtain r2 where r2: "exchange_personas ?net env r1 = (Inr (), r2)" "gained r1 r2 {}"
    using exchange_personas_honest [OF gained_ok(1) [OF r1(2)], of sR] gained_ok(2) [OF r1(2)] peer by metis
  have g02: "gained ?r0 r2 {}"
    using gained_trans [OF r1(2) r2(2)] by simp
  have R2: "in_round cfg env cfgR enR envR link me sR P r2"
    using in_round_gained [OF R0 g02] by simp
  obtain n r3 X where r3: "reconcile_round cfg ?net env dest r2 = (Inr n, r3)" "gained r2 r3 X"
    "X \<subseteq> held_hashes sR" "rd_ingested r3 = rd_ingested r2 + n"
    "\<forall>x. due_here cfg oldest oldestR sR (rd_store r2) x \<longrightarrow> has_message (m_hash x) (rd_store r3)"
    "peer_state dest (rd_store r3) = Some (ce_now env, None)"
    "peer_last_success dest (rd_store r3) = Some (ce_now env)"
    using reconcile_round_honest [OF R2 oldest w, of dest] by (elim exE conjE) (rule that)
  have "sync_peer cfg ?net env dest r = (Inr n, r3)"
    using r1(1) r2(1) r3(1) est by (simp add: sync_peer_def case_prod_beta)
  moreover have "gained ?r0 r3 X"
    using gained_trans [OF g02 r3(2)] by simp
  then have "gained (r\<lparr>rd_ingested := 0\<rparr>) r3 X"
    using s0 by (simp add: gained_def)
  moreover have "rd_ingested r3 = n"
    using r3(4) g02 s0(3) by (simp add: gained_def)
  moreover have "\<forall>x. due_here cfg oldest oldestR sR (rd_store r) x \<longrightarrow> has_message (m_hash x) (rd_store r3)"
    using r3(5) gained_empty_cong [OF g02] s0(1) by simp
  ultimately show ?thesis
    using r3(3,6,7) by blast
qed

end
