(* ===== verification/Federation_Properties.thy ===== *)
theory Federation_Properties
  imports Sync_Round Sample
begin

text \<open>
  Properties of the federation: what the trees decide, what a round with a correct peer achieves,
  and what no peer can do.
\<close>

section \<open>Sample peers\<close>

text \<open>A digest that does not collide on the trees of at most one message.\<close>

definition sync_digest :: "bytes \<Rightarrow> bytes" where
  "sync_digest x = (if length x = 32 then replicate 32 1 else replicate 32 2)"

definition sync_hash :: bytes where "sync_hash = replicate 32 2"

definition sync_cfg :: hub_config where
  "sync_cfg = default_config\<lparr>federation_cfg := default_federation\<lparr>merkle_depth := 1\<rparr>\<rparr>"

definition sync_env :: fed_env where
  "sync_env = hub_env.extend (sample_env\<lparr>he_sha := sync_digest\<rparr>)
     \<lparr>fe_peer_of = (\<lambda>u. u), fe_link_up = (\<lambda>u. True), fe_text = (\<lambda>e. ''error'')\<rparr>"

definition sync_engine :: engine where
  "sync_engine = \<lparr>en_peers = [net_hash], en_links = [[9]]\<rparr>"

definition sync_row :: message_row where
  "sync_row = message_record.extend \<lparr>m_hash = sync_hash, m_group = ''net'', m_sender = bob, m_time = 7200,
     m_payload = [1], m_origin = ORIGIN_LOCAL\<rparr> \<lparr>m_received = 7200\<rparr>"

definition sync_there :: store where
  "sync_there = sample_store\<lparr>s_messages := [sync_row]\<rparr>"

definition sync_round :: "store round" where
  "sync_round = \<lparr>rd_peer = sync_there, rd_hub = sample_hub, rd_ingested = 0\<rparr>"

lemmas sync_defs = sync_cfg_def sync_env_def sync_engine_def sync_row_def sync_there_def
  sync_round_def sync_hash_def

lemma sync_bucket: "bucket_of sync_hash (Suc 0) = 0"
proof -
  have "take 4 sync_hash = [2, 2, 2, 2]"
    by (simp add: sync_hash_def eval_nat_numeral)
  then show ?thesis
    by (simp add: bucket_of_def prefix32_def big_endian_def drop_bit_eq_div)
qed

lemma sync_inputs: "hash_inputs sync_digest (fill_buckets [sync_hash] 1) 1 \<subseteq> {sync_hash, replicate 32 1 @ EMPTY_NODE}"
proof -
  have "fill_buckets [sync_hash] 1 0 = [sync_hash]" "fill_buckets [sync_hash] 1 (Suc 0) = []"
    by (simp_all add: fill_buckets_eq sync_bucket)
  then show ?thesis
    by (auto simp: hash_inputs_def less_Suc_eq numeral_2_eq_2 hash_leaf_def sync_digest_def sync_hash_def
        split: if_splits)
qed

lemma sync_comparable:
  assumes "xs \<in> {[], [sync_hash]}" and "ys \<in> {[], [sync_hash]}"
  shows "comparable sync_digest 1 xs ys"
proof -
  have "hash_inputs sync_digest (fill_buckets [] 1) 1 = {}"
    by (auto simp: hash_inputs_def fill_buckets_eq hash_leaf_def less_Suc_eq)
  then have "hash_inputs sync_digest (fill_buckets xs 1) 1 \<union> hash_inputs sync_digest (fill_buckets ys 1) 1
      \<subseteq> {sync_hash, replicate 32 1 @ EMPTY_NODE}"
    using assms sync_inputs by auto
  moreover have "collision_free sync_digest {sync_hash, replicate 32 1 @ EMPTY_NODE}"
    by (auto simp: collision_free_def sync_digest_def sync_hash_def EMPTY_NODE_def inj_on_def)
  ultimately have "collision_free sync_digest (hash_inputs sync_digest (fill_buckets xs 1) 1 \<union>
      hash_inputs sync_digest (fill_buckets ys 1) 1)"
    by (meson collision_free_def inj_on_subset image_mono subsetD)
  then show ?thesis
    using assms by (auto simp: comparable_def sync_digest_def sync_hash_def)
qed

section \<open>Trees\<close>

text \<open>C28: the level-by-level construction computes the tree: its root is the node that the recursive
  definition over the buckets gives, and two hubs whose hash lists do not collide have the same
  root exactly if they hold the same hashes.\<close>

theorem root_decides:
  assumes "make_tree H xs (int d) = Inr t" and "make_tree H ys (int d) = Inr t'" and "comparable H d xs ys"
  shows "root t = node_at H (fill_buckets xs d) d 0 \<and> (root t = root t' \<longleftrightarrow> set xs = set ys)"
proof -
  have d: "t_depth t = d" "d \<le> 32"
    using make_tree_fields [OF assms(1)] by simp_all
  have "root t = root t' \<longleftrightarrow> tree_items xs 0 0 = tree_items ys 0 0"
    using root_tree_node [OF assms(1)] root_tree_node [OF assms(2)] tree_node_eq [OF d(2) assms(3), of 0 0] by simp
  then show ?thesis
    using root_eq [OF assms(1)] d by (auto simp: tree_items_def bucket_of_def)
qed

theorem root_decides_witness:
  "\<exists>t t'. make_tree sync_digest [sync_hash] 1 = Inr t \<and> make_tree sync_digest [] 1 = Inr t' \<and> root t \<noteq> root t'"
proof -
  obtain t t' where t: "make_tree sync_digest [sync_hash] (int 1) = Inr t" "make_tree sync_digest [] (int 1) = Inr t'"
    using make_tree_total [of "int 1"] by force
  have "comparable sync_digest 1 [sync_hash] []"
    by (rule sync_comparable) simp_all
  from conjunct2 [OF root_decides [OF t this]] have "root t \<noteq> root t'"
    by simp
  then show ?thesis
    using t by auto
qed

section \<open>A round with a correct peer\<close>

text \<open>C2: a round with a peer that runs this code with the same parameters succeeds: afterwards every
  message of a common group that lies in the retention window of both hubs is here, nothing else
  came, nothing was lost, the count returned is that of the messages gained, and the peer counts
  as live.\<close>

theorem sync_converges:
  assumes "in_round cfg env cfgR enR envR link me sR P r"
    and "oldest_epoch cfg (ce_now env) = Inr oldest" and "oldest_epoch cfgR (ce_now envR) = Inr oldestR"
    and "window_ok cfg oldestR sR" and "he_known env dest" and "fe_link_up env dest"
  shows "\<exists>n r'. sync_peer cfg (honest cfgR enR envR link me) env dest r = (Inr n, r') \<and>
    (\<forall>x. due_here cfg oldest oldestR sR (rd_store r) x \<longrightarrow> has_message (m_hash x) (rd_store r')) \<and>
    {h. has_message h (rd_store r)} \<subseteq> {h. has_message h (rd_store r')} \<and>
    {h. has_message h (rd_store r')} \<subseteq> {h. has_message h (rd_store r) \<or> has_message h sR} \<and>
    n = card {h. has_message h (rd_store r') \<and> \<not> has_message h (rd_store r)} \<and>
    store_ok (rd_store r') \<and> peer_state dest (rd_store r') = Some (ce_now env, None) \<and>
    peer_last_success dest (rd_store r') = Some (ce_now env)"
proof -
  obtain n r' X where s: "sync_peer cfg (honest cfgR enR envR link me) env dest r = (Inr n, r')"
    "gained (r\<lparr>rd_ingested := 0\<rparr>) r' X" "X \<subseteq> held_hashes sR" "rd_ingested r' = n"
    "\<forall>x. due_here cfg oldest oldestR sR (rd_store r) x \<longrightarrow> has_message (m_hash x) (rd_store r')"
    "peer_state dest (rd_store r') = Some (ce_now env, None)" "peer_last_success dest (rd_store r') = Some (ce_now env)"
    using sync_peer_honest [OF assms] by (elim exE conjE) (rule that)
  have "{h. has_message h (rd_store r') \<and> \<not> has_message h (rd_store r)} = X - {h. has_message h (rd_store r)}"
    using s(2) by (auto simp: gained_def)
  then have "n = card {h. has_message h (rd_store r') \<and> \<not> has_message h (rd_store r)}"
    using s(2,4) by (simp add: gained_def)
  then show ?thesis
    using s by (intro exI [of _ n] exI [of _ r']) (auto simp: gained_def held_hashes_def)
qed

theorem sync_converges_witness:
  "\<exists>n r'. sync_peer sync_cfg (honest sync_cfg sync_engine sync_env [9] net_hash) sync_env peer_hub sync_round =
      (Inr n, r') \<and> has_message sync_hash (rd_store r')"
proof -
  have paired: "paired sync_cfg sync_env sync_cfg sync_engine sync_env [9] net_hash"
    by (simp add: paired_def parameters_match_def sync_defs default_defs peer_allowed_def hub_env.defs)
  have get: "get_message h sync_there = (if h = sync_hash then Some (message_record.truncate sync_row) else None)" for h
    by (simp add: get_message_def sync_there_def sql_lookup_def) (simp add: sync_row_def message_record.defs)
  have ok: "store_ok sync_there"
    using sample_store_ok
    by (simp add: store_ok_def ok_defs sync_there_def sample_store_def empty_store_def empty_queue_def keys_distinct_def)
  have consistent: "hashes_consistent sync_env sync_there"
    by (simp add: hashes_consistent_def get federated_record_def wire_record_def message_hash_def group_hash_def
        sync_env_def hub_env.defs sync_row_def message_record.defs sync_digest_def sync_hash_def sample_env_def bob_def)
  have "xs \<in> {[], [sync_hash]}" if "distinct xs" "set xs \<subseteq> {sync_hash}" for xs
    using that by (cases xs; cases "tl xs") auto
  then have "comparable sync_digest 1 xs ys" if "distinct xs" "distinct ys" "set xs \<union> set ys \<subseteq> {sync_hash}" for xs ys
    using that by (intro sync_comparable) auto
  then have digest: "digest_ok sync_digest 1 {sync_hash}"
    by (simp add: digest_ok_def)
  have held: "held_hashes sync_there \<subseteq> {sync_hash}" "held_hashes sample_store \<subseteq> {sync_hash}"
    by (auto simp: held_hashes_def has_message_def has_key_def sync_there_def sync_row_def message_record.defs
        sample_store_def empty_store_def)
  have R: "in_round sync_cfg sync_env sync_cfg sync_engine sync_env [9] net_hash sync_there {sync_hash} sync_round"
    using paired ok consistent digest held
    by (simp add: in_round_def rd_store_def sync_round_def sample_hub_def sync_env_def sync_cfg_def hub_env.defs)
  have oldest: "oldest_epoch sync_cfg (ce_now sync_env) = Inr (2 - 168)"
    by (simp add: oldest_epoch_def sync_defs default_defs hub_env.defs sample_env_def py_int_def)
  have window: "window_ok sync_cfg (2 - 168) sync_there"
    by (simp add: window_ok_def sync_there_def populated_epochs_def MAX_EPOCHS_PER_RESPONSE_def)
      (simp add: sync_row_def message_record.defs)
  have up: "he_known sync_env peer_hub" "fe_link_up sync_env peer_hub"
    by (simp_all add: sync_env_def hub_env.defs sample_env_def)
  have due: "due_here sync_cfg (2 - 168) (2 - 168) sync_there (rd_store sync_round) sync_row"
    by (simp add: due_here_def sync_defs rd_store_def sample_hub_def sample_store_def sample_group_def
        message_record.defs get_group_def sql_lookup_def default_defs)
  obtain n r' where "sync_peer sync_cfg (honest sync_cfg sync_engine sync_env [9] net_hash) sync_env peer_hub sync_round =
      (Inr n, r')" and "has_message (m_hash sync_row) (rd_store r')"
    using sync_converges [OF R oldest oldest window up] due by (elim exE conjE) (rule that, assumption, blast)
  then show ?thesis
    by (auto simp: sync_row_def message_record.defs)
qed

section \<open>What no peer can do\<close>

text \<open>C4: whatever the peers send during a pass over all of them, in whatever order, the groups, members, roles,
  adoptions, flags and notices stay as they were, no stored message and no queued delivery is lost
  or altered, the database stays well-formed, and whatever is queued in addition goes to somebody
  entitled to the group of a message that is stored.\<close>

theorem peer_cannot_harm:
  assumes "store_ok (rd_store r)"
  shows "unharmed (rd_store r) (rd_store (sync_pass cfg net env stopped k hubs r))"
  using no_harm_pass [of r cfg net env stopped k hubs] assms by (simp add: no_harm_def)

theorem peer_cannot_harm_witness:
  "get_role ''net'' mallory (rd_store (sync_pass default_config
     (\<lambda>k p q. (Answer Rs_Other, [Resource RESOURCE_MESSAGES [(''net'', mallory, 0, [])] False], p))
     (\<lambda>k. sync_env) (\<lambda>k. k = 2) 0 [peer_hub, stranger] sync_round)) = Some ROLE_BANNED"
proof -
  have "store_ok (rd_store sync_round)"
    by (simp add: rd_store_def sync_round_def sample_hub_def)
  from peer_cannot_harm [OF this] show ?thesis
    using sample_roles(3)
    by (simp add: unharmed_def get_role_def rd_store_def sync_round_def sample_hub_def del: sync_pass.simps)
qed

lemma serve_fetch_pushed:
  assumes ok: "messages_ok s" and f: "serve_fetch cfg en env link who gid hs s = (x, pushed)" and p: "pushed \<noteq> []"
  shows "link \<in> set (en_links en) \<and> (\<exists>rs. pushed = [Resource RESOURCE_MESSAGES (map wire_record rs) True] \<and>
    x = Rs_Count (length rs) \<and> set rs = {m. m_group m = gid \<and>
      (\<exists>h \<in> set (take (max_fetch_batch (federation_cfg cfg)) hs). get_message h s = Some m)})"
proof -
  let ?rs = "filter (\<lambda>r. m_group r = gid) (get_messages (take (max_fetch_batch (federation_cfg cfg)) hs) s)"
  have "set ?rs = {m. m_group m = gid \<and>
      (\<exists>h \<in> set (take (max_fetch_batch (federation_cfg cfg)) hs). get_message h s = Some m)}"
    using get_messages_iff [OF ok] by auto
  moreover have "link \<in> set (en_links en)" "pushed = [Resource RESOURCE_MESSAGES (map wire_record ?rs) True]"
    "x = Rs_Count (length ?rs)"
    using f p by (auto simp: serve_fetch_def Let_def split: if_splits)
  ultimately show ?thesis
    by blast
qed

text \<open>C27: a hub serves its peers only: a request from anybody else is answered with nothing and pushes
  nothing. Messages leave only over a link that the peer opened, only those of the group asked
  for and among the hashes asked for, exactly as stored, and as many as the answer says.\<close>

theorem served_to_peers_only:
  assumes "messages_ok s" and "serve cfg en env link who req s = Inr (x, pushed)"
  shows "(peer_allowed en env who \<or> (x = Rs_None \<and> pushed = [])) \<and>
    (pushed = [] \<or> link \<in> set (en_links en) \<and> (\<exists>gid hs rs. req = Req_Fetch gid hs \<and>
       pushed = [Resource RESOURCE_MESSAGES (map wire_record rs) True] \<and> x = Rs_Count (length rs) \<and>
       set rs = {m. m_group m = gid \<and>
         (\<exists>h \<in> set (take (max_fetch_batch (federation_cfg cfg)) hs). get_message h s = Some m)}))"
proof (cases "peer_allowed en env who")
  case False
  then show ?thesis
    using assms(2)
    by (auto simp: serve_def serve_roots_def serve_tree_def serve_bucket_def serve_fetch_def serve_state_def
        serve_personas_def Let_def split: request.splits)
next
  case True
  have "\<exists>gid hs. req = Req_Fetch gid hs \<and> serve_fetch cfg en env link who gid hs s = (x, pushed)" if "pushed \<noteq> []"
    using assms(2) that by (auto simp: serve_def Let_def split: request.splits sum.splits if_splits)
  then obtain gid hs where "pushed \<noteq> [] \<Longrightarrow> req = Req_Fetch gid hs"
    "pushed \<noteq> [] \<Longrightarrow> serve_fetch cfg en env link who gid hs s = (x, pushed)"
    by blast
  note fetched = this(1) serve_fetch_pushed [OF assms(1) this(2)]
  show ?thesis
  proof (cases "pushed = []")
    case False
    note f = fetched(1) [OF False] conjunct1 [OF fetched(2) [OF False False]] conjunct2 [OF fetched(2) [OF False False]]
    show ?thesis
      by (intro conjI disjI1 [OF True] disjI2 f(2)) (rule exI, rule exI, insert f(3), elim exE, rule exI, rule conjI [OF f(1)])
  qed (simp add: True)
qed

theorem served_to_peers_only_witness:
  "\<exists>rs. serve sync_cfg sync_engine sync_env [9] (Some net_hash) (Req_Fetch ''net'' [sync_hash]) sync_there =
      Inr (Rs_Count (length rs), [Resource RESOURCE_MESSAGES (map wire_record rs) True]) \<and>
     (\<forall>m. m \<in> set rs \<longleftrightarrow> m_group m = ''net'' \<and> get_message sync_hash sync_there = Some m)"
proof -
  have ok: "messages_ok sync_there"
    using sample_store_ok
    by (simp add: store_ok_def ok_defs sync_there_def sample_store_def empty_store_def empty_queue_def keys_distinct_def)
  let ?f = "serve_fetch sync_cfg sync_engine sync_env [9] (Some net_hash) ''net'' [sync_hash] sync_there"
  have s: "serve sync_cfg sync_engine sync_env [9] (Some net_hash) (Req_Fetch ''net'' [sync_hash]) sync_there =
      Inr (fst ?f, snd ?f)"
    by (simp add: serve_def)
  have "get_message sync_hash sync_there = Some (message_record.truncate sync_row)"
    by (simp add: get_message_def sync_there_def sync_row_def sql_lookup_def message_record.defs)
  then have "message_record.truncate sync_row \<in> set (get_messages [sync_hash] sync_there)"
    using get_messages_iff [OF ok, of _ "[sync_hash]"] by simp
  moreover have "m_group (message_record.truncate sync_row) = ''net''"
    by (simp add: sync_row_def message_record.defs)
  ultimately have "filter (\<lambda>r. m_group r = ''net'') (get_messages [sync_hash] sync_there) \<noteq> []"
    by (auto simp: filter_empty_conv)
  then have nonempty: "snd ?f \<noteq> []"
    by (simp add: serve_fetch_def peer_allowed_def sync_engine_def sync_env_def hub_env.defs sync_cfg_def
        default_defs Let_def)
  have one: "set (take (max_fetch_batch (federation_cfg sync_cfg)) [sync_hash]) = {sync_hash}"
    by (simp add: sync_cfg_def default_defs)
  obtain gid hs rs where eq: "Req_Fetch ''net'' [sync_hash] = Req_Fetch gid hs"
    and sent: "snd ?f = [Resource RESOURCE_MESSAGES (map wire_record rs) True]" "fst ?f = Rs_Count (length rs)"
    and rs: "set rs = {m. m_group m = gid \<and>
      (\<exists>h \<in> set (take (max_fetch_batch (federation_cfg sync_cfg)) hs). get_message h sync_there = Some m)}"
    using conjunct2 [OF served_to_peers_only [OF ok s]]
    by (elim disjE) (erule notE [OF nonempty], elim conjE exE, rule that)
  have "gid = ''net''" "hs = [sync_hash]"
    using eq by simp_all
  then have "m \<in> set rs \<longleftrightarrow> m_group m = ''net'' \<and> get_message sync_hash sync_there = Some m" for m
    using rs one by simp
  then show ?thesis
    using s unfolding sent by blast
qed

end
