(* ===== verification/Egress_Runs.thy ===== *)
theory Egress_Runs
  imports Egress_Facts
begin

text \<open>
  How often one row of the egress queue can leave: the attempts counted in the row bound what was
  handed over for it, through ticks, callbacks and everything the rest of the hub does to the
  queue, which is to add fresh rows and to delete rows.
\<close>

section \<open>What the rest of the hub does to the queue\<close>

definition grown :: "'a queue \<Rightarrow> 'a queue \<Rightarrow> bool" where
  "grown q q' \<longleftrightarrow> (queue_ok q \<longrightarrow> queue_ok q') \<and> q_seq q \<le> q_seq q' \<and>
     (\<forall>r \<in> set (q_rows q'). r \<in> set (q_rows q) \<or> (q_seq q < q_id r \<and> q_attempts r = 0))"

lemma grown_refl [simp]: "grown q q"
  by (simp add: grown_def)

lemma grown_trans: "grown q q1 \<Longrightarrow> grown q1 q2 \<Longrightarrow> grown q q2"
  unfolding grown_def by (meson le_less_trans order_trans)

lemma grown_insert_ignore [simp]: "grown q (snd (queue_insert_ignore key x t now q))"
  by (simp add: grown_def queue_insert_ignore_def queue_ok_append) (auto simp: fresh_row_def)

lemma grown_filter: "grown q (q\<lparr>q_rows := sql_delete P (q_rows q)\<rparr>)"
  by (auto simp: grown_def queue_ok_def list_all_iff intro: keys_intros)

lemma grown_enqueue_all: "grown (s_egress s) (s_egress (snd (enqueue_all g h us now s)))"
proof (induction us arbitrary: s)
  case (Cons u us)
  let ?s1 = "snd (enqueue_egress g u h now now s)"
  have "grown (s_egress s) (s_egress ?s1)"
    by simp
  moreover have "snd (enqueue_all g h (u # us) now s) = snd (enqueue_all g h us now ?s1)"
    by (simp add: case_prod_beta Let_def)
  ultimately show ?case
    using Cons.IH [of ?s1] grown_trans by metis
qed simp

lemma grown_store_and_fan_out: "grown (s_egress s) (s_egress (snd (store_and_fan_out now r s)))"
proof -
  have "s_egress (snd (store_message r now s)) = s_egress s"
    by (simp add: store_message_def case_prod_beta)
  then show ?thesis
    using grown_enqueue_all [of "snd (store_message r now s)"]
    by (simp add: store_and_fan_out_def store_and_enqueue_def case_prod_beta Let_def)
qed

lemma grown_ingest: "grown (s_egress s) (s_egress (snd (ingest_federated env xs s)))"
proof (induction xs arbitrary: s)
  case (Cons x xs)
  then show ?case
    using grown_trans [OF grown_store_and_fan_out Cons.IH] by (simp add: case_prod_beta Let_def)
qed simp

lemma grown_prune: "grown (s_egress s) (s_egress (snd (prune_messages before s)))"
  by (simp add: prune_messages_def Let_def grown_filter)

lemma grown_fan_out_from:
  "s_egress s = q \<Longrightarrow> grown q (s_egress (snd (store_and_fan_out now r s)))"
  using grown_store_and_fan_out by blast

lemma grown_inbound: "grown (s_egress (h_store h)) (s_egress (h_store (handle_inbound cfg env m h)))"
proof -
  have cmd: "s_egress (h_store (snd (try_command cfg env gid m a r h'))) = s_egress (h_store h')" for gid a r and h' :: hub
    using try_command_messages by blast
  show ?thesis
    unfolding handle_inbound_eq Let_def case_prod_beta
    by (auto simp: cmd hold_unverified_def Let_def split: option.split intro!: grown_fan_out_from)
qed

lemma grown_retry_held:
  "s_egress (h_store h) = q \<Longrightarrow> grown q (s_egress (h_store (snd (retry_held cfg env xs h))))"
proof (induction xs arbitrary: h q)
  case (Cons x xs)
  have go: "grown q (s_egress (h_store (snd (retry_held cfg env xs (handle_inbound cfg env m h)))))" for m
    using grown_inbound [of h cfg env m] Cons.IH [OF refl] Cons.prems grown_trans by blast
  have "grown q (s_egress (h_store (snd (retry_held cfg env xs (h\<lparr>h_requests := rq\<rparr>)))))" for rq
    by (intro Cons.IH) (simp add: Cons.prems)
  then show ?case
    using Cons.prems Cons.IH [OF Cons.prems] go grown_inbound [of h cfg env]
    by (auto simp: case_prod_beta Let_def inbound_handle)
qed simp

lemma grown_retry: "grown (s_egress (h_store h)) (s_egress (h_store (snd (retry_unverified cfg env h))))"
  using grown_retry_held [of "h\<lparr>h_unverified := []\<rparr>" "s_egress (h_store h)" cfg env "h_unverified h"]
  by (auto simp: retry_unverified_def split: prod.split option.split)

lemma administer_egress: "s_egress (snd (administer cfg dest_of control key pick now cmd s)) = s_egress s"
  by (cases cmd)
    (auto simp: administer_def Let_def create_group_def set_acl_mode_def delete_group_def remove_member_def
      split: sum.splits if_splits option.splits)

lemma control_egress:
  "s_egress (snd (control_execute cfg env c s)) = s_egress s"
  "s_egress (control_reply now u a ct s) = s_egress s"
  using administer_egress [of cfg "ce_dest_of env" "ne_hub_hash env" "ne_key env" "ne_pick env" "ce_now env" _ s]
  by (auto simp: control_execute_def control_reply_def enqueue_control_def case_prod_beta Let_def
      split: sum.splits admin_error.splits prod.splits)

lemma control_handle_egress: "s_egress (h_store (snd (control_handle cfg env m st))) = s_egress (h_store (snd st))"
  by (cases st) (simp add: control_handle_def control_hold_def control_egress case_prod_beta Let_def)

lemma control_held_egress: "s_egress (h_store (snd (snd (control_retry_held cfg env xs st)))) = s_egress (h_store (snd st))"
  by (induction xs arbitrary: st) (auto simp: control_handle_egress case_prod_beta Let_def)

lemma retry_all_effect:
  "x_outbox (snd (retry_all cfg env x)) = x_outbox x \<and>
   grown (s_egress (x_store x)) (s_egress (x_store (snd (retry_all cfg env x))))"
  using grown_retry [of "x_hub x" cfg "hub_env.truncate env"]
  by (auto simp: retry_all_def control_retry_unverified_def control_held_egress x_store_def case_prod_beta Let_def
      split: option.splits)

section \<open>Sent at most as often as counted\<close>

definition sent_for :: "nat \<Rightarrow> sched \<Rightarrow> nat" where
  "sent_for i x = length (filter (\<lambda>o'. o_kind o' = KIND_EGRESS \<and> o_row o' = i) (x_outbox x))"

definition within_attempts :: "hub_config \<Rightarrow> sched \<Rightarrow> bool" where
  "within_attempts cfg x \<longleftrightarrow> queue_ok (s_egress (x_store x)) \<and>
     (\<forall>i. sent_for i x \<le> max_attempts (egress_cfg cfg) \<and>
        (q_seq (s_egress (x_store x)) < i \<longrightarrow> sent_for i x = 0)) \<and>
     (\<forall>r \<in> set (q_rows (s_egress (x_store x))). sent_for (q_id r) x \<le> q_attempts r)"

lemma within_grown:
  assumes "within_attempts cfg x" and "grown (s_egress (x_store x)) (s_egress (x_store y))"
    and "\<And>i. sent_for i y = sent_for i x"
  shows "within_attempts cfg y"
  using assms unfolding within_attempts_def grown_def by (fastforce dest: le_less_trans)

lemma within_same:
  "within_attempts cfg x \<Longrightarrow> s_egress (x_store y) = s_egress (x_store x) \<Longrightarrow> x_outbox y = x_outbox x \<Longrightarrow>
   within_attempts cfg y"
  by (erule within_grown) (simp_all add: sent_for_def)

lemma grown_complete: "grown q (queue_complete i q)"
  by (simp add: queue_complete_def grown_filter)

text \<open>What a send does to the rows other than its own: nothing.\<close>

definition rows_kept :: "nat \<Rightarrow> sched \<Rightarrow> sched \<Rightarrow> bool" where
  "rows_kept i x y \<longleftrightarrow> (\<forall>r. q_id r \<noteq> i \<longrightarrow>
     r \<in> set (q_rows (s_egress (x_store x))) \<longrightarrow> r \<in> set (q_rows (s_egress (x_store y))))"

lemma within_defer:
  assumes w: "within_attempts cfg x" and st: "x_store y = defer_egress i d c t (x_store x)"
    and out: "\<And>j. sent_for j y \<le> sent_for j x + (if j = i \<and> aired then 1 else 0)"
    and row: "aired \<longrightarrow> c \<and> sent_for i x < max_attempts (egress_cfg cfg) \<and> i \<le> q_seq (s_egress (x_store x))"
  shows "within_attempts cfg y \<and> rows_kept i x y"
proof -
  let ?q = "s_egress (x_store x)"
  have q: "s_egress (x_store y) = queue_defer i d c t ?q"
    by (simp add: st defer_egress_def)
  have ok: "queue_ok ?q" and seq: "\<And>j. q_seq ?q < j \<Longrightarrow> sent_for j x = 0"
    and le: "\<And>j. sent_for j x \<le> max_attempts (egress_cfg cfg)"
    and att: "\<And>r. r \<in> set (q_rows ?q) \<Longrightarrow> sent_for (q_id r) x \<le> q_attempts r"
    using w by (auto simp: within_attempts_def)
  have attempts: "sent_for (q_id r) y \<le> q_attempts (if q_id r = i then defer_row (t + d) c r else r)"
    if "r \<in> set (q_rows ?q)" for r
    using att [OF that] out [of "q_id r"] row by (auto simp: defer_row_def split: if_splits)
  have bound: "sent_for j y \<le> max_attempts (egress_cfg cfg) \<and> (q_seq ?q < j \<longrightarrow> sent_for j y = 0)" for j
    using out [of j] le [of j] seq [of j] row by (cases "j = i \<and> aired") auto
  have "queue_ok (queue_defer i d c t ?q)"
    using ok by simp
  moreover have "sent_for (q_id r) y \<le> q_attempts r" if "r \<in> set (q_rows (queue_defer i d c t ?q))" for r
  proof -
    have "set (q_rows (queue_defer i d c t ?q)) = (\<lambda>r. if q_id r = i then defer_row (t + d) c r else r) ` set (q_rows ?q)"
      by (simp add: queue_defer_def)
    with that obtain r0 where r0: "r0 \<in> set (q_rows ?q)" "r = (if q_id r0 = i then defer_row (t + d) c r0 else r0)"
      by blast
    then have "q_id r = q_id r0"
      by simp
    then show ?thesis
      using attempts [OF r0(1)] r0(2) by simp
  qed
  moreover have "rows_kept i x y"
    unfolding rows_kept_def q by (force simp: queue_defer_def)
  moreover have "q_seq (queue_defer i d c t ?q) = q_seq ?q"
    by (simp add: queue_defer_def)
  ultimately show ?thesis
    using bound unfolding within_attempts_def q by simp
qed

lemma send_within_read:
  assumes w: "within_attempts cfg x" and row: "sent_for (q_id row) x \<le> q_attempts row" "q_id row \<le> q_seq (s_egress (x_store x))"
  shows "within_attempts cfg (snd (send cfg env row x)) \<and> rows_kept (q_id row) x (snd (send cfg env row x))"
proof (cases rule: send_cases [of cfg env row x])
  case (quiet f)
  have same: "sent_for j (snd (send cfg env row x)) = sent_for j x" for j
    using quiet(1) by (simp add: sent_for_def)
  consider "f = id" | "f = complete_egress (q_id row)" | d c where "f = defer_egress (q_id row) d c (ce_now env)"
    using quiet(3) by blast
  then show ?thesis
  proof cases
    case 1
    then show ?thesis
      using quiet within_same [OF w] by (simp add: rows_kept_def)
  next
    case 2
    then have "s_egress (x_store (snd (send cfg env row x))) = queue_complete (q_id row) (s_egress (x_store x))"
      using quiet(2) by (simp add: complete_egress_def)
    then show ?thesis
      using within_grown [OF w _ same] grown_complete by (auto simp: rows_kept_def queue_complete_def)
  next
    case 3
    then show ?thesis
      using quiet(2) same by (intro within_defer [where aired = False, OF w]) auto
  qed
next
  case (handed msg x1)
  have "sent_for j (snd (send cfg env row x)) \<le> sent_for j x + (if j = q_id row \<and> True then 1 else 0)" for j
    using handed(1,3) by (simp add: sent_for_def hand_over_outbox)
  moreover have "x_store (snd (send cfg env row x)) = defer_egress (q_id row) (backoff cfg (q_attempts row)) True (ce_now env) (x_store x)"
    using handed(1,5) by simp
  ultimately show ?thesis
    using row handed(6) by (intro within_defer [where aired = True, OF w]) auto
qed

lemma send_within:
  assumes w: "within_attempts cfg x" and row: "row \<in> set (q_rows (s_egress (x_store x)))"
  shows "within_attempts cfg (snd (send cfg env row x)) \<and> rows_kept (q_id row) x (snd (send cfg env row x))"
proof (rule send_within_read [OF w])
  show "sent_for (q_id row) x \<le> q_attempts row" "q_id row \<le> q_seq (s_egress (x_store x))"
    using w row by (auto simp: within_attempts_def queue_ok_def list_all_iff)
qed

section \<open>A tick\<close>

lemma bucket_irrelevant [simp]:
  "x_store (x\<lparr>x_bucket := b\<rparr>) = x_store x" "sent_for i (x\<lparr>x_bucket := b\<rparr>) = sent_for i x"
  by (simp_all add: x_store_def sent_for_def)

text \<open>A property of states that no send breaks and that the bucket does not matter to survives the
  paced loop.\<close>

lemma drain_paced_keeps:
  assumes step: "\<And>row rows x. I (row # rows) x \<Longrightarrow> I rows (snd (f row x))"
    and bucket: "\<And>rows x b. I rows x \<Longrightarrow> I rows (x\<lparr>x_bucket := b\<rparr>)"
    and stop: "\<And>rows x. I rows x \<Longrightarrow> P x"
  shows "I rows x \<Longrightarrow> P (snd (drain_paced f env k rows x))"
proof (induction rows arbitrary: x)
  case Nil
  then show ?case by (auto intro: stop)
next
  case (Cons row rows)
  define b where "b = snd (consume 1 (ce_now env) (x_bucket x))"
  obtain r y where y: "f row (x\<lparr>x_bucket := b\<rparr>) = (r, y)"
    by (cases "f row (x\<lparr>x_bucket := b\<rparr>)")
  have "I rows y"
    using step [OF bucket [OF Cons.prems, of b]] y by simp
  then have "I rows (if aired then y else y\<lparr>x_bucket := refund 1 (x_bucket y)\<rparr>)" for aired
    using bucket by simp
  then show ?case
    using stop [OF Cons.prems] stop [OF bucket [OF Cons.prems, of b]] stop [OF \<open>I rows y\<close>] Cons.IH y
    by (simp add: case_prod_beta Let_def b_def split: option.split)
qed

text \<open>The same for the store alone, over sends that may raise, and over all the queues of a tick.\<close>

lemma drain_attempts_keep:
  assumes "\<And>row y. P (x_store y) \<Longrightarrow> P (x_store (snd (f row y)))"
  shows "P (x_store x) \<Longrightarrow> P (x_store (snd (drain_paced (attempt cfg env k recipient f) env' k' rows x)))"
proof (rule drain_paced_keeps [where I = "\<lambda>_ y. P (x_store y)"])
  show "P (x_store (snd (attempt cfg env k recipient f row y)))" if "P (x_store y)" for row y
    by (rule attempt_keeps [where P = "\<lambda>z. P (x_store z)"]) (simp_all add: assms that)
qed simp_all

lemma tick_keeps_store:
  assumes retry: "P (x_store (snd (retry_all cfg env x)))"
    and sends: "\<And>row y. P (x_store y) \<Longrightarrow> P (x_store (snd (send cfg env row y)))"
      "\<And>row y. P (x_store y) \<Longrightarrow> P (x_store (snd (send_notice cfg env row y)))"
      "\<And>row y. P (x_store y) \<Longrightarrow> P (x_store (snd (send_user cfg env row y)))"
      "\<And>row y. P (x_store y) \<Longrightarrow> P (x_store (send_control cfg env row y))"
    and put_off: "\<And>i d s. P s \<Longrightarrow> P (defer_control i d True (ce_now env) s)"
  shows "P (x_store (snd (tick cfg env x)))"
proof -
  let ?l = "batch_size (egress_cfg cfg)" and ?now = "ce_now env"
  have queues: "P (x_store (snd (drain_queues cfg env replied y)))" if y: "P (x_store y)" for replied y
  proof -
    define x1 where "x1 = snd (drain_paced (attempt cfg env KIND_USER u_recipient (send_user cfg env)) env KIND_USER
      (due_user ?l ?now (x_store y)) y)"
    define x2 where "x2 = snd (drain_paced (attempt cfg env KIND_NOTICE n_recipient (send_notice cfg env)) env KIND_NOTICE
      (due_notices ?l ?now (x_store y)) x1)"
    define x3 where "x3 = snd (drain_paced (attempt cfg env KIND_EGRESS e_recipient (send cfg env)) env KIND_EGRESS
      (due_egress ?l ?now (x_store y)) x2)"
    have 1: "P (x_store x1)"
      unfolding x1_def by (rule drain_attempts_keep [OF sends(3) y])
    have 2: "P (x_store x2)"
      unfolding x2_def by (rule drain_attempts_keep [OF sends(2) 1])
    have "P (x_store x3)"
      unfolding x3_def by (rule drain_attempts_keep [OF sends(1) 2])
    then show ?thesis
      using 1 2 y drain_queues_end [OF x1_def x2_def x3_def, of replied] by auto
  qed
  have "P (x_store (snd (drain_control cfg env rows y)))" if "P (x_store y)" for rows y
    by (rule drain_control_keeps [where P = "\<lambda>z. P (x_store z)"])
      (simp_all add: that sends(4) put_off, simp add: release_row_def x_store_def)
  then show ?thesis
    using retry queues by (simp add: tick_def Let_def case_prod_beta split: progress.split)
qed

lemma other_sends:
  "s_egress (x_store (snd (send_user cfg env u x))) = s_egress (x_store x)"
  "s_egress (x_store (snd (send_notice cfg env n x))) = s_egress (x_store x)"
  "s_egress (x_store (send_control cfg env c x)) = s_egress (x_store x)"
  by (auto simp: send_user_def send_notice_def send_control_def case_prod_beta Let_def
      defer_user_def defer_notice_def defer_control_def complete_user_def complete_notice_def complete_control_def
      split: option.splits)

lemma other_sends_sent [simp]:
  "sent_for i (snd (send_user cfg env u x)) = sent_for i x"
  "sent_for i (snd (send_notice cfg env n x)) = sent_for i x"
  "sent_for i (send_control cfg env c x) = sent_for i x"
  by (auto simp: send_user_def send_notice_def send_control_def case_prod_beta Let_def sent_for_def
      hand_over_outbox split: option.splits)

text \<open>Queue and outbox of the members' deliveries are as in \<open>x\<close>.\<close>

definition same_deliveries :: "sched \<Rightarrow> sched \<Rightarrow> bool" where
  "same_deliveries x y \<longleftrightarrow> s_egress (x_store y) = s_egress (x_store x) \<and> (\<forall>i. sent_for i y = sent_for i x)"

lemma same_deliveries_simps [simp]:
  "same_deliveries x (snd (send_user cfg env u y)) = same_deliveries x y"
  "same_deliveries x (snd (send_notice cfg env n y)) = same_deliveries x y"
  "same_deliveries x (send_control cfg env c y) = same_deliveries x y"
  "same_deliveries x (snd (in_flight cfg env k i y)) = same_deliveries x y"
  "same_deliveries x (ask_path env a y) = same_deliveries x y"
  "same_deliveries x (release_row k i y) = same_deliveries x y"
  "same_deliveries x (upd_store (defer_control i d b t) y) = same_deliveries x y"
  "same_deliveries x (y\<lparr>x_bucket := bk\<rparr>) = same_deliveries x y"
  by (simp_all add: same_deliveries_def other_sends) (simp_all add: sent_for_def release_row_def x_store_def defer_control_def)

lemma drain_paced_others:
  assumes "\<And>row y. same_deliveries x (snd (f row y)) = same_deliveries x y"
  shows "same_deliveries x (snd (drain_paced (attempt cfg env k recipient f) env' k' rows x))"
proof (rule drain_paced_keeps [where I = "\<lambda>_. same_deliveries x"])
  show "same_deliveries x (snd (attempt cfg env k recipient f row y))" if "same_deliveries x y" for row y
    by (rule attempt_keeps [where P = "same_deliveries x"]) (simp_all add: assms that)
qed (simp_all add: same_deliveries_def)

lemma drain_control_others: "same_deliveries x (snd (drain_control cfg env cs x))"
  by (rule drain_control_keeps [where P = "same_deliveries x"]) (simp_all, simp add: same_deliveries_def)

lemma drain_egress_within:
  assumes "within_attempts cfg x" and "distinct (map q_id rows)" and "set rows \<subseteq> set (q_rows (s_egress (x_store x)))"
  shows "within_attempts cfg (snd (drain_paced (attempt cfg env KIND_EGRESS e_recipient (send cfg env)) env k rows x))"
proof (rule drain_paced_keeps [where I = "\<lambda>rows y. within_attempts cfg y \<and> distinct (map q_id rows) \<and>
    set rows \<subseteq> set (q_rows (s_egress (x_store y)))"])
  fix row rows y
  assume I: "within_attempts cfg y \<and> distinct (map q_id (row # rows)) \<and> set (row # rows) \<subseteq> set (q_rows (s_egress (x_store y)))"
  then have s: "within_attempts cfg (snd (send cfg env row y))" "rows_kept (q_id row) y (snd (send cfg env row y))"
    using send_within [of cfg y row env] by simp_all
  have "q_id r \<noteq> q_id row" if "r \<in> set rows" for r
    using I that by (metis distinct.simps(2) imageI list.map(2) list.set_map)
  then have kept: "set rows \<subseteq> set (q_rows (s_egress (x_store (snd (send cfg env row y)))))"
    using I s(2) by (auto simp: rows_kept_def)
  have same: "within_attempts cfg z" if "x_store z = x_store y" "x_outbox z = x_outbox y" for z
    using I within_same [of cfg y z] that by simp
  show "within_attempts cfg (snd (attempt cfg env KIND_EGRESS e_recipient (send cfg env) row y)) \<and> distinct (map q_id rows) \<and>
      set rows \<subseteq> set (q_rows (s_egress (x_store (snd (attempt cfg env KIND_EGRESS e_recipient (send cfg env) row y)))))"
    by (rule attempt_keeps [where P = "\<lambda>z. within_attempts cfg z \<and> distinct (map q_id rows) \<and> set rows \<subseteq> set (q_rows (s_egress (x_store z)))"])
      (use I s kept same in auto)
next
  fix rows y b
  assume "within_attempts cfg y \<and> distinct (map q_id rows) \<and> set rows \<subseteq> set (q_rows (s_egress (x_store y)))"
  then show "within_attempts cfg (y\<lparr>x_bucket := b\<rparr>) \<and> distinct (map q_id rows) \<and>
      set rows \<subseteq> set (q_rows (s_egress (x_store (y\<lparr>x_bucket := b\<rparr>))))"
    using within_same [of cfg y "y\<lparr>x_bucket := b\<rparr>"] by simp
qed (use assms in auto)

lemma queue_due_distinct: "queue_ok q \<Longrightarrow> distinct (map q_id (queue_due n now q))"
proof -
  assume "queue_ok q"
  then have "distinct (map q_id (filter (\<lambda>r. q_next r \<le> now) (q_rows q)))"
    by (simp add: queue_ok_def keys_distinct_def distinct_map_filter)
  then have "distinct (map q_id (sort_key (\<lambda>r. (q_next r, q_id r)) (filter (\<lambda>r. q_next r \<le> now) (q_rows q))))"
    by (simp add: distinct_map)
  then show ?thesis
    by (simp add: queue_due_def take_map [symmetric])
qed

lemma drain_queues_within:
  assumes w: "within_attempts cfg x"
  shows "within_attempts cfg (snd (drain_queues cfg env replied x))"
proof -
  let ?l = "batch_size (egress_cfg cfg)" and ?now = "ce_now env"
  define A where "A = due_user ?l ?now (x_store x)"
  define N where "N = due_notices ?l ?now (x_store x)"
  define E where "E = due_egress ?l ?now (x_store x)"
  define x1 where "x1 = snd (drain_paced (attempt cfg env KIND_USER u_recipient (send_user cfg env)) env KIND_USER A x)"
  define x2 where "x2 = snd (drain_paced (attempt cfg env KIND_NOTICE n_recipient (send_notice cfg env)) env KIND_NOTICE N x1)"
  define x3 where "x3 = snd (drain_paced (attempt cfg env KIND_EGRESS e_recipient (send cfg env)) env KIND_EGRESS E x2)"
  have "same_deliveries x x1" "same_deliveries x1 x2"
    unfolding x1_def x2_def by (rule drain_paced_others, simp)+
  then have s1: "s_egress (x_store x1) = s_egress (x_store x)" "\<And>i. sent_for i x1 = sent_for i x"
    and s2: "s_egress (x_store x2) = s_egress (x_store x1)" "\<And>i. sent_for i x2 = sent_for i x1"
    by (simp_all add: same_deliveries_def)
  have w1: "within_attempts cfg x1" and w2: "within_attempts cfg x2"
    using within_grown [OF w] s1 s2 by simp_all
  have "queue_ok (s_egress (x_store x))"
    using w by (simp add: within_attempts_def)
  then have E: "distinct (map q_id E)" "set E \<subseteq> set (q_rows (s_egress (x_store x2)))"
    unfolding E_def due_egress_def s2(1) s1(1)
    by (rule queue_due_distinct) (use queue_due_subset in blast)
  have "within_attempts cfg x3"
    unfolding x3_def by (rule drain_egress_within [OF w2 E])
  moreover have "snd (drain_queues cfg env replied x) \<in> {x, x1, x2, x3}"
    by (rule drain_queues_end) (simp_all add: x1_def x2_def x3_def A_def N_def E_def)
  ultimately show ?thesis
    using w w1 w2 by auto
qed

lemma tick_within:
  assumes "within_attempts cfg x"
  shows "within_attempts cfg (snd (tick cfg env x))"
proof -
  let ?x1 = "snd (retry_all cfg env x)"
  let ?replies = "due_control (batch_size (egress_cfg cfg)) (ce_now env) (x_store ?x1)"
  have w1: "within_attempts cfg ?x1"
    using within_grown [OF assms] retry_all_effect [of cfg env x] by (simp add: sent_for_def)
  have "within_attempts cfg (snd (drain_control cfg env ?replies ?x1))"
    using within_grown [OF w1] drain_control_others [of ?x1 cfg env ?replies] by (simp add: same_deliveries_def)
  then show ?thesis
    using w1 drain_queues_within by (simp add: tick_def Let_def case_prod_beta split: progress.split)
qed

section \<open>A run of the scheduler\<close>

text \<open>Ticks at clock readings that do not go back, callbacks of the router, and any change the rest
  of the hub makes to the state it shares with the scheduler, as far as it only adds fresh rows to
  the egress queue or deletes rows, which is what \<open>grown_inbound\<close>, \<open>grown_ingest\<close>, \<open>grown_prune\<close> and
  \<open>administer_egress\<close> say of its operations.\<close>

inductive scheduled :: "hub_config \<Rightarrow> sched \<Rightarrow> sched \<Rightarrow> bool" for cfg x0 where
  start: "scheduled cfg x0 x0"
| ticked: "scheduled cfg x0 x \<Longrightarrow> b_updated (x_bucket x) \<le> ce_now env \<Longrightarrow>
    scheduled cfg x0 (snd (tick cfg env x))"
| callback_ok: "scheduled cfg x0 x \<Longrightarrow> scheduled cfg x0 (delivered k i x)"
| callback_failed: "scheduled cfg x0 x \<Longrightarrow> scheduled cfg x0 (delivery_failed k i x)"
| elsewhere: "scheduled cfg x0 x \<Longrightarrow> grown (s_egress (x_store x)) (s_egress (h_store h)) \<Longrightarrow>
    scheduled cfg x0 (x\<lparr>x_hub := h, x_control := c, x_directory := d\<rparr>)"

lemma scheduled_paid:
  "scheduled cfg x0 x \<Longrightarrow> bucket_ok (x_bucket x0) \<Longrightarrow> paid_by (b_updated (x_bucket x)) x0 x"
proof (induction rule: scheduled.induct)
  case start
  then show ?case by (simp add: paid_by_same)
next
  case (ticked x env)
  have p: "paid_by (b_updated (x_bucket x)) x0 x"
    using ticked by simp
  have "paid_by (ce_now env) x0 (snd (tick cfg env x))"
    using p tick_paid [OF paid_by_ok(1) [OF p] ticked.hyps(2)] ticked.hyps(2) by (rule paid_by_trans)
  then show ?case by (simp add: paid_by_def)
qed (simp_all add: paid_by_def paced_def delivered_def delivery_failed_def release_row_def)


lemma scheduled_within: "scheduled cfg x0 x \<Longrightarrow> within_attempts cfg x0 \<Longrightarrow> within_attempts cfg x"
proof (induction rule: scheduled.induct)
  case (ticked x env)
  then show ?case
    by (intro tick_within) simp
next
  case (callback_ok x k i)
  have "x_store (release_row k i x) = x_store x"
    by (simp add: release_row_def x_store_def)
  then have "grown (s_egress (x_store x)) (s_egress (x_store (delivered k i x)))"
    by (cases k) (simp_all add: delivered_def complete_row_def complete_egress_def complete_notice_def
        complete_control_def complete_user_def grown_complete)
  moreover have "sent_for j (delivered k i x) = sent_for j x" for j
    by (simp add: sent_for_def delivered_def release_row_def)
  ultimately show ?case
    using callback_ok within_grown by blast
next
  case (callback_failed x k i)
  show ?case
    by (rule within_same [of cfg x]) (use callback_failed in \<open>simp_all add: delivery_failed_def release_row_def x_store_def\<close>)
next
  case (elsewhere x h c d)
  show ?case
    by (rule within_grown [of cfg x]) (use elsewhere in \<open>simp_all add: sent_for_def x_store_def\<close>)
qed simp

end
