(* ===== verification/Egress_Properties.thy ===== *)
theory Egress_Properties
  imports Egress_Runs Sample
begin

text \<open>
  Properties of the egress scheduler: the rate on air, how often and when a row is sent, and what an
  exception costs.
\<close>

section \<open>A sample scheduler\<close>

definition sample_air :: air_env where
  "sample_air = net_env.extend (hub_env.extend sample_env 
       \<lparr>ne_shlex = (\<lambda>s. Inl []), ne_parse = (\<lambda>ts. Inl (CommandError [])), ne_usage = (\<lambda>v. []),
        ne_summary = (\<lambda>v. []), ne_verb_help = (\<lambda>v. []), ne_key = [], ne_pick = hd, ne_hub_hash = None\<rparr>)
     \<lparr>ae_holds = (\<lambda>n. False), ae_accepts = (\<lambda>n. True), ae_node = False, ae_stopped = (\<lambda>k i. False),
      ae_fault = (\<lambda>k i. None), ae_reads = (\<lambda>k. True), ae_defers = (\<lambda>i. True)\<rparr>"

definition sample_sched :: sched where
  "sample_sched = \<lparr>x_hub = sample_hub\<lparr>h_store := snd (store_and_fan_out 7300 sample_record sample_store)\<rparr>,
     x_control = None, x_directory = None, x_bucket = new_bucket 1 2 7300, x_inflight = (\<lambda>_. None), x_fresh = 0,
     x_outbox = [], x_tickets = [], x_cache = (\<lambda>_. None)\<rparr>"

section \<open>On air\<close>

text \<open>C9: over any run of the scheduler, what the hub put on air for its members and users is at most
  the burst and the configured rate times the time that passed.\<close>

theorem rate_bound:
  assumes "scheduled cfg x0 x" and "bucket_ok (x_bucket x0)"
  shows "real (paced x) \<le> real (paced x0) + b_burst (x_bucket x0)
      + b_rate (x_bucket x0) * (b_updated (x_bucket x) - b_updated (x_bucket x0))"
proof -
  have "paid_by (b_updated (x_bucket x)) x0 x"
    using assms by (rule scheduled_paid)
  then show ?thesis
    using assms(2) by (auto simp: paid_by_def bucket_ok_def)
qed

theorem rate_bound_witness:
  "real (paced (snd (tick default_config sample_air sample_sched))) \<le> real (paced sample_sched) + 2
     + 1 * (b_updated (x_bucket (snd (tick default_config sample_air sample_sched))) - 7300)"
proof -
  have b: "b_updated (x_bucket sample_sched) \<le> ce_now sample_air" "bucket_ok (x_bucket sample_sched)"
    "b_burst (x_bucket sample_sched) = 2" "b_rate (x_bucket sample_sched) = 1" "b_updated (x_bucket sample_sched) = 7300"
    by (simp_all add: sample_sched_def sample_air_def net_env.defs hub_env.defs sample_env_def new_bucket_def bucket_ok_def)
  show ?thesis
    using rate_bound [OF scheduled.ticked [OF scheduled.start b(1)] b(2)] unfolding b(3-5) .
qed

text \<open>Over any run, a queued delivery is handed to the router at most \<open>max_attempts\<close> times.\<close>

theorem attempts_bounded:
  assumes "scheduled cfg x0 x" and "queue_ok (s_egress (x_store x0))" and "x_outbox x0 = []"
  shows "sent_for i x \<le> max_attempts (egress_cfg cfg)"
proof -
  have "within_attempts cfg x0"
    using assms(2,3) by (simp add: within_attempts_def sent_for_def)
  with assms(1) have "within_attempts cfg x"
    by (rule scheduled_within)
  then show ?thesis
    by (simp add: within_attempts_def)
qed

theorem attempts_bounded_witness:
  "sent_for 1 (snd (tick default_config sample_air sample_sched)) \<le> max_attempts (egress_cfg default_config)"
proof -
  have b: "b_updated (x_bucket sample_sched) \<le> ce_now sample_air" "x_outbox sample_sched = []"
    by (simp_all add: sample_sched_def sample_air_def net_env.defs hub_env.defs sample_env_def new_bucket_def)
  have "store_ok (x_store sample_sched)"
    by (simp add: x_store_def sample_sched_def store_ok_store_and_fan_out)
  then have q: "queue_ok (s_egress (x_store sample_sched))"
    by (simp add: store_ok_def messages_ok_def)
  show ?thesis
    by (rule attempts_bounded [OF scheduled.ticked [OF scheduled.start b(1)] q b(2)])
qed

text \<open>The router still has the message that was last handed over for the row: its delivery timeout runs, or LXMF
  carries it.\<close>

definition carried :: "air_env \<Rightarrow> nat \<Rightarrow> sched \<Rightarrow> bool" where
  "carried env i x \<longleftrightarrow>
     (\<exists>until msg. x_inflight x (KIND_EGRESS, i) = Some (until, msg) \<and> (ce_now env < until \<or> ae_holds env msg))"

lemma busy_carried: "busy cfg env KIND_EGRESS i x \<longleftrightarrow> carried env i x"
  by (simp add: busy_iff carried_def)

text \<open>What becomes of the row of a send, what goes on air, and for whom a path is requested.\<close>

definition row_after :: "hub_config \<Rightarrow> air_env \<Rightarrow> egress_item qrow \<Rightarrow> sched \<Rightarrow> egress_item qrow option" where
  "row_after cfg env row x =
     (if carried env (q_id row) x then Some row
      else if get_message (e_msg (q_item row)) (x_store x) = None \<or> max_attempts (egress_cfg cfg) \<le> q_attempts row then None
      else if destination_for (e_group (q_item row)) (ce_dests env) = None
      then Some (row\<lparr>q_graces := q_graces row + 1, q_next := ce_now env + retry_backoff_sec (egress_cfg cfg)\<rparr>)
      else if \<not> he_known env (e_recipient (q_item row))
      then Some (row\<lparr>q_graces := q_graces row + 1, q_next := ce_now env + grace cfg (q_graces row)\<rparr>)
      else Some (row\<lparr>q_attempts := q_attempts row + 1, q_graces := 0, q_next := ce_now env + backoff cfg (q_attempts row)\<rparr>))"

definition sendable :: "hub_config \<Rightarrow> air_env \<Rightarrow> egress_item qrow \<Rightarrow> sched \<Rightarrow> bool" where
  "sendable cfg env row x \<longleftrightarrow> \<not> carried env (q_id row) x \<and> get_message (e_msg (q_item row)) (x_store x) \<noteq> None \<and>
     q_attempts row < max_attempts (egress_cfg cfg) \<and> destination_for (e_group (q_item row)) (ce_dests env) \<noteq> None"

definition on_air :: "hub_config \<Rightarrow> air_env \<Rightarrow> egress_item qrow \<Rightarrow> sched \<Rightarrow> outbound list" where
  "on_air cfg env row x =
     (case get_message (e_msg (q_item row)) (x_store x) of
        None \<Rightarrow> []
      | Some r \<Rightarrow>
          (case build_reflection cfg (hub_env.truncate env) r (e_recipient (q_item row)) (x_store x) of
             None \<Rightarrow> []
           | Some msg \<Rightarrow> [\<lparr>o_handle = x_fresh x, o_kind = KIND_EGRESS, o_row = q_id row, o_message = msg,
               o_method = desired_method cfg env,
               o_ticket = scoped_ticket (ce_now env) (x_tickets x) (r_from msg) (e_recipient (q_item row))\<rparr>]))"

lemma send_queue:
  assumes "queue_ok (s_egress (x_store x))" and "queue_row (s_egress (x_store x)) (q_id row) = Some row"
  shows "queue_row (s_egress (x_store (snd (send cfg env row x)))) j =
      (if j = q_id row then row_after cfg env row x else queue_row (s_egress (x_store x)) j)"
    and "x_store (snd (send cfg env row x)) = (x_store x)\<lparr>s_egress := s_egress (x_store (snd (send cfg env row x)))\<rparr>"
  using assms
  by (cases "queue_row (s_egress (x_store x)) j"; simp add: send_eq Let_def row_after_def complete_egress_def
      defer_egress_def defer_row_def busy_carried split: option.split)+

lemma send_network:
  "h_requests (x_hub (snd (send cfg env row x))) = h_requests (x_hub x) @
     (if sendable cfg env row x \<and> \<not> he_known env (e_recipient (q_item row)) \<and> \<not> he_path env (e_recipient (q_item row))
      then [e_recipient (q_item row)] else [])"
  "x_outbox (snd (send cfg env row x)) = x_outbox x @
     (if sendable cfg env row x \<and> he_known env (e_recipient (q_item row)) \<and> ae_accepts env (x_fresh x)
      then on_air cfg env row x else [])"
proof -
  have to: "build_reflection cfg e r u s = Some msg \<Longrightarrow> r_to msg = u" for e :: hub_env and r u s msg
    by (auto simp: build_reflection_def split: option.splits)
  have hub: "x_hub (snd (in_flight cfg env KIND_EGRESS i x)) = x_hub x" "h_requests (x_hub (upd_store f y)) = h_requests (x_hub y)"
    "x_hub (hand_over cfg env k i msg m y) = x_hub y" for i f y k msg m
    by (auto simp: in_flight_def upd_store_def hand_over_def mark_in_flight_def release_row_def Let_def case_prod_beta
        split: option.split)
  show "h_requests (x_hub (snd (send cfg env row x))) = h_requests (x_hub x) @
     (if sendable cfg env row x \<and> \<not> he_known env (e_recipient (q_item row)) \<and> \<not> he_path env (e_recipient (q_item row))
      then [e_recipient (q_item row)] else [])"
    by (auto simp: send_eq Let_def sendable_def busy_carried hub ask_path_def request_path_def hub_env.defs split: option.split)
  show "x_outbox (snd (send cfg env row x)) = x_outbox x @
     (if sendable cfg env row x \<and> he_known env (e_recipient (q_item row)) \<and> ae_accepts env (x_fresh x)
      then on_air cfg env row x else [])"
    by (auto simp: send_eq Let_def sendable_def on_air_def busy_carried hand_over_outbox dest: to split: option.split)
qed

text \<open>C12: every outcome of a send, on the row as it is queued. A row the router still carries stays as it is. One
  whose message has expired or whose attempts are used up is abandoned: it leaves the queue. One whose group
  is not served waits for the retry time, and one whose recipient is unknown for the next grace, without
  counting an attempt; for an unknown recipient a path is requested unless there is one. Every other row has
  an attempt counted and waits for the backoff, and if then the reflection can be built and the router takes
  it, exactly that message is on air, with the ticket of its conversation. No other row and no other table
  changes.\<close>

theorem send_outcome:
  assumes "queue_ok (s_egress (x_store x))" and "queue_row (s_egress (x_store x)) (q_id row) = Some row"
  shows "queue_row (s_egress (x_store (snd (send cfg env row x)))) j =
      (if j = q_id row then row_after cfg env row x else queue_row (s_egress (x_store x)) j) \<and>
    x_store (snd (send cfg env row x)) = (x_store x)\<lparr>s_egress := s_egress (x_store (snd (send cfg env row x)))\<rparr> \<and>
    h_requests (x_hub (snd (send cfg env row x))) = h_requests (x_hub x) @
      (if sendable cfg env row x \<and> \<not> he_known env (e_recipient (q_item row)) \<and> \<not> he_path env (e_recipient (q_item row))
       then [e_recipient (q_item row)] else []) \<and>
    x_outbox (snd (send cfg env row x)) = x_outbox x @
      (if sendable cfg env row x \<and> he_known env (e_recipient (q_item row)) \<and> ae_accepts env (x_fresh x)
       then on_air cfg env row x else [])"
  using send_queue [OF assms] send_network by blast

text \<open>C8: a row that was handed over is not sent again while its delivery timeout runs or the router
  still carries the message, whatever the row then says.\<close>

theorem no_double_send:
  assumes "x_outbox (snd (send cfg env row x)) \<noteq> x_outbox x"
    and "ce_now env' < ce_now env + delivery_timeout_sec (egress_cfg cfg) \<or>
      ae_holds env' (o_handle (last (x_outbox (snd (send cfg env row x)))))"
    and "q_id row' = q_id row"
  shows "x_outbox (snd (send cfg env' row' (snd (send cfg env row x)))) = x_outbox (snd (send cfg env row x))"
proof (cases rule: send_cases [of cfg env row x])
  case (quiet f)
  then show ?thesis
    using assms(1) by simp
next
  case (handed msg x1)
  let ?y = "snd (send cfg env row x)"
  have acc: "ae_accepts env (x_fresh x1)"
    using assms(1) handed(1,3) by (auto simp: hand_over_outbox split: if_splits)
  then have "x_inflight ?y (KIND_EGRESS, q_id row) = Some (deadline cfg env, x_fresh x1)"
    "o_handle (last (x_outbox ?y)) = x_fresh x1"
    using handed(1) by (simp_all add: hand_over_inflight hand_over_outbox)
  then have "busy cfg env' KIND_EGRESS (q_id row') ?y"
    using assms(2,3) by (auto simp: busy_iff deadline_def)
  then show ?thesis
    by (rule send_busy [THEN conjunct2, THEN conjunct1])
qed

definition sample_row :: "egress_item qrow" where
  "sample_row = \<lparr>q_id = 1, q_item = \<lparr>e_group = ''net'', e_recipient = bob, e_msg = [42]\<rparr>, q_attempts = 0,
     q_graces = 0, q_next = 0, q_created = 0\<rparr>"

definition due_row :: "egress_item qrow" where
  "due_row = sample_row\<lparr>q_next := 7300, q_created := 7300\<rparr>"

lemma sample_queue: "s_egress (x_store sample_sched) = \<lparr>q_seq = 1, q_rows = [due_row]\<rparr>"
  by (simp add: sample_sched_def x_store_def sample_hub_def store_and_fan_out_def recipients_def store_and_enqueue_def
      store_message_def has_message_def has_key_def sql_insert_def sql_ignore_def sample_defs empty_store_def
      empty_queue_def list_members_def list_adopted_def enqueue_egress_def queue_insert_ignore_def Let_def due_row_def
      fresh_row_def sample_row_def egress_key_def message_row_of_def)

text \<open>The witness is the delivery of the sample under a configuration that allows no attempt.\<close>

theorem send_outcome_witness:
  "queue_row (s_egress (x_store sample_sched)) 1 = Some due_row \<and>
   queue_row (s_egress (x_store (snd (send (default_config\<lparr>egress_cfg := default_egress\<lparr>max_attempts := 0\<rparr>\<rparr>) sample_air due_row sample_sched)))) 1 = None"
proof -
  have id: "q_id due_row = 1"
    by (simp add: due_row_def sample_row_def)
  then have row: "queue_row (s_egress (x_store sample_sched)) (q_id due_row) = Some due_row"
    by (simp add: sample_queue queue_row_def sql_lookup_def)
  have ok: "queue_ok (s_egress (x_store sample_sched))"
    by (simp add: sample_queue queue_ok_def keys_distinct_def id)
  have "\<not> carried sample_air 1 sample_sched"
    by (simp add: carried_def sample_sched_def)
  then show ?thesis
    using send_outcome [OF ok row, of "default_config\<lparr>egress_cfg := default_egress\<lparr>max_attempts := 0\<rparr>\<rparr>" sample_air 1] row
    by (simp add: id row_after_def)
qed

lemma send_hands_over:
  assumes "x_inflight x (KIND_EGRESS, q_id row) = None" and "get_message (e_msg (q_item row)) (x_store x) = Some r"
    and "q_attempts row < max_attempts (egress_cfg cfg)" and "destination_for (e_group (q_item row)) (ce_dests env) = Some d"
    and "he_known env (e_recipient (q_item row))" and "ae_accepts env (x_fresh x)"
    and "build_reflection cfg (hub_env.truncate env) r (e_recipient (q_item row)) (x_store x) = Some msg"
  shows "x_outbox (snd (send cfg env row x)) \<noteq> x_outbox x"
proof -
  have "in_flight cfg env KIND_EGRESS (q_id row) x = (False, x)" "x_fresh (upd_store f x) = x_fresh x" for f
    using assms(1) by (simp_all add: in_flight_def)
  then show ?thesis
    using assms(2-) by (simp add: send_def Let_def hand_over_outbox)
qed

lemma sample_sends: "x_outbox (snd (send default_config sample_air sample_row sample_sched)) \<noteq> x_outbox sample_sched"
proof (rule send_hands_over)
  have "\<not> has_message (m_hash sample_record) sample_store"
    by (simp add: has_message_def has_key_def sample_store_def empty_store_def)
  from store_and_fan_out_new(2) [OF sample_store_ok this]
  show "get_message (e_msg (q_item sample_row)) (x_store sample_sched) = Some sample_record"
    by (simp add: x_store_def sample_sched_def sample_record_def sample_row_def)
  have trunc: "hub_env.truncate sample_air = sample_env"
    by (simp add: sample_air_def net_env.defs hub_env.defs sample_env_def)
  have u: "destination_for ''net'' (ce_dests sample_env) = Some net_hash" "he_unpack sample_env [1] = Some (7200, [], [1], [])"
    by (simp_all add: sample_env_def sample_dests_def destination_for_def)
  show "build_reflection default_config (hub_env.truncate sample_air) sample_record (e_recipient (q_item sample_row))
      (x_store sample_sched) = Some (the (build_reflection default_config (hub_env.truncate sample_air) sample_record
      (e_recipient (q_item sample_row)) (x_store sample_sched)))"
    unfolding trunc using u by (simp add: build_reflection_def sample_record_def reflection_payload_def Let_def)
qed (simp_all add: sample_row_def sample_sched_def sample_air_def net_env.defs hub_env.defs sample_env_def
    sample_dests_def destination_for_def default_config_def default_egress_def)

theorem no_double_send_witness:
  "x_outbox (snd (send default_config (sample_air\<lparr>ce_now := 7301\<rparr>) sample_row
     (snd (send default_config sample_air sample_row sample_sched)))) =
   x_outbox (snd (send default_config sample_air sample_row sample_sched))"
proof (rule no_double_send [OF sample_sends])
  have "ce_now sample_air = 7300"
    by (simp add: sample_air_def net_env.defs hub_env.defs sample_env_def)
  then show "ce_now (sample_air\<lparr>ce_now := 7301\<rparr>) < ce_now sample_air + delivery_timeout_sec (egress_cfg default_config) \<or>
      ae_holds (sample_air\<lparr>ce_now := 7301\<rparr>) (o_handle (last (x_outbox (snd (send default_config sample_air sample_row sample_sched)))))"
    by (simp add: default_config_def default_egress_def)
qed simp

section \<open>Exceptions\<close>

lemma attempt_raised:
  assumes "attempt cfg env k recipient snd_row row x = (None, z)"
  shows "ae_fault env k (q_id row) \<noteq> None \<and> \<not> busy cfg env k (q_id row) x \<and>
    x_store z = x_store x \<and> x_outbox z = x_outbox x \<and> x_bucket z = x_bucket x \<and>
    (\<forall>e. e \<noteq> (k, q_id row) \<longrightarrow> x_inflight z e = x_inflight x e) \<and> x_inflight z (k, q_id row) = None"
proof -
  obtain b y where fl: "in_flight cfg env k (q_id row) x = (b, y)"
    by (cases "in_flight cfg env k (q_id row) x")
  have f: "\<not> b" "ae_fault env k (q_id row) \<noteq> None" "z = y \<or> z = ask_path env (recipient (q_item row)) y"
    using assms by (auto simp: attempt_def fl Let_def map_prod_def case_prod_beta split: bool.splits option.splits if_splits)
  have "x_store y = x_store x" "x_outbox y = x_outbox x" "x_bucket y = x_bucket x"
    using in_flight_fields [of cfg env k "q_id row" x] by (simp_all add: fl)
  moreover have "x_inflight y (k, q_id row) = None \<and> (\<forall>e. e \<noteq> (k, q_id row) \<longrightarrow> x_inflight y e = x_inflight x e)"
    using fl f(1) by (auto simp: in_flight_def split: option.splits if_splits)
  ultimately show ?thesis
    using f by (auto simp: busy_def fl)
qed

text \<open>C13: an exception in a paced queue comes from outside the hub, and it stops the queue at the row it
  happened at: the rows before it were sent as if nothing had happened, nothing went on air for this row, it
  is not in flight, and the database is as the last completed send left it, so the row and those after it stay
  due. What it costs is one token and, in the loop of the scheduler, five seconds.\<close>

theorem raise_stops_cleanly:
  assumes "drain_paced (attempt cfg env k recipient snd_row) env k rows x = (RAISES, z)"
  shows "\<exists>us row vs y. rows = us @ row # vs \<and> ae_fault env k (q_id row) \<noteq> None \<and>
    drain_paced (attempt cfg env k recipient snd_row) env k us x = (THROUGH, y) \<and>
    x_store z = x_store y \<and> x_outbox z = x_outbox y \<and> x_inflight z (k, q_id row) = None \<and>
    consume 1 (ce_now env) (x_bucket y) = (True, x_bucket z)"
  using assms
proof (induction rows arbitrary: x)
  case (Cons row rows)
  define b where "b = snd (consume 1 (ce_now env) (x_bucket x))"
  obtain r y where y: "attempt cfg env k recipient snd_row row (x\<lparr>x_bucket := b\<rparr>) = (r, y)"
    by (cases "attempt cfg env k recipient snd_row row (x\<lparr>x_bucket := b\<rparr>)")
  have go: "\<not> ae_stopped env k (q_id row)" "fst (consume 1 (ce_now env) (x_bucket x))"
    using Cons.prems by (auto simp: case_prod_beta Let_def split: if_splits)
  show ?case
  proof (cases r)
    case None
    then have "z = y"
      using Cons.prems go y by (simp add: case_prod_beta Let_def b_def)
    moreover note attempt_raised [OF y [unfolded None]]
    ultimately show ?thesis
      using go by (intro exI [of _ "[]"] exI [of _ row] exI [of _ rows] exI [of _ x])
        (simp add: b_def prod_eq_iff x_store_def)
  next
    case (Some aired)
    define x3 where "x3 = (if aired then y else y\<lparr>x_bucket := refund 1 (x_bucket y)\<rparr>)"
    have step: "drain_paced (attempt cfg env k recipient snd_row) env k (row # rs) x =
        drain_paced (attempt cfg env k recipient snd_row) env k rs x3" for rs
      using go y Some by (simp add: case_prod_beta Let_def b_def x3_def)
    with Cons.prems Cons.IH [of x3] obtain us row1 vs y1 where "rows = us @ row1 # vs"
      "ae_fault env k (q_id row1) \<noteq> None" "drain_paced (attempt cfg env k recipient snd_row) env k us x3 = (THROUGH, y1)"
      "x_store z = x_store y1" "x_outbox z = x_outbox y1" "x_inflight z (k, q_id row1) = None"
      "consume 1 (ce_now env) (x_bucket y1) = (True, x_bucket z)"
      by auto
    then show ?thesis
      using step by (intro exI [of _ "row # us"] exI [of _ row1] exI [of _ vs] exI [of _ y1]) simp
  qed
qed simp

text \<open>The witness is a queue of one row whose send raises.\<close>

theorem raise_stops_cleanly_witness:
  "\<exists>z. drain_paced (attempt default_config (sample_air\<lparr>ae_fault := \<lambda>k i. Some FAILS\<rparr>) KIND_EGRESS e_recipient
       (send default_config (sample_air\<lparr>ae_fault := \<lambda>k i. Some FAILS\<rparr>))) (sample_air\<lparr>ae_fault := \<lambda>k i. Some FAILS\<rparr>)
       KIND_EGRESS [sample_row] sample_sched = (RAISES, z) \<and> x_store z = x_store sample_sched"
proof -
  let ?env = "sample_air\<lparr>ae_fault := \<lambda>k i. Some FAILS\<rparr>"
  have "ce_now sample_air = 7300" "\<not> ae_stopped sample_air k i" for k i
    by (simp_all add: sample_air_def net_env.defs hub_env.defs sample_env_def)
  then obtain z where z: "drain_paced (attempt default_config ?env KIND_EGRESS e_recipient (send default_config ?env)) ?env
      KIND_EGRESS [sample_row] sample_sched = (RAISES, z)"
    by (simp add: attempt_def in_flight_def sample_sched_def consume_def new_bucket_def Let_def split: prod.split)
  from raise_stops_cleanly [OF z] obtain us row vs y where "[sample_row] = us @ row # vs"
    "drain_paced (attempt default_config ?env KIND_EGRESS e_recipient (send default_config ?env)) ?env KIND_EGRESS us sample_sched = (THROUGH, y)"
    "x_store z = x_store y"
    by blast
  then show ?thesis
    using z by (cases us) auto
qed

text \<open>C14: a held message that makes \<open>handle_inbound\<close> raise, from a sender who may post, makes the
  tick raise once the sender's identity is known, and every other held message is forgotten, also those
  that only wait for an identity: they were taken out of the list before and are put back only at the end.
  Nothing is stored and nothing is sent in that turn.\<close>

theorem malformed_forgets_held:
  assumes "h_unverified (x_hub x) = xs @ y # ys"
    and "\<forall>z \<in> set xs. hd_deadline z \<le> ce_now env \<or> \<not> he_known env (hd_source z)"
    and "ce_now env < hd_deadline y" and "he_known env (hd_source y)"
    and "accepted cfg (hub_env.truncate env) (he_lxm env (hd_packed y)) (x_hub x) gid g"
    and "\<not> he_packable env (he_lxm env (hd_packed y))"
  shows "fst (tick cfg env x) = RAISES \<and> h_unverified (x_hub (snd (tick cfg env x))) = [] \<and>
    s_messages (x_store (snd (tick cfg env x))) = s_messages (x_store x) \<and> x_outbox (snd (tick cfg env x)) = x_outbox x \<and>
    fst (egress_turn cfg env x) = 5"
proof -
  let ?e = "hub_env.truncate env" and ?h = "(x_hub x)\<lparr>h_unverified := []\<rparr>" and ?m = "he_lxm env (hd_packed y)"
  have t: "ce_now ?e = ce_now env" "he_known ?e = he_known env" "he_lxm ?e = he_lxm env" "he_packable ?e = he_packable env"
    by (simp_all add: hub_env.defs)
  obtain rq where rq: "snd (retry_held cfg ?e (xs @ y # ys) ?h) = snd (retry_held cfg ?e (y # ys) (?h\<lparr>h_requests := rq\<rparr>))"
    "fst (retry_held cfg ?e (xs @ y # ys) ?h) = None \<longleftrightarrow> fst (retry_held cfg ?e (y # ys) (?h\<lparr>h_requests := rq\<rparr>)) = None"
    using retry_held_idle [of xs ?e cfg "y # ys" ?h] assms(2) t by auto
  have "accepted cfg ?e ?m (?h\<lparr>h_requests := rq\<rparr>) gid g" and valid: "x_valid ?m"
    using assms(5) by (simp_all add: accepted_def)
  note inb = accepted_inbound [OF this(1)]
  let ?h1 = "?h\<lparr>h_requests := rq, h_store := snd (authorise (ce_now env) g (x_source ?m) (h_store (x_hub x)))\<rparr>"
  have "retry_held cfg ?e (y # ys) (?h\<lparr>h_requests := rq\<rparr>) = (None, ?h1)"
    using assms(3,4,6) valid inb by (simp add: t Let_def)
  then have "retry_unverified cfg ?e (x_hub x) = (False, ?h1)"
    using rq assms(1) by (cases "retry_held cfg ?e (xs @ y # ys) ?h") (simp add: retry_unverified_def)
  then have "tick cfg env x = (RAISES, x\<lparr>x_hub := ?h1\<rparr>)"
    by (simp add: tick_def retry_all_def)
  then show ?thesis
    by (simp add: egress_turn_def x_store_def)
qed

text \<open>The witness holds one message of somebody still unknown and a malformed one of Alice, who is known by now.\<close>

theorem malformed_forgets_held_witness:
  "\<exists>x cfg env. length (h_unverified (x_hub x)) = 2 \<and> h_unverified (x_hub (snd (tick cfg env x))) = [] \<and>
     fst (egress_turn cfg env x) = 5"
proof -
  define env where "env = sample_air\<lparr>he_packable := \<lambda>m. False, he_known := \<lambda>u. u = alice, he_lxm := \<lambda>p. sample_lxm\<rparr>"
  define waiting where "waiting = \<lparr>hd_packed = [1], hd_source = bob, hd_deadline = 9000, hd_next = 9000\<rparr>"
  define malformed where "malformed = \<lparr>hd_packed = [2], hd_source = alice, hd_deadline = 9000, hd_next = 9000\<rparr>"
  define x where "x = sample_sched\<lparr>x_hub := sample_hub\<lparr>h_unverified := [waiting, malformed]\<rparr>\<rparr>"
  have env: "ce_now env = 7300" "hub_env.truncate env = sample_env\<lparr>he_packable := \<lambda>m. False, he_known := \<lambda>u. u = alice, he_lxm := \<lambda>p. sample_lxm\<rparr>"
    by (simp_all add: env_def sample_air_def net_env.defs hub_env.defs sample_env_def)
  have "accepted default_config (hub_env.truncate env) sample_lxm (x_hub x) ''net'' sample_group"
    unfolding env(2) by (simp add: accepted_def x_def sample_defs empty_store_def group_for_hash_def get_group_def sql_lookup_def
        authorise_def get_role_def member_key_def)
  then have "h_unverified (x_hub (snd (tick default_config env x))) = [] \<and> fst (egress_turn default_config env x) = 5"
    using malformed_forgets_held [of x "[waiting]" malformed "[]" env default_config "''net''" sample_group]
    by (simp add: env(1)) (simp add: x_def env_def waiting_def malformed_def)
  moreover have "length (h_unverified (x_hub x)) = 2"
    by (simp add: x_def)
  ultimately show ?thesis
    by blast
qed

end
