(* ===== verification/Egress_Interleaving.thy ===== *)
theory Egress_Interleaving
  imports Egress_Properties
begin

text \<open>
  The scheduler cut between the rows of its batch. A tick reads the due rows first and sends them one by
  one, while callbacks of the router and all other threads go on: what it sends is what it has read.
\<close>

section \<open>Runs\<close>

text \<open>A state and the rows read and not yet handled. \<open>elsewhere\<close> is everything but the sending of a row:
  callbacks, the other three queues, the bucket, and what the rest of the hub does to the queue.\<close>

inductive cut_run :: "hub_config \<Rightarrow> sched \<Rightarrow> sched \<times> egress_item qrow list \<Rightarrow> bool" for cfg x0 where
  start: "cut_run cfg x0 (x0, [])"
| fetched: "cut_run cfg x0 (x, []) \<Longrightarrow> cut_run cfg x0 (x, due_egress n t (x_store x))"
| returned: "cut_run cfg x0 (x, rows) \<Longrightarrow> cut_run cfg x0 (x, [])"
| handled: "cut_run cfg x0 (x, row # rows) \<Longrightarrow>
    cut_run cfg x0 (snd (attempt cfg env KIND_EGRESS e_recipient (send cfg env) row x), rows)"
| elsewhere: "cut_run cfg x0 (x, rows) \<Longrightarrow> grown (s_egress (x_store x)) (s_egress (x_store y)) \<Longrightarrow>
    (\<And>i. sent_for i y = sent_for i x) \<Longrightarrow> cut_run cfg x0 (y, rows)"

inductive_cases cut_runE: "cut_run cfg x0 (x, rows)"

text \<open>A whole tick is such a run, and so is every run of the scheduler.\<close>

lemma cut_same: "cut_run cfg x0 (x, rows) \<Longrightarrow> same_deliveries x y \<Longrightarrow> cut_run cfg x0 (y, rows)"
  by (rule elsewhere) (simp_all add: same_deliveries_def)

lemma cut_delivered: "cut_run cfg x0 (x, rows) \<Longrightarrow> cut_run cfg x0 (delivered k i x, rows)"
proof (rule elsewhere)
  have "x_store (release_row k i x) = x_store x"
    by (simp add: release_row_def x_store_def)
  then show "grown (s_egress (x_store x)) (s_egress (x_store (delivered k i x)))"
    by (cases k) (simp_all add: delivered_def complete_row_def complete_egress_def complete_notice_def
        complete_control_def complete_user_def grown_complete)
qed (simp_all add: sent_for_def delivered_def release_row_def)

lemma cut_drain:
  "cut_run cfg x0 (x, rows) \<Longrightarrow>
   cut_run cfg x0 (snd (drain_paced (attempt cfg env KIND_EGRESS e_recipient (send cfg env)) env k rows x), [])"
  by (rule drain_paced_keeps [where I = "\<lambda>rs y. cut_run cfg x0 (y, rs)"])
    (auto intro: handled returned cut_same simp: same_deliveries_def)

lemma cut_tick:
  assumes "cut_run cfg x0 (x, [])"
  shows "cut_run cfg x0 (snd (tick cfg env x), [])"
proof -
  let ?l = "batch_size (egress_cfg cfg)" and ?now = "ce_now env"
  have queues: "cut_run cfg x0 (snd (drain_queues cfg env replied y), [])" if y: "cut_run cfg x0 (y, [])" for replied y
  proof -
    define y1 where "y1 = snd (drain_paced (attempt cfg env KIND_USER u_recipient (send_user cfg env)) env KIND_USER
      (due_user ?l ?now (x_store y)) y)"
    define y2 where "y2 = snd (drain_paced (attempt cfg env KIND_NOTICE n_recipient (send_notice cfg env)) env KIND_NOTICE
      (due_notices ?l ?now (x_store y)) y1)"
    define y3 where "y3 = snd (drain_paced (attempt cfg env KIND_EGRESS e_recipient (send cfg env)) env KIND_EGRESS
      (due_egress ?l ?now (x_store y)) y2)"
    have s1: "same_deliveries y y1"
      unfolding y1_def by (rule drain_paced_others) simp
    have s2: "same_deliveries y1 y2"
      unfolding y2_def by (rule drain_paced_others) simp
    have c1: "cut_run cfg x0 (y1, [])" "cut_run cfg x0 (y2, [])"
      using cut_same [OF y s1] cut_same [OF cut_same [OF y s1] s2] by simp_all
    have "cut_run cfg x0 (y1, due_egress ?l ?now (x_store y))"
      using cut_same [OF fetched [OF y] s1] .
    then have "cut_run cfg x0 (y2, due_egress ?l ?now (x_store y))"
      using cut_same s2 by blast
    then have "cut_run cfg x0 (y3, [])"
      unfolding y3_def by (rule cut_drain)
    with y c1 drain_queues_end [OF y1_def y2_def y3_def, of replied] show ?thesis
      by auto
  qed
  have r: "cut_run cfg x0 (snd (retry_all cfg env x), [])"
    using assms by (rule elsewhere) (simp_all add: retry_all_effect sent_for_def)
  have "cut_run cfg x0 (snd (drain_control cfg env rows (snd (retry_all cfg env x))), [])" for rows
    using cut_same [OF r drain_control_others] .
  then show ?thesis
    using r queues by (simp add: tick_def Let_def case_prod_beta split: progress.split)
qed

lemma cut_scheduled: "scheduled cfg x0 x \<Longrightarrow> cut_run cfg x0 (x, [])"
proof (induction rule: scheduled.induct)
  case start
  show ?case by (rule cut_run.start)
next
  case (ticked x env)
  then show ?case by (intro cut_tick) simp
next
  case (callback_ok x k i)
  then show ?case by (intro cut_delivered) simp
next
  case (callback_failed x k i)
  show ?case
    by (rule cut_same [OF callback_failed.IH]) (simp add: delivery_failed_def same_deliveries_def sent_for_def release_row_def x_store_def)
next
  case (elsewhere x h c d)
  show ?case
    by (rule cut_run.elsewhere [OF elsewhere.IH]) (use elsewhere.hyps in \<open>simp_all add: sent_for_def x_store_def\<close>)
qed

section \<open>How often a row leaves\<close>

definition read_rows_ok :: "sched \<Rightarrow> egress_item qrow list \<Rightarrow> bool" where
  "read_rows_ok x rows \<longleftrightarrow> distinct (map q_id rows) \<and>
     (\<forall>r \<in> set rows. sent_for (q_id r) x \<le> q_attempts r \<and> q_id r \<le> q_seq (s_egress (x_store x)))"

lemma send_others:
  assumes "j \<noteq> q_id row"
  shows "sent_for j (snd (send cfg env row x)) = sent_for j x"
  by (cases rule: send_cases [of cfg env row x]) (use assms in \<open>auto simp: sent_for_def hand_over_outbox\<close>)

lemma send_seq: "q_seq (s_egress (x_store (snd (send cfg env row x)))) = q_seq (s_egress (x_store x))"
  by (cases rule: send_cases [of cfg env row x])
    (auto simp: complete_egress_def defer_egress_def queue_complete_def queue_defer_def)

lemma cut_run_within:
  "cut_run cfg x0 st \<Longrightarrow> within_attempts cfg x0 \<Longrightarrow> within_attempts cfg (fst st) \<and> read_rows_ok (fst st) (snd st)"
proof (induction rule: cut_run.induct)
  case (fetched x n t)
  then have w: "within_attempts cfg x"
    by simp
  then have "queue_ok (s_egress (x_store x))"
    by (simp add: within_attempts_def)
  then have "distinct (map q_id (due_egress n t (x_store x)))" "set (due_egress n t (x_store x)) \<subseteq> set (q_rows (s_egress (x_store x)))"
    unfolding due_egress_def by (rule queue_due_distinct) (use queue_due_subset in blast)
  then show ?case
    using w by (auto simp: read_rows_ok_def within_attempts_def queue_ok_def list_all_iff)
next
  case (handled x row rows env)
  then have w: "within_attempts cfg x" and r: "read_rows_ok x (row # rows)"
    by simp_all
  have "within_attempts cfg (snd (send cfg env row x))"
    using send_within_read [OF w] r by (simp add: read_rows_ok_def)
  moreover have "q_id z \<noteq> q_id row" if "z \<in> set rows" for z
    using r imageI [OF that, of q_id] by (metis (no_types) distinct.simps(2) list.map(2) list.set_map read_rows_ok_def)
  then have "read_rows_ok (snd (send cfg env row x)) rows"
    using r by (simp add: read_rows_ok_def send_seq send_others)
  moreover have "read_rows_ok x rows"
    using r by (simp add: read_rows_ok_def)
  moreover have "within_attempts cfg y \<and> read_rows_ok y rows" if "x_store y = x_store x" "x_outbox y = x_outbox x" for y
    using that within_same [OF w, of y] \<open>read_rows_ok x rows\<close> by (simp add: read_rows_ok_def sent_for_def)
  ultimately show ?case
    using attempt_keeps [where P = "\<lambda>y. within_attempts cfg y \<and> read_rows_ok y rows" and snd_row = "send cfg env"] by simp
next
  case (elsewhere x rows y)
  then show ?case
    using within_grown [of cfg x y] by (auto simp: read_rows_ok_def grown_def)
qed (simp_all add: read_rows_ok_def)

text \<open>C10: the bound on the attempts of a delivery needs no tick to be undisturbed: whatever callbacks, other
  threads and commands do between the rows of a batch, a queued delivery is handed to the router at most
  \<open>max_attempts\<close> times.\<close>

theorem interleaved_attempts:
  assumes "cut_run cfg x0 (x, rows)" and "queue_ok (s_egress (x_store x0))" and "x_outbox x0 = []"
  shows "sent_for i x \<le> max_attempts (egress_cfg cfg)"
proof -
  have "within_attempts cfg x0"
    using assms(2,3) by (simp add: within_attempts_def sent_for_def)
  with cut_run_within [OF assms(1)] show ?thesis
    by (simp add: within_attempts_def)
qed

section \<open>A row that was read before it was delivered\<close>

text \<open>C11: a delivery that is confirmed while its row waits in a batch is sent again: the callback removes the row
  and its entry in the table of what is in flight, but the batch still holds the row as it was read, and
  nothing asks the queue again before the message is handed over.\<close>

theorem delivered_sent_again:
  assumes "cut_run cfg x0 (x, row # rows)" and "ae_fault env KIND_EGRESS (q_id row) = None"
    and "get_message (e_msg (q_item row)) (x_store x) = Some r" and "q_attempts row < max_attempts (egress_cfg cfg)"
    and "destination_for (e_group (q_item row)) (ce_dests env) = Some d" and "he_known env (e_recipient (q_item row))"
    and "ae_accepts env (x_fresh x)"
    and "build_reflection cfg (hub_env.truncate env) r (e_recipient (q_item row)) (x_store x) = Some msg"
  shows "\<exists>z. cut_run cfg x0 (z, rows) \<and> x_outbox z \<noteq> x_outbox x \<and> sent_for (q_id row) z = Suc (sent_for (q_id row) x) \<and>
    z = snd (send cfg env row (delivered KIND_EGRESS (q_id row) x)) \<and> queue_row (s_egress (x_store z)) (q_id row) = None"
proof -
  let ?y = "delivered KIND_EGRESS (q_id row) x"
  let ?z = "snd (send cfg env row ?y)"
  have y: "x_inflight ?y (KIND_EGRESS, q_id row) = None" "x_fresh ?y = x_fresh x" "x_outbox ?y = x_outbox x"
    "x_store ?y = complete_egress (q_id row) (x_store x)"
    by (simp_all add: delivered_def release_row_def complete_row_def) (simp add: x_store_def)
  have "display_name_for u (s\<lparr>s_egress := q\<rparr>) = display_name_for u s" for u q and s :: store
    by (simp add: display_name_for_def persona_for_identity_def get_persona_identity_def get_persona_def cong: option.case_cong if_cong)
  then have "reflection_payload cfg e r h (s\<lparr>s_egress := q\<rparr>) = reflection_payload cfg e r h s" for e h q s
    by (simp add: reflection_payload_def split: option.split prod.split)
  then have "get_message (e_msg (q_item row)) (x_store ?y) = Some r"
    "build_reflection cfg (hub_env.truncate env) r (e_recipient (q_item row)) (x_store ?y) = Some msg"
    using assms(3,8) by (simp_all add: y complete_egress_def get_message_def build_reflection_def cong: option.case_cong)
  from send_hands_over [OF y(1) this(1) assms(4-6) _ this(2)] have out: "x_outbox ?z \<noteq> x_outbox ?y"
    using assms(7) y(2) by simp
  have gone: "queue_row (queue_complete i q) i = None" for i and q :: "egress_item queue"
    by (auto simp: queue_row_def queue_complete_def sql_lookup_None has_key_def sql_delete_def)
  have sent: "sent_for (q_id row) ?z = Suc (sent_for (q_id row) x) \<and> queue_row (s_egress (x_store ?z)) (q_id row) = None"
  proof (cases rule: send_cases [of cfg env row ?y])
    case (quiet f)
    then show ?thesis using out by simp
  next
    case (handed m x1)
    have acc: "ae_accepts env (x_fresh x1)"
      using out handed(1,3) by (auto simp: hand_over_outbox split: if_splits)
    then show ?thesis
      using handed(1,3,5) y gone by (simp add: sent_for_def hand_over_outbox complete_egress_def defer_egress_def)
  qed
  have "cut_run cfg x0 (snd (attempt cfg env KIND_EGRESS e_recipient (send cfg env) row ?y), rows)"
    by (rule handled [OF cut_delivered [OF assms(1)]])
  moreover have "snd (attempt cfg env KIND_EGRESS e_recipient (send cfg env) row ?y) = ?z"
    using assms(2) by (simp add: attempt_def Let_def case_prod_beta split: bool.split)
  ultimately have "cut_run cfg x0 (?z, rows)"
    by simp
  with out sent show ?thesis
    by (metis y(3))
qed

section \<open>The sample\<close>

definition tried_row :: "egress_item qrow" where
  "tried_row = due_row\<lparr>q_attempts := 1, q_next := 7360\<rparr>"

lemma sample_message:
  "get_message [42] (x_store sample_sched) = Some sample_record"
  "\<exists>msg. build_reflection default_config (hub_env.truncate (sample_air\<lparr>ce_now := t\<rparr>)) sample_record bob s = Some msg"
proof -
  have "\<not> has_message (m_hash sample_record) sample_store"
    by (simp add: has_message_def has_key_def sample_store_def empty_store_def)
  from store_and_fan_out_new(2) [OF sample_store_ok this]
  show "get_message [42] (x_store sample_sched) = Some sample_record"
    by (simp add: x_store_def sample_sched_def sample_record_def)
  have e: "hub_env.truncate (sample_air\<lparr>ce_now := t\<rparr>) = sample_env\<lparr>ce_now := t\<rparr>"
    by (simp add: sample_air_def net_env.defs hub_env.defs sample_env_def)
  show "\<exists>msg. build_reflection default_config (hub_env.truncate (sample_air\<lparr>ce_now := t\<rparr>)) sample_record bob s = Some msg"
    unfolding e by (simp add: build_reflection_def sample_record_def reflection_payload_def Let_def sample_env_def
        sample_dests_def destination_for_def)
qed

lemmas sample_air_fields = sample_air_def net_env.defs hub_env.defs sample_env_def sample_dests_def destination_for_def

lemma tried:
  defines "x1 \<equiv> snd (send default_config sample_air due_row sample_sched)"
  shows "due_egress 8 7300 (x_store sample_sched) = [due_row]" "due_egress 8 8000 (x_store x1) = [tried_row]"
    "get_message [42] (x_store x1) = Some sample_record" "sent_for 1 x1 = 1"
proof -
  show "due_egress 8 7300 (x_store sample_sched) = [due_row]"
    by (simp add: due_egress_def queue_due_def sample_queue due_row_def)
  have row: "q_id due_row = 1" "q_item due_row = \<lparr>e_group = ''net'', e_recipient = bob, e_msg = [42]\<rparr>" "q_attempts due_row = 0"
    by (simp_all add: due_row_def sample_row_def)
  have air: "sample_air\<lparr>ce_now := 7300\<rparr> = sample_air"
    by (simp add: sample_air_fields)
  obtain msg where "build_reflection default_config (hub_env.truncate sample_air) sample_record bob (x_store sample_sched) = Some msg"
    using sample_message(2) [of 7300] unfolding air by blast
  with sample_message(1) have out: "x_outbox x1 \<noteq> x_outbox sample_sched"
    unfolding x1_def by (intro send_hands_over)
      (auto simp: row sample_air_fields sample_sched_def default_config_def default_egress_def)
  from send_handed [of default_config sample_air due_row sample_sched] out
  have store: "x_store x1 = defer_egress 1 60 True 7300 (x_store sample_sched)" and "sent_for 1 x1 = Suc (sent_for 1 sample_sched)"
    unfolding x1_def row by (auto simp: sent_for_def backoff_def default_config_def default_egress_def sample_air_fields)
  then show "sent_for 1 x1 = 1"
    by (simp add: sent_for_def sample_sched_def)
  show "due_egress 8 8000 (x_store x1) = [tried_row]"
    by (simp add: store defer_egress_def queue_defer_def sample_queue due_egress_def queue_due_def tried_row_def
        due_row_def sample_row_def defer_row_def sql_update_def)
  show "get_message [42] (x_store x1) = Some sample_record"
    using sample_message(1) by (simp add: store defer_egress_def get_message_def)
qed

theorem interleaved_attempts_witness:
  "sent_for 1 (snd (send default_config sample_air due_row sample_sched)) \<le> max_attempts (egress_cfg default_config)"
proof -
  let ?x1 = "snd (attempt default_config sample_air KIND_EGRESS e_recipient (send default_config sample_air) due_row sample_sched)"
  have "cut_run default_config sample_sched (?x1, [])"
    using handled [OF fetched [OF cut_run.start, of default_config sample_sched 8 7300, unfolded tried(1)]] .
  moreover have "queue_ok (s_egress (x_store sample_sched))" "x_outbox sample_sched = []"
    by (simp_all add: sample_queue queue_ok_def keys_distinct_def due_row_def sample_row_def) (simp add: sample_sched_def)
  moreover have "?x1 = snd (send default_config sample_air due_row sample_sched)"
    by (simp add: attempt_def sample_air_fields Let_def case_prod_beta split: bool.split)
  ultimately show ?thesis
    using interleaved_attempts [of default_config sample_sched] by metis
qed

text \<open>The witness: the one delivery of the sample is handed over, is due again while the router carries it, and is
  confirmed just after the second batch was read.\<close>

theorem delivered_sent_again_witness:
  "\<exists>z. cut_run default_config sample_sched (z, []) \<and> sent_for 1 z = 2 \<and>
     x_store z = x_store (snd (send default_config (sample_air\<lparr>ce_now := 8000\<rparr>) tried_row
       (delivered KIND_EGRESS 1 (snd (send default_config sample_air due_row sample_sched)))))"
proof -
  let ?x1 = "snd (send default_config sample_air due_row sample_sched)"
  have "?x1 = snd (attempt default_config sample_air KIND_EGRESS e_recipient (send default_config sample_air) due_row sample_sched)"
    by (simp add: attempt_def sample_air_fields Let_def case_prod_beta split: bool.split)
  then have "cut_run default_config sample_sched (?x1, [])"
    using handled [OF fetched [OF cut_run.start, of default_config sample_sched 8 7300, unfolded tried(1)]] by simp
  from fetched [OF this, of 8 8000] have c: "cut_run default_config sample_sched (?x1, [tried_row])"
    by (simp add: tried(2))
  have row: "q_id tried_row = 1" "q_item tried_row = \<lparr>e_group = ''net'', e_recipient = bob, e_msg = [42]\<rparr>" "q_attempts tried_row = 1"
    by (simp_all add: tried_row_def due_row_def sample_row_def)
  obtain msg where msg: "build_reflection default_config (hub_env.truncate (sample_air\<lparr>ce_now := 8000\<rparr>)) sample_record bob
      (x_store ?x1) = Some msg"
    using sample_message(2) by blast
  have fields: "ae_fault sample_air k i = None" "ae_accepts sample_air n" "he_known sample_air h"
      "destination_for ''net'' (ce_dests sample_air) = Some net_hash" for k i n h
    by (simp_all add: sample_air_fields)
  obtain z where z: "cut_run default_config sample_sched (z, [])" "sent_for 1 z = Suc (sent_for 1 ?x1)"
      "z = snd (send default_config (sample_air\<lparr>ce_now := 8000\<rparr>) tried_row (delivered KIND_EGRESS 1 ?x1))"
    using delivered_sent_again [OF c, of "sample_air\<lparr>ce_now := 8000\<rparr>" sample_record net_hash msg] msg tried(3)
    by (auto simp: row fields default_config_def default_egress_def)
  have "sent_for 1 z = 2"
    using z(2) tried(4) by simp
  with z(1,3) show ?thesis
    by (intro exI [of _ z]) simp
qed

end
