(* ===== verification/Persona_Properties.thy ===== *)
theory Persona_Properties
  imports Persona_Facts Sample
begin

text \<open>
  Properties of the persona registry: who holds a username, what a link code gives and how often,
  that a persona keeps a device, and how two hubs agree on devices and names.
\<close>

section \<open>Usernames\<close>

text \<open>A claim that succeeds makes the caller the one holder of that username, whatever its case,
  and the username is 2 to 32 characters of the allowed kind; a claim that fails changes nothing.\<close>

theorem claim_exclusive:
  assumes "store_ok s"
  shows "case claim new_id now u name s of
      (Inl e, s') \<Rightarrow> s' = s
    | (Inr p, s') \<Rightarrow> store_ok s' \<and> persona_for_identity u s' = Some p \<and> p_name p = Some (strip name) \<and>
        2 \<le> length (strip name) \<and> length (strip name) \<le> 32 \<and> name_pattern (strip name) \<and>
        {v. \<exists>n. display_name_for v s' = Some n \<and> map casefold_char n = map casefold_char (strip name)} =
          {v. persona_for_identity v s' = Some p}"
proof -
  obtain res s' where c: "claim new_id now u name s = (res, s')"
    by (cases "claim new_id now u name s")
  show ?thesis
  proof (cases res)
    case (Inl e)
    then show ?thesis
      using c claim_failed by simp
  next
    case (Inr p)
    note ok = c [unfolded Inr]
    obtain w where "validate_name name = Inr w"
      using ok by (cases "validate_name name") (auto simp: claim_def)
    then have "2 \<le> length (strip name) \<and> length (strip name) \<le> 32 \<and> name_pattern (strip name)"
      by (auto simp: validate_name_def Let_def NAME_MIN_LENGTH_def NAME_MAX_LENGTH_def split: if_splits)
    moreover have "store_ok s'"
      using store_ok_claim [OF assms, of new_id now u name] ok by simp
    moreover have "display_name_for v s' = Some (strip name)" if "persona_for_identity v s' = Some p" for v
      using that claim_lookup [OF ok] by (simp add: display_name_for_def)
    ultimately show ?thesis
      using c Inr claim_lookup [OF ok] claim_unique [OF ok assms] by auto
  qed
qed

lemma sample_claim:
  "\<exists>p s'. claim (replicate 16 9) 5 alice ''Alice'' sample_store = (Inr p, s')"
proof -
  have none: "persona_for_identity u sample_store = None" "persona_by_name n sample_store = None"
    "get_persona q sample_store = None" for u n q
    by (simp_all add: persona_for_identity_def get_persona_identity_def persona_by_name_def get_persona_def
        sample_store_def empty_store_def sql_lookup_def)
  have "validate_name ''Alice'' = Inr ''Alice''"
    by (simp add: validate_name_def strip_def strip_of_def is_space_def NAME_MIN_LENGTH_def NAME_MAX_LENGTH_def
        is_alnum_def)
  moreover have "\<exists>p s'. create_persona (replicate 16 9) (Some ''Alice'') alice None 5 sample_store = Inr (p, s')"
    by (simp add: create_persona_def Let_def sql_insert_def has_key_def name_taken_def sample_store_def empty_store_def)
  ultimately show ?thesis
    by (auto simp: claim_def none persona_for_def)
qed

theorem claim_exclusive_witness:
  "\<exists>p s'. claim (replicate 16 9) 5 alice ''Alice'' sample_store = (Inr p, s') \<and>
     {v. \<exists>n. display_name_for v s' = Some n \<and> map casefold_char n = map casefold_char (strip ''Alice'')} =
       {v. persona_for_identity v s' = Some p}"
  using claim_exclusive [OF sample_store_ok, where new_id = "replicate 16 9" and now = 5 and u = alice and name = "''Alice''"]
    sample_claim by auto

section \<open>Devices\<close>

definition linked_persona :: persona_record where
  "linked_persona = \<lparr>p_id = [7], p_name = Some ''Al'', p_claimed = 1, p_revision = 1, p_updated = 1\<rparr>"

definition linked_store :: store where
  "linked_store = sample_store\<lparr>s_personas := [linked_persona],
     s_identities := [\<lparr>i_user = alice, i_persona = [7], i_added = 1, i_removed = None\<rparr>,
       \<lparr>i_user = bob, i_persona = [7], i_added = 2, i_removed = None\<rparr>],
     s_links := [\<lparr>k_code = ''ABCDEF'', k_persona = [7], k_created = 1, k_expires = 900\<rparr>]\<rparr>"

lemma linked_ok: "store_ok linked_store"
  using sample_store_ok
  by (simp add: store_ok_def ok_defs linked_store_def linked_persona_def names_unique_def named_def keys_distinct_def
      sample_store_def empty_store_def)

text \<open>Unlinking takes exactly the target off the persona and leaves the persona at least one
  device.\<close>

theorem unlink_keeps_device:
  assumes "unlink now u target s = (Inr p, s')" and "store_ok s"
  shows "persona_devices (p_id p) False s' \<noteq> [] \<and> persona_for_identity target s' = None \<and>
    {v. get_persona_identity v s' \<noteq> get_persona_identity v s} \<subseteq> {target}"
  using unlink_leaves_device [OF assms] by auto

theorem unlink_keeps_device_witness:
  "\<exists>p s'. unlink 5 alice bob linked_store = (Inr p, s') \<and> persona_devices (p_id p) False s' \<noteq> []"
proof -
  obtain p s' where "unlink 5 alice bob linked_store = (Inr p, s')"
    by (auto simp: unlink_def persona_for_def persona_for_identity_def get_persona_identity_def get_persona_def
        identity_active_def persona_devices_def linked_store_def linked_persona_def sql_lookup_def)
  then show ?thesis
    using unlink_keeps_device [OF _ linked_ok] by blast
qed

section \<open>Agreement between hubs\<close>

text \<open>C30: two hubs that hold different device rows agree on every device once each has merged what the other
  holds, in whatever order and however often rows arrive: the rows they then have are of the same age, and they
  are the same row unless two different rows of the device have the same age; a second merge changes nothing. Rows
  of the same age are not reconciled: each hub keeps its own.\<close>

theorem devices_agree:
  assumes "store_ok s" and "store_ok t" and "set rows \<union> set (s_identities s) = set rows' \<union> set (s_identities t)"
    and "\<forall>r \<in> set rows. get_persona (i_persona r) s \<noteq> None" and "\<forall>r \<in> set rows'. get_persona (i_persona r) t \<noteq> None"
  shows "map_option identity_version (get_persona_identity u (merge_identities rows s)) =
      map_option identity_version (get_persona_identity u (merge_identities rows' t)) \<and>
    (inj_on identity_version {r \<in> set rows \<union> set (s_identities s). i_user r = u} \<longrightarrow>
      get_persona_identity u (merge_identities rows s) = get_persona_identity u (merge_identities rows' t)) \<and>
    get_persona_identity u (merge_identities rows (merge_identities rows s)) = get_persona_identity u (merge_identities rows s) \<and>
    (\<forall>x. get_persona_identity u s = Some x \<and> (\<forall>r \<in> set rows. i_user r = u \<longrightarrow> identity_version r \<le> identity_version x) \<longrightarrow>
      get_persona_identity u (merge_identities rows s) = Some x)"
proof -
  have ok: "personas_ok s" "personas_ok t"
    using assms(1,2) by (simp_all add: store_ok_def)
  have held: "set_option (get_persona_identity u z) = {r \<in> set (s_identities z). i_user r = u}" if "personas_ok z" for z
    using get_persona_identity_iff [OF that, of u] by auto
  have "devices.seen u rows s = {r \<in> set rows \<union> set (s_identities s). i_user r = u}"
    "devices.seen u rows' t = {r \<in> set rows' \<union> set (s_identities t). i_user r = u}"
    unfolding devices.seen_def held [OF ok(1)] held [OF ok(2)] using assms(4,5) by blast+
  then have "devices.seen u rows s = devices.seen u rows' t" "devices.seen u rows s = {r \<in> set rows \<union> set (s_identities s). i_user r = u}"
    using assms(3) by simp_all
  then show ?thesis
    using devices.replicas_agree [of u rows s rows' t] devices.absorb_all_idem [of u rows s] devices.tie_keeps_own [of u s _ rows]
    unfolding merge_identities_absorb by simp
qed

definition peer_store :: store where
  "peer_store = linked_store\<lparr>s_identities := [\<lparr>i_user = bob, i_persona = [7], i_added = 2, i_removed = Some 4\<rparr>,
     \<lparr>i_user = mallory, i_persona = [7], i_added = 3, i_removed = None\<rparr>]\<rparr>"

text \<open>The witness is a hub where bob's device is linked and one where it was unlinked later, which exchange
  what they hold.\<close>

theorem devices_agree_witness:
  "get_persona_identity bob (merge_identities (snd (snapshot peer_store)) linked_store) =
   get_persona_identity bob (merge_identities (snd (snapshot linked_store)) peer_store)"
proof -
  have rows: "set (snd (snapshot z)) = set (s_identities z)" for z
    by (simp add: snapshot_def list_persona_identities_def)
  have ok: "store_ok peer_store"
    using linked_ok by (simp add: store_ok_def ok_defs peer_store_def linked_store_def keys_distinct_def)
  have known: "\<forall>r \<in> set (s_identities z). get_persona (i_persona r) w \<noteq> None"
    if "z \<in> {linked_store, peer_store}" "w \<in> {linked_store, peer_store}" for z w
    using that by (auto simp: get_persona_def peer_store_def linked_store_def linked_persona_def sql_lookup_def)
  have "inj_on identity_version {r \<in> set (s_identities peer_store) \<union> set (s_identities linked_store). i_user r = bob}"
    by (auto simp: inj_on_def peer_store_def linked_store_def identity_version_def)
  then show ?thesis
    using devices_agree [OF linked_ok ok, of "snd (snapshot peer_store)" "snd (snapshot linked_store)" bob] known
    by (auto simp: rows Un_commute)
qed

text \<open>C29: a username claimed on two hubs goes to the earlier claim on both of them, the smaller persona id
  breaking ties, when each learns of the other's persona. The later persona is kept without a name, and only
  the hub that held it reports the loss, so that its owner is told.\<close>

theorem clash_resolved:
  assumes "store_ok s" and "persona_by_name nb s = Some a" and "get_persona (p_id b) s = None"
    and "store_ok t" and "persona_by_name na t = Some b" and "get_persona (p_id a) t = None"
    and "p_name a = Some na" and "p_name b = Some nb" and "na \<noteq> []"
    and "p_claimed a < p_claimed b \<or> p_claimed a = p_claimed b \<and> p_id a < p_id b"
  shows "\<exists>s' t'. adopt_persona now b s = (Inr [], s') \<and>
    persona_by_name na s' = Some a \<and> get_persona (p_id b) s' = Some (b\<lparr>p_name := None\<rparr>) \<and>
    adopt_persona now' a t = (Inr [(b\<lparr>p_name := None, p_revision := p_revision b + 1, p_updated := now'\<rparr>, nb)], t') \<and>
    persona_by_name na t' = Some a \<and>
    get_persona (p_id b) t' = Some (b\<lparr>p_name := None, p_revision := p_revision b + 1, p_updated := now'\<rparr>)"
proof -
  have w: "wins a b"
    using assms(10) by (auto simp: wins_def claim_of_def less_claim_def)
  note w = w wins_asym [OF w]
  have same: "fold_name (Some nb) = fold_name (Some na)"
    using persona_by_name_SomeD [OF assms(2)] assms(7) by (simp add: name_folded_def)
  then have n: "nb \<noteq> []" "persona_by_name nb z = persona_by_name na z" for z
    using assms(9) by (auto simp: fold_name_def persona_by_name_def)
  obtain s' ls where "adopt_persona now b s = (Inr ls, s')" "persona_by_name nb s' = Some (if wins a b then a else b)"
      "get_persona (p_id b) s' = Some (if wins a b then b\<lparr>p_name := None\<rparr> else b)"
      "ls = (if wins a b then []
         else [(a\<lparr>p_name := None, p_revision := p_revision a + 1, p_updated := now\<rparr>, case p_name a of None \<Rightarrow> [] | Some m \<Rightarrow> m)])"
    by (rule adopt_persona_clash [OF assms(1,3,8) n(1) assms(2), of now])
  then have s': "adopt_persona now b s = (Inr [], s')" "persona_by_name na s' = Some a"
      "get_persona (p_id b) s' = Some (b\<lparr>p_name := None\<rparr>)"
    using w(1) n(2) by simp_all
  obtain t' ls' where "adopt_persona now' a t = (Inr ls', t')" "persona_by_name na t' = Some (if wins b a then b else a)"
      "get_persona (p_id b) t' = Some (if wins b a then b
         else b\<lparr>p_name := None, p_revision := p_revision b + 1, p_updated := now'\<rparr>)"
      "ls' = (if wins b a then []
         else [(b\<lparr>p_name := None, p_revision := p_revision b + 1, p_updated := now'\<rparr>, case p_name b of None \<Rightarrow> [] | Some m \<Rightarrow> m)])"
    by (rule adopt_persona_clash [OF assms(4,6,7,9,5), of now'])
  then have "adopt_persona now' a t = (Inr [(b\<lparr>p_name := None, p_revision := p_revision b + 1, p_updated := now'\<rparr>, nb)], t')"
      "persona_by_name na t' = Some a"
      "get_persona (p_id b) t' = Some (b\<lparr>p_name := None, p_revision := p_revision b + 1, p_updated := now'\<rparr>)"
    using w(2) assms(8) by simp_all
  with s' show ?thesis
    by (intro exI [of _ s'] exI [of _ t'] conjI)
qed

text \<open>The witness: the sample persona, and one of the same name in capitals that was claimed on another hub before.\<close>

theorem clash_resolved_witness:
  "\<exists>t'. adopt_persona 9 \<lparr>p_id = [8], p_name = Some ''AL'', p_claimed = 0, p_revision = 1, p_updated = 1\<rparr> linked_store =
      (Inr [(linked_persona\<lparr>p_name := None, p_revision := p_revision linked_persona + 1, p_updated := 9\<rparr>, ''Al'')], t') \<and>
    persona_by_name ''AL'' t' = Some \<lparr>p_id = [8], p_name = Some ''AL'', p_claimed = 0, p_revision = 1, p_updated = 1\<rparr>"
proof -
  let ?a = "\<lparr>p_id = [8], p_name = Some ''AL'', p_claimed = 0, p_revision = 1, p_updated = 1\<rparr> :: persona_record"
  let ?s = "sample_store\<lparr>s_personas := [?a]\<rparr>"
  have fold: "map casefold_char ''AL'' = map casefold_char ''Al''"
    by code_simp
  have "store_ok ?s"
    using sample_store_ok by (simp add: store_ok_def ok_defs names_unique_def named_def keys_distinct_def
        sample_store_def empty_store_def)
  moreover have "get_persona (p_id linked_persona) ?s = None" "persona_by_name ''Al'' ?s = Some ?a"
    "get_persona (p_id ?a) linked_store = None" "persona_by_name ''AL'' linked_store = Some linked_persona"
    using fold by (simp_all add: get_persona_def persona_by_name_def linked_store_def linked_persona_def sql_lookup_def
        name_folded_def fold_name_def)
  moreover have "p_name ?a = Some ''AL''" "p_name linked_persona = Some ''Al''" "p_claimed ?a < p_claimed linked_persona"
    by (simp_all add: linked_persona_def)
  ultimately show ?thesis
    using clash_resolved [of ?s "''Al''" ?a linked_persona linked_store "''AL''" 0 9] linked_ok by fastforce
qed

end
