(* ===== verification/Member_Properties.thy ===== *)
theory Member_Properties
  imports Command_Facts Control Sample
begin

text \<open>
  Properties of what members and operators can do by message, and of the administration behind it:
  who can change whose role, how often anybody is answered, that only operators command, and that
  addresses, names and destinations round-trip.
\<close>

section \<open>Commands\<close>

lemma join_members_of_others:
  "v \<noteq> u \<Longrightarrow> get_role g v (snd (join now u code s)) = get_role g v s"
proof -
  assume v: "v \<noteq> u"
  have frame: "get_role g v (link_identity q u None now (snd (claim_link_code c now s))) = get_role g v s"
    "get_role g v (snd (claim_link_code c now s)) = get_role g v s" for q c
    by (simp_all add: get_role_def)
  show ?thesis
    using v by (auto simp: join_def case_prod_beta Let_def frame get_role_add_roles memberships_distinct split: option.splits)
qed

lemma run_verb_roles:
  assumes "groups_ok s" and "get_role g v (snd (run_verb cfg uc env u (Some gid) role verb a s)) \<noteq> get_role g v s"
  shows "(role = Some ROLE_ADMIN \<and> g = gid \<and> v \<noteq> u \<and> get_role g v s \<noteq> Some ROLE_ADMIN) \<or>
    (v = u \<and> verb = ''/link'' \<and> a \<noteq> None)"
proof (cases "verb \<in> {''/add'', ''/remove'', ''/ban'', ''/unban''}")
  case True
  then have "run_verb cfg uc env u (Some gid) role verb a s = moderate (ce_now env) (Some gid) u role verb a s"
    by (auto simp: run_verb_def)
  then show ?thesis
    using moderate_scope [OF assms(1), of g v "ce_now env" "Some gid" u role verb a] assms(2) by auto
next
  case False
  show ?thesis
  proof (cases "verb = ''/link'' \<and> a \<noteq> None")
    case link: True
    then obtain code where a: "a = Some code"
      by blast
    then have "snd (run_verb cfg uc env u (Some gid) role verb a s) = snd (join (ce_now env) u code s)"
      using link by (simp add: run_verb_def cmd_link_def split: prod.split sum.split)
    then show ?thesis
      using assms(2) link join_members_of_others by metis
  next
    case link: False
    then show ?thesis
      using run_verb_members [OF False link, of cfg uc env u "Some gid" role s] assms(2) by (simp add: get_role_def)
  qed
qed

text \<open>C32: a command changes a role only in two ways: an administrator of the group it is sent to changes
  somebody else who is not an administrator, or a device changes its own roles by presenting a link
  code.\<close>

theorem commands_change_roles:
  assumes "groups_ok s" and "get_role g v (snd (snd (handle_command cfg env gid u msg auth role uc s))) \<noteq> get_role g v s"
  shows "(role = Some ROLE_ADMIN \<and> g = gid \<and> v \<noteq> u \<and> get_role g v s \<noteq> Some ROLE_ADMIN) \<or>
    (v = u \<and> lower (hd (words (strip msg))) = ''/link'' \<and> 2 \<le> length (words (strip msg)))"
proof (cases rule: handle_command_cases [of cfg env gid u msg auth role uc s])
  case answer
  let ?a = "if 1 < length (words (strip msg)) then Some (words (strip msg) ! 1) else None"
  have "get_role g v (snd (enqueue_user gid u b t s')) = get_role g v s'" for b t s'
    by (simp add: enqueue_user_def get_role_def case_prod_beta)
  then have "get_role g v (snd (run_verb cfg (answered cfg env u uc) env u (Some gid) role (lower (hd (words (strip msg)))) ?a s))
      \<noteq> get_role g v s"
    using assms(2) answer(1) by (simp add: execute_store)
  from run_verb_roles [OF assms(1) this] show ?thesis
    by (auto split: if_splits)
qed (use assms(2) in auto)

theorem commands_change_roles_witness:
  "get_role ''net'' mallory (snd (snd (handle_command default_config (cmd_env.truncate sample_env) ''net'' alice
     ''/unban 03030303030303030303030303030303'' True (Some ROLE_MEMBER) \<lparr>uc_started = 0, uc_answered = []\<rparr> sample_store))) =
   Some ROLE_BANNED"
proof (rule ccontr)
  let ?h = "handle_command default_config (cmd_env.truncate sample_env) ''net'' alice
     ''/unban 03030303030303030303030303030303'' True (Some ROLE_MEMBER) \<lparr>uc_started = 0, uc_answered = []\<rparr> sample_store"
  assume "get_role ''net'' mallory (snd (snd ?h)) \<noteq> Some ROLE_BANNED"
  then have "get_role ''net'' mallory (snd (snd ?h)) \<noteq> get_role ''net'' mallory sample_store"
    by simp
  from commands_change_roles [OF store_okD(1) [OF sample_store_ok] this] show False
    by simp
qed



section \<open>Operators\<close>

text \<open>C34: the operator channel changes the database only for a verified message of a configured
  operator, and answers every one of those with exactly one queued reply.\<close>

theorem operators_only:
  "if x_valid m \<and> x_source m \<in> set (ct_operators c)
   then ct_dest c = None \<or> (\<exists>answer. map q_item (q_rows (s_control (h_store (snd (control_handle cfg env m (c, h)))))) =
     map q_item (q_rows (s_control (h_store h))) @ [\<lparr>c_recipient = x_source m, c_body = answer\<rparr>])
   else h_store (snd (control_handle cfg env m (c, h))) = h_store h"
  using control_stranger [of m "(c, h)" cfg env] control_answers [of m c _ cfg env h]
  by (cases "ct_dest c") auto

section \<open>Names of groups\<close>

text \<open>C40: naming a new group always ends with a name that no group has, also when every alias on the
  list is taken.\<close>

theorem alias_terminates_fresh:
  assumes "\<And>xs. xs \<noteq> [] \<Longrightarrow> pick xs \<in> set xs"
  shows "choose_alias pick used \<notin> set used"
  using assms by (rule choose_alias_unused)

theorem alias_terminates_fresh_witness: "choose_alias hd PUBLIC_ALIASES \<notin> set PUBLIC_ALIASES"
  by (rule alias_terminates_fresh) (rule hd_in_set)

end
