(* ===== verification/Failover_Properties.thy ===== *)
theory Failover_Properties
  imports Hub_Core Sample
begin

text \<open>
  Properties of \<open>lxmf_hub/failover.py\<close>: what one check does to the adoptions, that an outage reaches
  the members of the silent hub, that adopting takes evidence, and that looking again at an
  unchanged situation does nothing. \<open>outage_store\<close> is the sample hub with a peer that serves the
  stranger and the banned member and last answered at time 0.
\<close>

definition outage_store :: store where
  "outage_store = sample_store\<lparr>
     s_peer_members := [\<lparr>pm_peer = peer_hub, pm_group = ''net'', pm_user = stranger, pm_updated = 0\<rparr>,
       \<lparr>pm_peer = peer_hub, pm_group = ''net'', pm_user = mallory, pm_updated = 0\<rparr>],
     s_liveness := [peer_hub \<mapsto> 0]\<rparr>"

definition outage_engine :: failover where
  "outage_engine = new_failover default_config [peer_hub] 0"

lemmas outage_defs = outage_store_def default_config_def outage_engine_def new_failover_def
  effective_peer_timeout_def MIN_TIMEOUT_INTERVALS_def

lemma outage_groups [simp]: "groups_ok outage_store"
  using store_okD(1) [OF sample_store_ok] by (simp add: outage_store_def)

lemma outage_facts:
  "peer_status outage_engine peer_hub 100000 outage_store = STALE" "fo_peers outage_engine = [peer_hub]"
  "fo_timeout outage_engine = effective_peer_timeout default_config" "fo_last_check outage_engine = 0"
  "set (list_peer_members peer_hub ''net'' outage_store) = {stranger, mallory}"
  "get_group ''net'' outage_store = Some sample_group" "\<not> adopted p g u outage_store"
  by (simp_all add: peer_status_def peer_last_success_def outage_defs default_defs Let_def list_peer_members_def
      get_group_def sample_store_def sample_group_def sql_lookup_def adopted_def has_key_def empty_store_def)

lemma outage_roles:
  "get_role ''net'' stranger outage_store = None" "get_role ''net'' mallory outage_store = Some ROLE_BANNED"
  using sample_roles by (simp_all add: outage_store_def get_role_def)

section \<open>What a check decides\<close>

text \<open>C17: one check settles every adoption by the judgement of its peer alone. A peer that answers
  keeps no adoption, one that cannot be judged yet keeps those it has, and a silent one gains
  exactly its members of the groups this hub hosts who have no row here, banned ones included in
  the exception.\<close>

theorem check_decides:
  assumes "groups_ok s"
  shows "adopted p g u (check cfg f d pretty now s) \<longleftrightarrow>
    (if p \<notin> set (fo_peers f) then adopted p g u s
     else case peer_status f p now s of
       LIVE \<Rightarrow> False
     | UNKNOWN \<Rightarrow> adopted p g u s
     | STALE \<Rightarrow> adopted p g u s \<or>
         (get_group g s \<noteq> None \<and> u \<in> set (list_peer_members p g s) \<and> get_role g u s = None))"
  unfolding check_adopted [OF assms] by (simp add: after_check_def split: peer_status.split)

theorem check_decides_witness:
  "adopted peer_hub ''net'' stranger (check default_config outage_engine sample_dests hex 100000 outage_store) \<and>
   \<not> adopted peer_hub ''net'' mallory (check default_config outage_engine sample_dests hex 100000 outage_store)"
  by (simp add: check_decides outage_facts outage_roles)

section \<open>An outage reaches the members\<close>

lemma check_recipients:
  assumes "groups_ok s"
  shows "u \<in> set (recipients g (check cfg f d pretty now s)) \<longleftrightarrow>
    (case get_role g u s of Some r \<Rightarrow> r \<noteq> ROLE_BANNED
     | None \<Rightarrow> \<exists>p. adopted p g u (check cfg f d pretty now s))"
proof -
  have "same_basis s (check cfg f d pretty now s)"
    by (simp add: check_basis)
  from same_basis_reads(2,6) [OF this] assms show ?thesis
    by (simp add: recipients_iff)
qed

text \<open>C16: a member of a hub that has been silent for longer than the timeout is served by the next
  check that is due, for every group this hub hosts, unless the operator of this hub has banned
  them: every message posted here from then on is queued for them too.\<close>

theorem outage_is_covered:
  assumes "groups_ok s" and "check_interval_sec (failover_cfg cfg) \<le> now - fo_last_check f"
    and "p \<in> set (fo_peers f)" and "fo_timeout f < now - fo_started f"
    and "case peer_last_success p s of None \<Rightarrow> True | Some t \<Rightarrow> fo_timeout f < now - t"
    and "get_group g s \<noteq> None" and "u \<in> set (list_peer_members p g s)" and "get_role g u s \<noteq> Some ROLE_BANNED"
  shows "fst (check_due cfg f d pretty now s) \<and> u \<in> set (recipients g (snd (snd (check_due cfg f d pretty now s))))"
proof -
  let ?f = "f\<lparr>fo_last_check := now\<rparr>"
  have due: "check_due cfg f d pretty now s = (True, ?f, check cfg ?f d pretty now s)"
    using assms(2) by (simp add: check_due_def)
  have "peer_status ?f p now s = STALE"
    using assms(4,5) by (auto simp: peer_status_def split: option.splits)
  then have "adopted p g u (check cfg ?f d pretty now s)" if "get_role g u s = None"
    using check_adopted [OF assms(1)] assms(3,6,7) that by (simp add: after_check_def)
  then show ?thesis
    unfolding due using assms(8) check_recipients [OF assms(1)] by (auto split: option.splits)
qed

theorem outage_is_covered_witness:
  "stranger \<in> set (recipients ''net'' (snd (snd (check_due default_config outage_engine sample_dests hex 100000 outage_store))))"
  by (rule outage_is_covered [of outage_store default_config 100000 outage_engine peer_hub, THEN conjunct2])
    (simp_all add: outage_facts outage_roles, simp_all add: outage_defs default_defs peer_last_success_def Let_def)

section \<open>Adopting takes evidence\<close>

text \<open>C26: nobody is newly adopted on thin evidence, whatever timeout was configured: the peer is
  configured, its last answer and the start of this hub are both more than two sync intervals ago,
  it told this hub that it serves the member in a group hosted here, and the member has no row
  here.\<close>

theorem adoption_has_evidence:
  assumes "groups_ok s" and "fed_enabled (federation_cfg cfg)" and "fo_timeout f = effective_peer_timeout cfg"
    and "adopted p g u (check cfg f d pretty now s)" and "\<not> adopted p g u s"
  shows "p \<in> set (fo_peers f) \<and> 2 * sync_interval_sec (federation_cfg cfg) < now - fo_started f \<and>
    (case peer_last_success p s of None \<Rightarrow> True | Some t \<Rightarrow> 2 * sync_interval_sec (federation_cfg cfg) < now - t) \<and>
    get_group g s \<noteq> None \<and> u \<in> set (list_peer_members p g s) \<and> get_role g u s = None"
proof -
  have after: "after_check (if p \<in> set (fo_peers f) then Some (peer_status f p now s) else None) p g u s"
    using assms(1,4) check_adopted by blast
  then have p: "p \<in> set (fo_peers f)" and st: "peer_status f p now s = STALE"
    and rest: "get_group g s \<noteq> None" "u \<in> set (list_peer_members p g s)" "get_role g u s = None"
    using assms(5) by (auto simp: after_check_def split: if_splits peer_status.splits)
  have "2 * sync_interval_sec (federation_cfg cfg) \<le> fo_timeout f"
    using effective_timeout_floor [OF assms(2)] assms(3) by (simp add: MIN_TIMEOUT_INTERVALS_def)
  with st p rest show ?thesis
    by (auto simp: peer_status_def split: if_splits option.splits)
qed

theorem adoption_has_evidence_witness:
  "2 * sync_interval_sec (federation_cfg default_config) < 100000 - fo_started outage_engine"
proof -
  have "adopted peer_hub ''net'' stranger (check default_config outage_engine sample_dests hex 100000 outage_store)"
    by (simp add: check_adopted after_check_def outage_facts outage_roles)
  from adoption_has_evidence [OF outage_groups _ outage_facts(3) this outage_facts(7)]
  show ?thesis by (simp add: default_config_def default_federation_def)
qed

section \<open>Looking again\<close>

lemma react_settled:
  "\<forall>(p, st) \<in> set sts. (st = STALE \<longrightarrow> adopt_peer cfg f d pretty p now s = (0, s)) \<and>
     (st = LIVE \<longrightarrow> p \<notin> set (adopted_peers s)) \<Longrightarrow>
   react cfg f d pretty now sts s = s"
  by (induction sts) auto

lemma adopt_peer_settled:
  assumes "groups_ok s" and "\<And>g u. get_group g s \<noteq> None \<Longrightarrow> u \<in> set (list_peer_members p g s) \<Longrightarrow>
    get_role g u s = None \<Longrightarrow> adopted p g u s"
  shows "adopt_peer cfg f d pretty p now s = (0, s)"
proof -
  have "get_group (g_id x) s \<noteq> None" if "x \<in> set (list_groups s)" for x
    using that list_groups_ids [of "g_id x" s] by blast
  then show ?thesis
    unfolding adopt_peer_def using assms by (intro adopt_groups_settled) auto
qed

lemma check_isolation_cong:
  "fo_peers f' = fo_peers f \<Longrightarrow> check_isolation cfg f' stale now s = check_isolation cfg f stale now s"
  by (simp add: check_isolation_def)

text \<open>C15: a check that finds every peer judged as the last check did changes nothing at all: nobody
  is adopted or released twice and nobody is told anything twice, at whatever later time and also
  after a restart, since all it goes by is in the database.\<close>

theorem check_settles:
  assumes "groups_ok s" and "s1 = check cfg f d pretty now s" and "fo_peers f' = fo_peers f"
    and "\<forall>p \<in> set (fo_peers f). peer_status f' p later s1 = peer_status f p now s"
  shows "check cfg f' d' pretty' later s1 = s1"
proof -
  define sts where "sts = dict_of (map (\<lambda>p. (p, peer_status f p now s)) (fo_peers f))"
  have sts': "dict_of (map (\<lambda>p. (p, peer_status f' p later s1)) (fo_peers f')) = sts"
    unfolding sts_def assms(3) using assms(4) by (intro arg_cong [where f = dict_of] map_cong) auto
  have basis: "same_basis s s1"
    unfolding assms(2) by (rule check_basis)
  then have g1: "groups_ok s1"
    using assms(1) same_basis_reads(6) by blast
  have st: "p \<in> set (fo_peers f) \<and> st = peer_status f p now s" if "(p, st) \<in> set sts" for p st
  proof -
    have "map_of sts p = Some st"
      using that distinct_dict_of unfolding sts_def by (intro map_of_is_SomeI)
    then show ?thesis
      unfolding sts_def by (auto simp: map_of_dict_of rev_map map_of_pairs split: if_splits)
  qed
  have after: "adopted p g u s1 \<longleftrightarrow> after_check (Some (peer_status f p now s)) p g u s"
    if "p \<in> set (fo_peers f)" for p g u
    using check_adopted [OF assms(1)] that unfolding assms(2) by simp
  have stale: "adopt_peer cfg f' d' pretty' p later s1 = (0, s1)" if p: "(p, STALE) \<in> set sts" for p
  proof (rule adopt_peer_settled [OF g1])
    fix g u
    assume *: "get_group g s1 \<noteq> None" "u \<in> set (list_peer_members p g s1)" "get_role g u s1 = None"
    have "get_group g s1 = get_group g s"
      using basis by (simp add: same_basis_def get_group_def)
    then have "get_group g s \<noteq> None \<and> u \<in> set (list_peer_members p g s) \<and> get_role g u s = None"
      using * same_basis_reads(2,3) [OF basis] by metis
    then show "adopted p g u s1"
      using after [of p g u] st [OF p] by (simp add: after_check_def)
  qed
  have live: "p \<notin> set (adopted_peers s1)" if p: "(p, LIVE) \<in> set sts" for p
    using after [of p] st [OF p] by (simp add: after_check_def adopted_peers_iff)
  have react: "react cfg f' d' pretty' later sts s1 = s1"
    using stale live by (intro react_settled) auto
  show ?thesis
  proof (cases "UNKNOWN \<in> snd ` set sts")
    case True
    then show ?thesis
      by (simp add: check_def Let_def sts' react)
  next
    case False
    let ?stale = "map fst (filter (\<lambda>(p, st). st = STALE) sts)"
    have "snd (check_isolation cfg f ?stale now (react cfg f d pretty now sts s)) = s1"
      using False unfolding assms(2) check_def Let_def sts_def [symmetric] by simp
    from check_isolation_again [OF this] have "check_isolation cfg f' ?stale later s1 = (False, s1)"
      unfolding check_isolation_cong [OF assms(3)] .
    then show ?thesis
      using False by (simp add: check_def Let_def sts' react)
  qed
qed

theorem check_settles_witness:
  "check default_config outage_engine sample_dests hex 200000
     (check default_config outage_engine sample_dests hex 100000 outage_store) =
   check default_config outage_engine sample_dests hex 100000 outage_store"
proof (rule check_settles [OF outage_groups refl refl], intro ballI)
  fix p
  assume "p \<in> set (fo_peers outage_engine)"
  then have p: "p = peer_hub"
    by (simp add: outage_facts)
  have "peer_status outage_engine p 200000 outage_store = STALE"
    by (simp add: p peer_status_def peer_last_success_def outage_defs default_defs Let_def)
  then show "peer_status outage_engine p 200000 (check default_config outage_engine sample_dests hex 100000 outage_store) =
      peer_status outage_engine p 100000 outage_store"
    using same_basis_reads(4) [OF check_basis] p outage_facts(1) by metis
qed

end
