(* ===== verification/At_Rest.thy ===== *)
theory At_Rest
  imports Hub_Core
begin

text \<open>
  Encryption at rest: \<open>lxmf_hub/crypto.py\<close> and the framing of encryptable columns in
  \<open>lxmf_hub/store.py\<close>. The token construct of RNS, HKDF, the random sources, the environment
  and the resolution of paths are fields of \<open>crypto_env\<close>; a file system is a map from paths to
  contents. The other theories hold the columns decoded; \<open>decode_encode\<close> is what justifies that.
\<close>

section \<open>crypto.py\<close>

text \<open>\<open>cr_decrypt\<close> is \<open>None\<close> where the token refuses, whether it returns \<open>None\<close> or raises.\<close>

record crypto_env =
  cr_encrypt :: "bytes \<Rightarrow> bytes \<Rightarrow> bytes \<Rightarrow> bytes"
  cr_decrypt :: "bytes \<Rightarrow> bytes \<Rightarrow> bytes option"
  cr_hkdf :: "nat \<Rightarrow> bytes \<Rightarrow> bytes \<Rightarrow> bytes \<Rightarrow> bytes"
  cr_generate_key :: bytes
  cr_urandom :: "nat \<Rightarrow> bytes"
  cr_environ :: "string \<Rightarrow> string option"
  cr_resolve :: "string \<Rightarrow> string"

type_synonym files = "string \<Rightarrow> bytes option"

definition KEY_LENGTH :: nat where "KEY_LENGTH = 64"
definition KEY_ENV_VAR :: string where "KEY_ENV_VAR = ''LXMF_HUB_DB_KEY''"
definition HKDF_CONTEXT :: bytes where "HKDF_CONTEXT = utf8 ''lxmf_hub/at-rest/v1''"
definition MODE_NONE :: string where "MODE_NONE = ''none''"
definition MODE_KEYFILE :: string where "MODE_KEYFILE = ''keyfile''"
definition MODE_PASSPHRASE :: string where "MODE_PASSPHRASE = ''passphrase''"

text \<open>\<open>TokenCipher\<close>: a cipher is its key.\<close>

definition token_cipher :: "bytes \<Rightarrow> store_error + bytes" where
  "token_cipher key =
     (if length key \<noteq> KEY_LENGTH then Inl (ValueError (''At-rest key must be '' @ show_nat KEY_LENGTH @ '' bytes''))
      else Inr key)"

definition token_encrypt :: "crypto_env \<Rightarrow> bytes \<Rightarrow> bytes \<Rightarrow> bytes \<Rightarrow> bytes" where
  "token_encrypt cr key iv plaintext = cr_encrypt cr key iv plaintext"

definition token_decrypt :: "crypto_env \<Rightarrow> bytes \<Rightarrow> bytes \<Rightarrow> store_error + bytes" where
  "token_decrypt cr key ciphertext =
     (case cr_decrypt cr key ciphertext of
        None \<Rightarrow> Inl (ValueError ''At-rest decryption failed'')
      | Some plaintext \<Rightarrow> Inr plaintext)"

text \<open>Creating the directory and the file is assumed to succeed.\<close>

definition load_keyfile :: "crypto_env \<Rightarrow> string \<Rightarrow> files \<Rightarrow> (store_error + bytes) \<times> files" where
  "load_keyfile cr path0 fs =
     (let path = cr_resolve cr path0
      in case fs path of
           Some key \<Rightarrow>
             (if length key \<noteq> KEY_LENGTH
              then (Inl (ValueError (''At-rest keyfile '' @ path @ '' does not hold a '' @
                show_nat KEY_LENGTH @ ''-byte key'')), fs)
              else (Inr key, fs))
         | None \<Rightarrow> (Inr (cr_generate_key cr), fs(path \<mapsto> cr_generate_key cr)))"

definition key_from_passphrase :: "crypto_env \<Rightarrow> string \<Rightarrow> bytes \<Rightarrow> bytes" where
  "key_from_passphrase cr passphrase salt = cr_hkdf cr KEY_LENGTH (utf8 passphrase) salt HKDF_CONTEXT"

text \<open>\<open>None\<close> is the cipher of the mode without encryption.\<close>

definition build_cipher ::
    "crypto_env \<Rightarrow> string \<Rightarrow> string \<Rightarrow> bytes \<Rightarrow> files \<Rightarrow> (store_error + bytes option) \<times> files" where
  "build_cipher cr mode keyfile_path salt fs =
     (if mode = MODE_NONE then (Inr None, fs)
      else if mode = MODE_KEYFILE then
        (case load_keyfile cr keyfile_path fs of
           (Inl e, fs1) \<Rightarrow> (Inl e, fs1)
         | (Inr key, fs1) \<Rightarrow> (case token_cipher key of Inl e \<Rightarrow> Inl e | Inr c \<Rightarrow> Inr (Some c), fs1))
      else if mode = MODE_PASSPHRASE then
        (case cr_environ cr KEY_ENV_VAR of
           None \<Rightarrow> (Inl (ValueError (''At-rest mode '' @ quoted ''passphrase'' @ '' requires the '' @ KEY_ENV_VAR @
             '' environment variable'')), fs)
         | Some passphrase \<Rightarrow>
             if passphrase = [] then (Inl (ValueError (''At-rest mode '' @ quoted ''passphrase'' @ '' requires the '' @
               KEY_ENV_VAR @ '' environment variable'')), fs)
             else (case token_cipher (key_from_passphrase cr passphrase salt) of
                     Inl e \<Rightarrow> Inl e | Inr c \<Rightarrow> Inr (Some c), fs))
      else (Inl (ValueError (''Unknown at-rest mode: '' @ mode)), fs))"

section \<open>Framing of a column\<close>

definition BLOB_PLAIN :: bytes where "BLOB_PLAIN = [0]"
definition BLOB_ENCRYPTED :: bytes where "BLOB_ENCRYPTED = [1]"

definition encode :: "crypto_env \<Rightarrow> bytes option \<Rightarrow> bytes \<Rightarrow> bytes \<Rightarrow> bytes" where
  "encode cr cipher iv plaintext =
     (case cipher of
        None \<Rightarrow> BLOB_PLAIN @ plaintext
      | Some key \<Rightarrow> BLOB_ENCRYPTED @ token_encrypt cr key iv plaintext)"

definition decode :: "crypto_env \<Rightarrow> bytes option \<Rightarrow> bytes \<Rightarrow> store_error + bytes" where
  "decode cr cipher stored =
     (let marker = take 1 stored; body = drop 1 stored
      in if marker = BLOB_PLAIN then Inr body
         else if marker = BLOB_ENCRYPTED then
           (case cipher of
              None \<Rightarrow> Inl (ValueError ''Database holds encrypted values but no at-rest key is configured'')
            | Some key \<Rightarrow> token_decrypt cr key body)
         else Inl (ValueError ''Unrecognised stored value framing''))"

text \<open>\<open>bind_cipher\<close> of a store whose cipher was \<open>cipher\<close>: the result, the cipher installed and the
  database. The cipher is installed before the canary is checked.\<close>

definition bind_cipher ::
    "crypto_env \<Rightarrow> bytes \<Rightarrow> string \<Rightarrow> string \<Rightarrow> bytes option \<Rightarrow> files \<Rightarrow> store
     \<Rightarrow> (store_error + unit) \<times> bytes option \<times> files \<times> store" where
  "bind_cipher cr iv mode keyfile_path cipher fs s =
     (let (salt, s1) = (case meta_get ''at_rest_salt'' s of
            Some salt \<Rightarrow> (salt, s)
          | None \<Rightarrow> (cr_urandom cr 32, meta_set ''at_rest_salt'' (cr_urandom cr 32) s))
      in case build_cipher cr mode keyfile_path salt fs of
           (Inl e, fs1) \<Rightarrow> (Inl e, cipher, fs1, s1)
         | (Inr c, fs1) \<Rightarrow>
             (case meta_get ''at_rest_canary'' s1 of
                None \<Rightarrow> (Inr (), c, fs1, meta_set ''at_rest_canary'' (encode cr c iv (utf8 ''lxmf_hub'')) s1)
              | Some canary \<Rightarrow>
                  (case decode cr c canary of
                     Inl e \<Rightarrow> (Inl e, c, fs1, s1)
                   | Inr plaintext \<Rightarrow>
                       if plaintext \<noteq> utf8 ''lxmf_hub''
                       then (Inl (ValueError ''At-rest key does not match this database''), c, fs1, s1)
                       else (Inr (), c, fs1, s1))))"

section \<open>Lemmas\<close>

text \<open>What the token construct promises: it opens what it sealed with the same key.\<close>

definition token_law :: "crypto_env \<Rightarrow> bool" where
  "token_law cr \<longleftrightarrow> (\<forall>key iv p. cr_decrypt cr key (cr_encrypt cr key iv p) = Some p)"

lemma decode_encode: "token_law cr \<Longrightarrow> decode cr c (encode cr c iv p) = Inr p"
  by (simp add: token_law_def decode_def encode_def token_decrypt_def token_encrypt_def BLOB_PLAIN_def
      BLOB_ENCRYPTED_def split: option.split)

lemma decode_plain: "decode cr c (encode cr None iv p) = Inr p"
  by (simp add: decode_def encode_def BLOB_PLAIN_def)

lemma decode_without_key:
  "decode cr None (encode cr (Some key) iv p) =
     Inl (ValueError ''Database holds encrypted values but no at-rest key is configured'')"
  by (simp add: decode_def encode_def BLOB_PLAIN_def BLOB_ENCRYPTED_def)

lemma load_keyfile_again: "load_keyfile cr path fs = (Inr key, fs1) \<Longrightarrow> load_keyfile cr path fs1 = (Inr key, fs1) \<or> length key \<noteq> KEY_LENGTH"
  by (auto simp: load_keyfile_def Let_def split: option.splits if_splits)

lemma build_cipher_again:
  "build_cipher cr mode path salt fs = (Inr c, fs1) \<Longrightarrow> build_cipher cr mode path salt fs1 = (Inr c, fs1)"
proof -
  assume b: "build_cipher cr mode path salt fs = (Inr c, fs1)"
  show ?thesis
  proof (cases "mode = MODE_KEYFILE")
    case True
    then obtain key where k: "load_keyfile cr path fs = (Inr key, fs1)" "token_cipher key = Inr (the c)" "c \<noteq> None"
      using b by (auto simp: build_cipher_def MODE_NONE_def MODE_KEYFILE_def split: prod.splits sum.splits)
    then have "length key = KEY_LENGTH"
      by (auto simp: token_cipher_def split: if_splits)
    then show ?thesis
      using load_keyfile_again [OF k(1)] k True
      by (auto simp: build_cipher_def MODE_NONE_def MODE_KEYFILE_def)
  next
    case False
    then show ?thesis
      using b by (auto simp: build_cipher_def split: if_splits option.splits)
  qed
qed

lemma meta_get_set [simp]: "meta_get k (meta_set k' v s) = (if k = k' then Some v else meta_get k s)"
  by (simp add: meta_get_def meta_set_def)

lemma bind_cipher_again:
  assumes "token_law cr" and "bind_cipher cr iv mode path c fs s = (Inr (), c1, fs1, s1)"
  shows "bind_cipher cr iv' mode path c' fs1 s1 = (Inr (), c1, fs1, s1)"
proof -
  define salt where "salt = (case meta_get ''at_rest_salt'' s of Some x \<Rightarrow> x | None \<Rightarrow> cr_urandom cr 32)"
  define s0 where "s0 = (case meta_get ''at_rest_salt'' s of Some x \<Rightarrow> s | None \<Rightarrow> meta_set ''at_rest_salt'' salt s)"
  have s0: "meta_get ''at_rest_salt'' s0 = Some salt"
    by (simp add: s0_def salt_def split: option.split)
  have bind: "bind_cipher cr iv mode path c fs s = (case build_cipher cr mode path salt fs of
      (Inl e, fs1) \<Rightarrow> (Inl e, c, fs1, s0)
    | (Inr c, fs1) \<Rightarrow> (case meta_get ''at_rest_canary'' s0 of
        None \<Rightarrow> (Inr (), c, fs1, meta_set ''at_rest_canary'' (encode cr c iv (utf8 ''lxmf_hub'')) s0)
      | Some canary \<Rightarrow> (case decode cr c canary of Inl e \<Rightarrow> (Inl e, c, fs1, s0)
        | Inr plaintext \<Rightarrow> if plaintext \<noteq> utf8 ''lxmf_hub''
            then (Inl (ValueError ''At-rest key does not match this database''), c, fs1, s0)
            else (Inr (), c, fs1, s0))))"
    unfolding s0_def salt_def bind_cipher_def Let_def
    by (cases "meta_get ''at_rest_salt'' s") (simp_all only: option.case prod.case)
  obtain cb where b: "build_cipher cr mode path salt fs = (Inr c1, fs1)" and cb: "meta_get ''at_rest_salt'' s1 = Some salt"
    "meta_get ''at_rest_canary'' s1 = Some cb" "decode cr c1 cb = Inr (utf8 ''lxmf_hub'')"
    using assms(2) s0 decode_encode [OF assms(1)] unfolding bind
    by (auto split: prod.splits sum.splits option.splits if_splits)
  show ?thesis
    using build_cipher_again [OF b] cb by (simp add: bind_cipher_def)
qed

lemma bind_cipher_mismatch:
  assumes "meta_get ''at_rest_salt'' s = Some salt" and "meta_get ''at_rest_canary'' s = Some canary"
    and "build_cipher cr mode path salt fs = (Inr c1, fs1)" and "decode cr c1 canary \<noteq> Inr (utf8 ''lxmf_hub'')"
  shows "\<exists>e. bind_cipher cr iv mode path c fs s = (Inl e, c1, fs1, s)"
  using assms by (auto simp: bind_cipher_def split: sum.split)

end
