(* ===== verification/Daemon.thy ===== *)
theory Daemon
  imports Egress Federation Failover At_Rest
begin

text \<open>
  \<open>HubDaemon\<close> of \<open>lxmf_hub/daemon.py\<close>: where an inbound message goes, one turn of the supervision
  loop, and the pruning it does once an hour. Starting and stopping RNS, the router and the
  threads is not modelled. The daemon owns the destinations, so they replace those of the
  environment.
\<close>

definition GROUP_RELOAD_INTERVAL :: real where "GROUP_RELOAD_INTERVAL = 30"
definition PRUNE_INTERVAL :: real where "PRUNE_INTERVAL = 3600"

definition propagation_hash :: "string \<Rightarrow> store_error + bytes" where
  "propagation_hash v =
     (case from_hex (strip v) of
        None \<Rightarrow> Inl (ValueError (''egress.propagation_node '' @ quoted v @ '' is not hex''))
      | Some h \<Rightarrow>
          if length h \<noteq> DESTINATION_HASH_LENGTH
          then Inl (ValueError (''egress.propagation_node '' @ quoted v @ '' is not a '' @
            show_nat DESTINATION_HASH_LENGTH @ ''-byte destination hash''))
          else Inr h)"

record daemon =
  dm_sched :: sched
  dm_dests :: destinations
  dm_failover :: "failover option"
  dm_last_reload :: time
  dm_last_prune :: time

definition dm_store :: "daemon \<Rightarrow> store" where
  "dm_store dm = x_store (dm_sched dm)"

definition dm_env :: "daemon \<Rightarrow> 'a net_env_scheme \<Rightarrow> 'a net_env_scheme" where
  "dm_env dm env = env\<lparr>ce_dests := dm_dests dm\<rparr>"

section \<open>Deliveries\<close>

text \<open>\<open>ticket_field\<close> is LXMF's \<open>FIELD_TICKET\<close>.\<close>

definition deliver_beyond_control :: "hub_config \<Rightarrow> net_env \<Rightarrow> lxm \<Rightarrow> sched \<Rightarrow> sched" where
  "deliver_beyond_control cfg env m x =
     (let to_hub = x\<lparr>x_hub := handle_inbound cfg (hub_env.truncate env) m (x_hub x)\<rparr>
      in case x_directory x of
           None \<Rightarrow> to_hub
         | Some d \<Rightarrow>
             if directory_owns (x_destination m) d
             then let (_, d1, s1) = directory_handle cfg (ce_dest_of env) (ce_now env) m d (x_store x)
                  in (upd_store (\<lambda>_. s1) x)\<lparr>x_directory := Some d1\<rparr>
             else to_hub)"

definition deliver_to :: "hub_config \<Rightarrow> net_env \<Rightarrow> int \<Rightarrow> lxm \<Rightarrow> sched \<Rightarrow> sched" where
  "deliver_to cfg env ticket_field m x =
     (let x1 = x\<lparr>x_tickets := remember ticket_field (x_valid m)
            \<lparr>l_source = x_source m, l_destination = x_destination m\<rparr> (x_fields m) (x_tickets x)\<rparr>
      in case x_control x1 of
           None \<Rightarrow> deliver_beyond_control cfg env m x1
         | Some c \<Rightarrow>
             if control_owns (x_destination m) c
             then let (c1, h1) = control_handle cfg env m (c, x_hub x1)
                  in x1\<lparr>x_hub := h1, x_control := Some c1\<rparr>
             else deliver_beyond_control cfg env m x1)"

definition deliver :: "hub_config \<Rightarrow> net_env \<Rightarrow> int \<Rightarrow> lxm \<Rightarrow> daemon \<Rightarrow> daemon" where
  "deliver cfg env ticket_field m dm =
     dm\<lparr>dm_sched := deliver_to cfg (dm_env dm env) ticket_field m (dm_sched dm)\<rparr>"

section \<open>Supervision\<close>

text \<open>\<open>_guard\<close> logs what a task raises; what the task did before stays.\<close>

definition reload_groups :: "net_env \<Rightarrow> daemon \<Rightarrow> daemon" where
  "reload_groups env dm =
     dm\<lparr>dm_dests := snd (load_groups (ce_dest_of env) (ce_now env) (dm_store dm) (dm_dests dm))\<rparr>"

definition announce_groups :: "hub_config \<Rightarrow> net_env \<Rightarrow> (real \<Rightarrow> real) \<Rightarrow> daemon \<Rightarrow> daemon" where
  "announce_groups cfg env uniform dm =
     dm\<lparr>dm_dests := snd (announce_due cfg uniform (ce_now env) (dm_dests dm))\<rparr>"

definition announce_channels :: "hub_config \<Rightarrow> net_env \<Rightarrow> daemon \<Rightarrow> daemon" where
  "announce_channels cfg env dm =
     (let x = dm_sched dm
      in dm\<lparr>dm_sched := x\<lparr>
        x_control := map_option (\<lambda>c. snd (control_announce_due cfg (ce_now env) c)) (x_control x),
        x_directory := map_option (\<lambda>d. snd (directory_announce_due cfg (ce_now env) d)) (x_directory x)\<rparr>\<rparr>)"

definition failover_turn :: "hub_config \<Rightarrow> net_env \<Rightarrow> daemon \<Rightarrow> daemon" where
  "failover_turn cfg env dm =
     (case dm_failover dm of
        None \<Rightarrow> dm
      | Some f \<Rightarrow>
          let (_, f1, s1) = check_due cfg f (dm_dests dm) (he_pretty env) (ce_now env) (dm_store dm)
          in dm\<lparr>dm_failover := Some f1, dm_sched := upd_store (\<lambda>_. s1) (dm_sched dm)\<rparr>)"

definition daemon_prune :: "hub_config \<Rightarrow> net_env \<Rightarrow> daemon \<Rightarrow> daemon" where
  "daemon_prune cfg env dm =
     (let now = ce_now env;
          s1 = snd (hub_prune cfg now (dm_store dm));
          s2 = snd (prune_unlink_codes now (snd (prune_link_codes now s1)));
          x = upd_store (\<lambda>_. s2) (dm_sched dm)
      in dm\<lparr>dm_sched := x\<lparr>x_tickets := snd (clean now (x_tickets x))\<rparr>\<rparr>)"

text \<open>One turn of the loop in \<open>supervise\<close>.\<close>

definition supervise_turn :: "hub_config \<Rightarrow> net_env \<Rightarrow> (real \<Rightarrow> real) \<Rightarrow> daemon \<Rightarrow> daemon" where
  "supervise_turn cfg env uniform dm =
     (let now = ce_now env;
          dm1 = (if GROUP_RELOAD_INTERVAL \<le> now - dm_last_reload dm
                 then reload_groups env (dm\<lparr>dm_last_reload := now\<rparr>) else dm);
          dm2 = announce_groups cfg env uniform dm1;
          dm3 = announce_channels cfg env dm2;
          dm4 = failover_turn cfg env dm3
      in if PRUNE_INTERVAL \<le> now - dm_last_prune dm4
         then daemon_prune cfg env (dm4\<lparr>dm_last_prune := now\<rparr>) else dm4)"

section \<open>Group creation and numbers\<close>

text \<open>\<open>GroupHub.create_group\<close>, which tools and tests call on a running hub. \<open>key\<close> is the private key
  of the fresh identity. The row stays if the destination cannot be attached.\<close>

definition hub_create_group ::
    "hub_config \<Rightarrow> net_env \<Rightarrow> bytes \<Rightarrow> string \<Rightarrow> string option \<Rightarrow> string option \<Rightarrow> daemon
     \<Rightarrow> (store_error + group_record) \<times> daemon" where
  "hub_create_group cfg env key gid display_name acl dm =
     (let given = (\<lambda>x default. case x of None \<Rightarrow> default | Some v \<Rightarrow> if v = [] then default else v)
      in case create_group gid (given display_name gid) key (given acl (default_acl_mode cfg)) None (ce_now env)
             (dm_store dm) of
           Inl e \<Rightarrow> (Inl e, dm)
         | Inr (g, s) \<Rightarrow>
             let dm1 = dm\<lparr>dm_sched := upd_store (\<lambda>_. s) (dm_sched dm)\<rparr>
             in (case attach (ce_dest_of env) g (ce_now env) (dm_dests dm) of
                   Inl e \<Rightarrow> (Inl e, dm1)
                 | Inr (_, d) \<Rightarrow> (Inr g, dm1\<lparr>dm_dests := d\<rparr>)))"

definition hub_stats :: "daemon \<Rightarrow> string list" where
  "hub_stats dm =
     [''groups='' @ show_nat (length (attached_groups (dm_dests dm))),
      ''egress_queue='' @ show_nat (egress_depth (dm_store dm)),
      ''notice_queue='' @ show_nat (notice_depth (dm_store dm)),
      ''control_queue='' @ show_nat (control_depth (dm_store dm))]"

lemma create_group_row:
  assumes "create_group gid name key acl created now s = Inr (g, s')"
  shows "g_id g = gid" "g_key g = key" "get_group gid s' = Some g"
proof -
  obtain rows where i: "sql_insert g_id g (s_groups s) = Some rows" "s' = s\<lparr>s_groups := rows\<rparr>"
    and g: "g_id g = gid" "g_key g = key"
    using assms by (auto simp: create_group_def Let_def split: if_splits option.splits)
  show "g_id g = gid" "g_key g = key"
    by (fact g)+
  have "\<not> has_key g_id gid (s_groups s)" "rows = s_groups s @ [g]"
    using i(1) g by (auto simp: sql_insert_def split: if_splits)
  then show "get_group gid s' = Some g"
    using i(2) g(1) by (simp add: get_group_def sql_lookup_append sql_lookup_None [THEN iffD2] sql_lookup_Cons)
qed

lemma created_group_is_served:
  assumes "hub_create_group cfg env key gid display_name acl dm = (Inr g, dm')"
    and "destinations_ok (dm_dests dm)" and "destination_for gid (dm_dests dm) = None"
    and "\<And>h. ce_dest_of env key = Some h \<Longrightarrow> group_for_hash h (dm_dests dm) = None"
  shows "\<exists>h. ce_dest_of env key = Some h \<and> destination_for gid (dm_dests dm') = Some h" (is "\<exists>h. _ \<and> ?served h")
    and "destinations_ok (dm_dests dm')" and "g_id g = gid" and "get_group gid (dm_store dm') = Some g"
proof -
  from assms(1) obtain s h d where c: "g_id g = gid" "g_key g = key" "get_group gid s = Some g"
    and a: "attach (ce_dest_of env) g (ce_now env) (dm_dests dm) = Inr (h, d)"
    and dm': "dm' = dm\<lparr>dm_sched := upd_store (\<lambda>_. s) (dm_sched dm), dm_dests := d\<rparr>"
    unfolding hub_create_group_def Let_def
    by (simp split: sum.splits prod.splits) (rule that, rule create_group_row(1), assumption, rule create_group_row(2),
        assumption, rule create_group_row(3), assumption, assumption, erule sym)
  have h: "ce_dest_of env key = Some h"
    using a c assms(3) by (auto simp: attach_def group_destination_hash_def split: option.splits)
  note at = destinations_ok_attach [OF assms(2) a] 
  show "\<exists>h. ce_dest_of env key = Some h \<and> ?served h" "destinations_ok (dm_dests dm')"
    using at assms(4) [OF h] h c by (auto simp: dm')
  show "g_id g = gid" "get_group gid (dm_store dm') = Some g"
    using c by (simp_all add: dm' dm_store_def x_store_def upd_store_def)
qed

end
