(* ===== verification/Settings.thy ===== *)
theory Settings
  imports Config "HOL-Library.Monad_Syntax"
begin

text \<open>
  Reading the configuration file, \<open>_build\<close>, \<open>from_dict\<close>, \<open>load\<close> and the paths of
  \<open>lxmf_hub/config.py\<close>. A dataclass instance is a named list of settings, and a class is its
  instance of defaults, as \<open>_build\<close> reads it. The file system, the JSON parser and the resolution of
  paths are arguments; the file is taken to hold a JSON object.
\<close>

section \<open>Building a configuration\<close>

datatype setting = Plain pyval | Section string "(string \<times> setting) list"

definition unknown_keys :: "(string \<times> 'a) list \<Rightarrow> (string \<times> pyval) list \<Rightarrow> string list" where
  "unknown_keys fs data = sort (remdups (filter (\<lambda>k. k \<notin> fst ` set fs) (map fst data)))"

definition unknown_error :: "string \<Rightarrow> string list \<Rightarrow> store_error" where
  "unknown_error cls ks = ValueError (''Unknown configuration keys for '' @ cls @ '': '' @ join_with '', '' ks)"

fun str_items :: "(pyval \<times> pyval) list \<Rightarrow> (string \<times> pyval) list" where
  "str_items [] = []"
| "str_items ((VStr k, v) # kvs) = (k, v) # str_items kvs"
| "str_items (_ # kvs) = str_items kvs"

text \<open>\<open>known\<close> is a set in the code, so which of two bad sections is reported is not determined there;
  here it is the first in declaration order.\<close>

fun build_value :: "setting \<Rightarrow> pyval \<Rightarrow> store_error + setting"
  and build_fields :: "(string \<times> setting) list \<Rightarrow> (string \<times> pyval) list \<Rightarrow> store_error + (string \<times> setting) list"
where
  "build_value (Section cls fs) (VDict kvs) =
     (if unknown_keys fs (str_items kvs) \<noteq> [] then Inl (unknown_error cls (unknown_keys fs (str_items kvs)))
      else case build_fields fs (str_items kvs) of Inl e \<Rightarrow> Inl e | Inr gs \<Rightarrow> Inr (Section cls gs))"
| "build_value current v = Inr (Plain v)"
| "build_fields [] data = Inr []"
| "build_fields ((name, current) # fs) data =
     (case (case map_of data name of None \<Rightarrow> Inr current | Some v \<Rightarrow> build_value current v) of
        Inl e \<Rightarrow> Inl e
      | Inr x \<Rightarrow> (case build_fields fs data of Inl e \<Rightarrow> Inl e | Inr gs \<Rightarrow> Inr ((name, x) # gs)))"

section \<open>The sections and their defaults\<close>

definition EgressConfig :: setting where
  "EgressConfig = Section ''EgressConfig''
     [(''tokens_per_second'', Plain (VFloat (1 / 2))), (''burst'', Plain (VInt 4)), (''max_attempts'', Plain (VInt 10)),
      (''retry_backoff_sec'', Plain (VFloat 60)), (''retry_backoff_max_sec'', Plain (VFloat 3600)),
      (''batch_size'', Plain (VInt 8)), (''prefer_propagation'', Plain (VBool True)),
      (''propagation_node'', Plain VNone), (''stamp_cost'', Plain VNone),
      (''path_request_grace_sec'', Plain (VFloat 15)), (''unverified_hold_sec'', Plain (VFloat 120)),
      (''delivery_timeout_sec'', Plain (VFloat 600))]"

definition FederationConfig :: setting where
  "FederationConfig = Section ''FederationConfig''
     [(''enabled'', Plain (VBool True)), (''peers'', Plain (VList [])), (''sync_interval_sec'', Plain (VFloat 300)),
      (''epoch_seconds'', Plain (VInt 3600)), (''merkle_depth'', Plain (VInt 8)), (''retention_epochs'', Plain (VInt 168)),
      (''link_timeout_sec'', Plain (VFloat 30)), (''request_timeout_sec'', Plain (VFloat 20)),
      (''max_fetch_batch'', Plain (VInt 256))]"

definition FailoverConfig :: setting where
  "FailoverConfig = Section ''FailoverConfig''
     [(''enabled'', Plain (VBool True)), (''peer_timeout_sec'', Plain (VFloat 1800)),
      (''check_interval_sec'', Plain (VFloat 60)), (''notify_clients'', Plain (VBool True)),
      (''notify_isolation'', Plain (VBool True))]"

definition DirectoryConfig :: setting where
  "DirectoryConfig = Section ''DirectoryConfig''
     [(''enabled'', Plain (VBool True)), (''min_reply_interval_sec'', Plain (VFloat 60))]"

definition CommandsConfig :: setting where
  "CommandsConfig = Section ''CommandsConfig''
     [(''enabled'', Plain (VBool True)), (''min_reply_interval_sec'', Plain (VFloat 10))]"

definition AtRestConfig :: setting where
  "AtRestConfig = Section ''AtRestConfig'' [(''mode'', Plain (VStr ''keyfile'')), (''keyfile'', Plain VNone)]"

definition HubConfig :: setting where
  "HubConfig = Section ''HubConfig''
     [(''storage_path'', Plain (VStr ''~/.lxmf_hub'')), (''reticulum_config_path'', Plain VNone),
      (''hub_name'', Plain (VStr ''LXMF Group Hub'')), (''announce_interval_sec'', Plain (VFloat 1800)),
      (''announce_jitter_sec'', Plain (VFloat 60)), (''default_acl_mode'', Plain (VStr ''invite'')),
      (''author_field'', Plain (VInt 253)), (''author_prefix_in_content'', Plain (VBool True)),
      (''log_level'', Plain (VInt 4)), (''operator_identity'', Plain VNone), (''at_rest'', AtRestConfig),
      (''egress'', EgressConfig), (''federation'', FederationConfig), (''failover'', FailoverConfig),
      (''directory'', DirectoryConfig), (''commands'', CommandsConfig)]"

definition from_dict :: "(pyval \<times> pyval) list \<Rightarrow> store_error + setting" where
  "from_dict data = build_value HubConfig (VDict data)"

text \<open>\<open>FileMissing\<close> and \<open>NotJson\<close> are what \<open>open\<close> and \<open>json.load\<close> raise.\<close>

datatype load_error = FileMissing string | NotJson string | BadKeys store_error

definition load_config ::
    "(string \<Rightarrow> string) \<Rightarrow> (bytes \<Rightarrow> string + (pyval \<times> pyval) list) \<Rightarrow> (string \<Rightarrow> bytes option) \<Rightarrow> string option
     \<Rightarrow> load_error + setting" where
  "load_config expanduser parse_json fs path =
     (case path of
        None \<Rightarrow> Inr HubConfig
      | Some p \<Rightarrow>
          (case fs (expanduser p) of
             None \<Rightarrow> Inl (FileMissing (expanduser p))
           | Some contents \<Rightarrow>
               (case parse_json contents of
                  Inl m \<Rightarrow> Inl (NotJson m)
                | Inr data \<Rightarrow> (case from_dict data of Inl e \<Rightarrow> Inl (BadKeys e) | Inr cfg \<Rightarrow> Inr cfg))))"

section \<open>Reading settings\<close>

fun field :: "string \<Rightarrow> setting \<Rightarrow> setting option" where
  "field n (Section cls fs) = map_of fs n"
| "field n (Plain v) = None"

fun setting_at :: "string list \<Rightarrow> setting \<Rightarrow> setting option" where
  "setting_at [] c = Some c"
| "setting_at (n # ns) c = (case field n c of None \<Rightarrow> None | Some d \<Rightarrow> setting_at ns d)"

text \<open>\<open>resolve\<close> is \<open>os.path.abspath(os.path.expanduser(...))\<close> and \<open>path_join\<close> is \<open>os.path.join\<close>.\<close>

definition storage_path :: "setting \<Rightarrow> string" where
  "storage_path c = (case setting_at [''storage_path''] c of Some (Plain (VStr p)) \<Rightarrow> p | _ \<Rightarrow> '''')"

definition resolved_storage_path :: "(string \<Rightarrow> string) \<Rightarrow> setting \<Rightarrow> string" where
  "resolved_storage_path resolve c = resolve (storage_path c)"

definition resolved_reticulum_config_path :: "(string \<Rightarrow> string) \<Rightarrow> setting \<Rightarrow> string option" where
  "resolved_reticulum_config_path resolve c =
     (case setting_at [''reticulum_config_path''] c of Some (Plain (VStr p)) \<Rightarrow> Some (resolve p) | _ \<Rightarrow> None)"

definition database_path :: "(string \<Rightarrow> string) \<Rightarrow> (string \<Rightarrow> string \<Rightarrow> string) \<Rightarrow> setting \<Rightarrow> string" where
  "database_path resolve path_join c = path_join (resolved_storage_path resolve c) ''hub.db''"

definition identity_path :: "(string \<Rightarrow> string) \<Rightarrow> (string \<Rightarrow> string \<Rightarrow> string) \<Rightarrow> setting \<Rightarrow> string" where
  "identity_path resolve path_join c = path_join (resolved_storage_path resolve c) ''hub_identity''"

definition directory_identity_path :: "(string \<Rightarrow> string) \<Rightarrow> (string \<Rightarrow> string \<Rightarrow> string) \<Rightarrow> setting \<Rightarrow> string" where
  "directory_identity_path resolve path_join c = path_join (resolved_storage_path resolve c) ''directory_identity''"

definition at_rest_keyfile :: "(string \<Rightarrow> string) \<Rightarrow> (string \<Rightarrow> string \<Rightarrow> string) \<Rightarrow> setting \<Rightarrow> string" where
  "at_rest_keyfile resolve path_join c =
     (case setting_at [''at_rest'', ''keyfile''] c of
        Some (Plain (VStr p)) \<Rightarrow> if p = '''' then path_join (resolved_storage_path resolve c) ''at_rest.key'' else resolve p
      | _ \<Rightarrow> path_join (resolved_storage_path resolve c) ''at_rest.key'')"

section \<open>What a file configures\<close>

text \<open>The reference: what the file must not contain, and what each setting is then.\<close>

fun known_only :: "setting \<Rightarrow> pyval \<Rightarrow> bool" and known_fields :: "(string \<times> setting) list \<Rightarrow> (string \<times> pyval) list \<Rightarrow> bool"
where
  "known_only (Section cls fs) (VDict kvs) \<longleftrightarrow>
     fst ` set (str_items kvs) \<subseteq> fst ` set fs \<and> known_fields fs (str_items kvs)"
| "known_only current v \<longleftrightarrow> True"
| "known_fields [] data \<longleftrightarrow> True"
| "known_fields ((name, current) # fs) data \<longleftrightarrow>
     (case map_of data name of None \<Rightarrow> True | Some v \<Rightarrow> known_only current v) \<and> known_fields fs data"

fun configured :: "string list \<Rightarrow> setting \<Rightarrow> pyval option \<Rightarrow> setting option" where
  "configured ns current None = setting_at ns current"
| "configured [] (Section cls fs) (Some (VDict kvs)) = None"
| "configured [] current (Some v) = Some (Plain v)"
| "configured (n # ns) (Section cls fs) (Some (VDict kvs)) =
     (case map_of fs n of None \<Rightarrow> None | Some d \<Rightarrow> configured ns d (map_of (str_items kvs) n))"
| "configured (n # ns) current (Some v) = None"

lemma unknown_keys_empty: "unknown_keys fs data = [] \<longleftrightarrow> fst ` set data \<subseteq> fst ` set fs"
proof -
  have "unknown_keys fs data = [] \<longleftrightarrow> set (unknown_keys fs data) = {}"
    by simp
  then show ?thesis
    by (auto simp: unknown_keys_def)
qed

lemma build_known:
  "isl (build_value c v) = (\<not> known_only c v)"
  "isl (build_fields fs data) = (\<not> known_fields fs data)"
  by (induction c v and fs data rule: known_only_known_fields.induct)
    (auto simp: unknown_keys_empty split: sum.splits option.splits)

lemma build_fields_lookup:
  "build_fields fs data = Inr gs \<Longrightarrow>
   (case map_of fs n of None \<Rightarrow> map_of gs n = None
    | Some d \<Rightarrow> (case map_of data n of None \<Rightarrow> map_of gs n = Some d
        | Some v \<Rightarrow> \<exists>x. build_value d v = Inr x \<and> map_of gs n = Some x))"
proof (induction fs arbitrary: gs)
  case (Cons f fs)
  obtain m d where f: "f = (m, d)"
    by (cases f)
  obtain x gs' where x: "(case map_of data m of None \<Rightarrow> Inr d | Some v \<Rightarrow> build_value d v) = Inr x"
    "build_fields fs data = Inr gs'" "gs = (m, x) # gs'"
    using Cons.prems by (auto simp: f split: sum.splits)
  show ?case
    using Cons.IH [OF x(2)] x(1,3) f by (auto split: option.splits)
qed simp

lemma build_plain: "build_value c v = Inr x \<Longrightarrow> (\<nexists>cls fs kvs. c = Section cls fs \<and> v = VDict kvs) \<Longrightarrow> x = Plain v"
  by (cases "(c, v)" rule: build_value.cases) auto

text \<open>Every plain setting is the one the file gives, and the default where it gives none.\<close>

lemma build_configured:
  "build_value c v = Inr x \<Longrightarrow> setting_at ns x = Some (Plain p) \<longleftrightarrow> configured ns c (Some v) = Some (Plain p)"
proof (induction ns arbitrary: c v x)
  case Nil
  then show ?case
    by (cases c; cases v) (auto split: if_splits sum.splits)
next
  case (Cons n ns)
  show ?case
  proof (cases "\<exists>cls fs kvs. c = Section cls fs \<and> v = VDict kvs")
    case True
    then obtain cls fs kvs where c: "c = Section cls fs" "v = VDict kvs"
      by blast
    then obtain gs where gs: "build_fields fs (str_items kvs) = Inr gs" "x = Section cls gs"
      using Cons.prems by (auto split: if_splits sum.splits)
    show ?thesis
      using build_fields_lookup [OF gs(1), of n] Cons.IH
      by (cases "map_of fs n"; cases "map_of (str_items kvs) n") (auto simp: c gs(2))
  next
    case False
    then show ?thesis
      using build_plain [OF Cons.prems] by (cases c; cases v) auto
  qed
qed

section \<open>Typed settings\<close>

text \<open>The attributes of a configuration, where each holds a value of the type it is declared with; an
  integer serves as a float. The code reads them without a check.\<close>

definition real_at :: "string list \<Rightarrow> setting \<Rightarrow> real option" where
  "real_at p c = (case setting_at p c of Some (Plain (VFloat x)) \<Rightarrow> Some x | Some (Plain (VInt i)) \<Rightarrow> Some (real_of_int i) | _ \<Rightarrow> None)"

definition int_at :: "string list \<Rightarrow> setting \<Rightarrow> int option" where
  "int_at p c = (case setting_at p c of Some (Plain (VInt i)) \<Rightarrow> Some i | _ \<Rightarrow> None)"

definition nat_at :: "string list \<Rightarrow> setting \<Rightarrow> nat option" where
  "nat_at p c = (case int_at p c of Some i \<Rightarrow> if 0 \<le> i then Some (nat i) else None | None \<Rightarrow> None)"

definition bool_at :: "string list \<Rightarrow> setting \<Rightarrow> bool option" where
  "bool_at p c = (case setting_at p c of Some (Plain (VBool b)) \<Rightarrow> Some b | _ \<Rightarrow> None)"

definition str_at :: "string list \<Rightarrow> setting \<Rightarrow> string option" where
  "str_at p c = (case setting_at p c of Some (Plain (VStr s)) \<Rightarrow> Some s | _ \<Rightarrow> None)"

fun strings_of :: "pyval list \<Rightarrow> string list option" where
  "strings_of [] = Some []"
| "strings_of (VStr s # vs) = map_option (\<lambda>ss. s # ss) (strings_of vs)"
| "strings_of (_ # vs) = None"

text \<open>\<open>None\<close>, one string or a list of strings.\<close>

definition strings_at :: "string list \<Rightarrow> setting \<Rightarrow> string list option" where
  "strings_at p c = (case setting_at p c of
     Some (Plain VNone) \<Rightarrow> Some [] | Some (Plain (VStr s)) \<Rightarrow> Some [s] | Some (Plain (VList vs)) \<Rightarrow> strings_of vs | _ \<Rightarrow> None)"

definition egress_of :: "setting \<Rightarrow> egress_config option" where
  "egress_of c = do {
     rate \<leftarrow> real_at [''egress'', ''tokens_per_second''] c; size \<leftarrow> real_at [''egress'', ''burst''] c;
     attempts \<leftarrow> nat_at [''egress'', ''max_attempts''] c; wait \<leftarrow> real_at [''egress'', ''retry_backoff_sec''] c;
     cap \<leftarrow> real_at [''egress'', ''retry_backoff_max_sec''] c; batch \<leftarrow> nat_at [''egress'', ''batch_size''] c;
     prefer \<leftarrow> bool_at [''egress'', ''prefer_propagation''] c; grace \<leftarrow> real_at [''egress'', ''path_request_grace_sec''] c;
     hold \<leftarrow> real_at [''egress'', ''unverified_hold_sec''] c; limit \<leftarrow> real_at [''egress'', ''delivery_timeout_sec''] c;
     Some \<lparr>tokens_per_second = rate, burst = size, max_attempts = attempts, retry_backoff_sec = wait,
       retry_backoff_max_sec = cap, batch_size = batch, prefer_propagation = prefer, path_request_grace_sec = grace,
       unverified_hold_sec = hold, delivery_timeout_sec = limit\<rparr>}"

definition federation_of :: "setting \<Rightarrow> federation_config option" where
  "federation_of c = do {
     on \<leftarrow> bool_at [''federation'', ''enabled''] c; ps \<leftarrow> strings_at [''federation'', ''peers''] c;
     interval \<leftarrow> real_at [''federation'', ''sync_interval_sec''] c; seconds \<leftarrow> int_at [''federation'', ''epoch_seconds''] c;
     depth \<leftarrow> int_at [''federation'', ''merkle_depth''] c; keep \<leftarrow> int_at [''federation'', ''retention_epochs''] c;
     batch \<leftarrow> nat_at [''federation'', ''max_fetch_batch''] c;
     Some \<lparr>fed_enabled = on, peers = ps, sync_interval_sec = interval, epoch_seconds = seconds, merkle_depth = depth,
       retention_epochs = keep, max_fetch_batch = batch\<rparr>}"

definition failover_of :: "setting \<Rightarrow> failover_config option" where
  "failover_of c = do {
     on \<leftarrow> bool_at [''failover'', ''enabled''] c; limit \<leftarrow> real_at [''failover'', ''peer_timeout_sec''] c;
     interval \<leftarrow> real_at [''failover'', ''check_interval_sec''] c; clients \<leftarrow> bool_at [''failover'', ''notify_clients''] c;
     isolation \<leftarrow> bool_at [''failover'', ''notify_isolation''] c;
     Some \<lparr>fo_enabled = on, peer_timeout_sec = limit, check_interval_sec = interval, notify_clients = clients,
       notify_isolation = isolation\<rparr>}"

definition hub_config_of :: "setting \<Rightarrow> hub_config option" where
  "hub_config_of c = do {
     name \<leftarrow> str_at [''hub_name''] c; interval \<leftarrow> real_at [''announce_interval_sec''] c;
     jitter \<leftarrow> real_at [''announce_jitter_sec''] c; acl \<leftarrow> str_at [''default_acl_mode''] c;
     author \<leftarrow> int_at [''author_field''] c; prefix \<leftarrow> bool_at [''author_prefix_in_content''] c;
     operators \<leftarrow> strings_at [''operator_identity''] c; eg \<leftarrow> egress_of c; fed \<leftarrow> federation_of c; fo \<leftarrow> failover_of c;
     dir \<leftarrow> bool_at [''directory'', ''enabled''] c; pause \<leftarrow> real_at [''directory'', ''min_reply_interval_sec''] c;
     cmds \<leftarrow> bool_at [''commands'', ''enabled''] c; wait \<leftarrow> real_at [''commands'', ''min_reply_interval_sec''] c;
     Some \<lparr>hub_name = name, announce_interval_sec = interval, announce_jitter_sec = jitter, default_acl_mode = acl,
       author_field = author, author_prefix_in_content = prefix, operator_identity = operators, egress_cfg = eg,
       federation_cfg = fed, failover_cfg = fo, directory_cfg = \<lparr>dir_enabled = dir, dir_min_reply_interval = pause\<rparr>,
       commands_cfg = \<lparr>cmd_enabled = cmds, cmd_min_reply_interval = wait\<rparr>\<rparr>}"

text \<open>The two tables of defaults agree.\<close>

lemma hub_sections:
  "field ''egress'' HubConfig = Some EgressConfig" "field ''federation'' HubConfig = Some FederationConfig"
  "field ''failover'' HubConfig = Some FailoverConfig" "field ''directory'' HubConfig = Some DirectoryConfig"
  "field ''commands'' HubConfig = Some CommandsConfig"
  by (simp_all add: HubConfig_def)

lemmas typed_defs = real_at_def int_at_def nat_at_def bool_at_def str_at_def strings_at_def

lemma section_defaults:
  "egress_of HubConfig = Some default_egress"
  "federation_of HubConfig = Some default_federation"
  "failover_of HubConfig = Some default_failover"
proof -
  show "egress_of HubConfig = Some default_egress"
    by (simp add: egress_of_def typed_defs hub_sections EgressConfig_def default_egress_def)
  show "federation_of HubConfig = Some default_federation"
    by (simp add: federation_of_def typed_defs hub_sections FederationConfig_def default_federation_def)
  show "failover_of HubConfig = Some default_failover"
    by (simp add: failover_of_def typed_defs hub_sections FailoverConfig_def default_failover_def)
qed

lemma hub_config_defaults: "hub_config_of HubConfig = Some default_config"
proof -
  have plain: "str_at [''hub_name''] HubConfig = Some ''LXMF Group Hub''" "real_at [''announce_interval_sec''] HubConfig = Some 1800"
    "real_at [''announce_jitter_sec''] HubConfig = Some 60" "str_at [''default_acl_mode''] HubConfig = Some ''invite''"
    "int_at [''author_field''] HubConfig = Some 253" "bool_at [''author_prefix_in_content''] HubConfig = Some True"
    "strings_at [''operator_identity''] HubConfig = Some []"
    by (simp_all add: typed_defs HubConfig_def)
  have sections: "bool_at [''directory'', ''enabled''] HubConfig = Some True"
    "real_at [''directory'', ''min_reply_interval_sec''] HubConfig = Some 60"
    "bool_at [''commands'', ''enabled''] HubConfig = Some True"
    "real_at [''commands'', ''min_reply_interval_sec''] HubConfig = Some 10"
    by (simp_all add: typed_defs hub_sections DirectoryConfig_def CommandsConfig_def)
  show ?thesis
    unfolding hub_config_of_def plain sections section_defaults
    by (simp add: default_config_def default_directory_def default_commands_def)
qed

end
