(* ===== verification/Startup.thy ===== *)
theory Startup
  imports Daemon Directory Control Settings
begin

text \<open>
  Processes: the start of the daemon (\<open>HubDaemon.start\<close> and the constructors it calls), the
  migration and opening of the database, and \<open>main\<close> of \<open>lxmf_hub/cli.py\<close>. An RNS identity is known
  by its delivery destination hash, which \<open>bo_dest_of\<close> gives for a key RNS can load. What RNS and the
  router do while starting is not modelled.
\<close>

section \<open>The database\<close>

text \<open>A table of a database file: its columns and its rows.\<close>

record 'v sql_table =
  st_columns :: "string list"
  st_rows :: "(string \<Rightarrow> 'v option) list"

type_synonym 'v sql_database = "string \<Rightarrow> 'v sql_table"

text \<open>\<open>ALTER TABLE ... ADD COLUMN ... DEFAULT\<close> of a column that is not present.\<close>

definition add_column :: "string \<Rightarrow> 'v \<Rightarrow> 'v sql_table \<Rightarrow> 'v sql_table" where
  "add_column c value t =
     (if c \<in> set (st_columns t) then t
      else \<lparr>st_columns = st_columns t @ [c], st_rows = map (\<lambda>r. r(c \<mapsto> value)) (st_rows t)\<rparr>)"

definition MIGRATIONS :: "(string \<times> string) list" where
  "MIGRATIONS = [(''egress_queue'', ''graces''), (''notice_queue'', ''graces'')]"

definition migrate :: "'v \<Rightarrow> 'v sql_database \<Rightarrow> 'v sql_database" where
  "migrate zero db = fold (\<lambda>(t, c) d. d(t := add_column c zero (d t))) MIGRATIONS db"

text \<open>Opening a database that has been migrated.\<close>

definition open_store ::
    "crypto_env \<Rightarrow> bytes \<Rightarrow> string \<Rightarrow> string \<Rightarrow> files \<Rightarrow> store \<Rightarrow> (store_error + bytes option) \<times> files \<times> store" where
  "open_store cr iv mode keyfile fs s =
     (if mode = MODE_NONE then (Inr None, fs, s)
      else case bind_cipher cr iv mode keyfile None fs s of
        (Inl e, _, fs1, s1) \<Rightarrow> (Inl e, fs1, s1)
      | (Inr _, cipher, fs1, s1) \<Rightarrow> (Inr cipher, fs1, s1))"

section \<open>Starting the daemon\<close>

record boot_env =
  bo_now :: time
  bo_crypto :: crypto_env
  bo_iv :: bytes
  bo_dest_of :: "bytes \<Rightarrow> bytes option"
  bo_new_key :: "string \<Rightarrow> bytes"
  bo_registered :: "bytes option"
  bo_tickets :: ticket_cache
  bo_resolve :: "string \<Rightarrow> string"
  bo_path_join :: "string \<Rightarrow> string \<Rightarrow> string"

text \<open>The settings \<open>start\<close> reads beside those of \<open>hub_config\<close>; \<open>bs_node\<close> is empty for none.\<close>

record boot_settings =
  bs_mode :: string
  bs_keyfile :: string
  bs_node :: string
  bs_identity :: string
  bs_directory :: string

definition boot_settings_of :: "boot_env \<Rightarrow> setting \<Rightarrow> boot_settings option" where
  "boot_settings_of env c =
     (case (str_at [''at_rest'', ''mode''] c, setting_at [''egress'', ''propagation_node''] c) of
        (Some mode, Some (Plain node)) \<Rightarrow>
          (case (case node of VNone \<Rightarrow> Some [] | VStr s \<Rightarrow> Some s | _ \<Rightarrow> None) of
             None \<Rightarrow> None
           | Some n \<Rightarrow> Some \<lparr>bs_mode = mode, bs_keyfile = at_rest_keyfile (bo_resolve env) (bo_path_join env) c, bs_node = n,
               bs_identity = identity_path (bo_resolve env) (bo_path_join env) c,
               bs_directory = directory_identity_path (bo_resolve env) (bo_path_join env) c\<rparr>)
      | _ \<Rightarrow> None)"

definition load_identity :: "boot_env \<Rightarrow> string \<Rightarrow> string \<Rightarrow> files \<Rightarrow> (store_error + bytes) \<times> files" where
  "load_identity env label path fs =
     (case fs path of
        Some raw \<Rightarrow>
          (if bo_dest_of env raw = None
           then Inl (ValueError (''Could not load '' @ label @ '' identity from '' @ path)) else Inr raw, fs)
      | None \<Rightarrow> (Inr (bo_new_key env path), fs(path \<mapsto> bo_new_key env path)))"

definition load_hub_identity :: "boot_env \<Rightarrow> string \<Rightarrow> files \<Rightarrow> (store_error + bytes) \<times> files" where
  "load_hub_identity env path fs = load_identity env ''hub'' path fs"

definition load_directory_identity :: "boot_env \<Rightarrow> string \<Rightarrow> files \<Rightarrow> (store_error + bytes) \<times> files" where
  "load_directory_identity env path fs = load_identity env ''directory'' path fs"

definition new_hub :: "time \<Rightarrow> store \<Rightarrow> hub" where
  "new_hub now s = \<lparr>h_store = s, h_commands = Some \<lparr>uc_started = now, uc_answered = []\<rparr>, h_unverified = [], h_requests = []\<rparr>"

definition new_directory :: directory where
  "new_directory = \<lparr>dr_dest = None, dr_answered = [], dr_next_announce = 0\<rparr>"

definition start_directory :: "hub_config \<Rightarrow> boot_env \<Rightarrow> string \<Rightarrow> files \<Rightarrow> (store_error + directory) \<times> files" where
  "start_directory cfg env path fs =
     (if \<not> dir_enabled (directory_cfg cfg) then (Inr new_directory, fs)
      else case load_directory_identity env path fs of
        (Inl e, fs1) \<Rightarrow> (Inl e, fs1)
      | (Inr key, fs1) \<Rightarrow> (Inr (new_directory\<lparr>dr_dest := bo_dest_of env key\<rparr>), fs1))"

definition new_sched :: "hub_config \<Rightarrow> boot_env \<Rightarrow> hub \<Rightarrow> control \<Rightarrow> directory \<Rightarrow> sched" where
  "new_sched cfg env h c d =
     \<lparr>x_hub = h, x_control = Some c, x_directory = Some d,
       x_bucket = new_bucket (tokens_per_second (egress_cfg cfg)) (burst (egress_cfg cfg)) (bo_now env),
       x_inflight = (\<lambda>_. None), x_fresh = 0, x_outbox = [], x_tickets = [], x_cache = bo_tickets env\<rparr>"

text \<open>The federation engine is built only where federation is enabled, and failover only with it.\<close>

definition start_federation :: "hub_config \<Rightarrow> time \<Rightarrow> store_error + (engine option \<times> failover option)" where
  "start_federation cfg now =
     (if \<not> fed_enabled (federation_cfg cfg) then Inr (None, None)
      else case new_engine cfg of
        Inl e \<Rightarrow> Inl e
      | Inr en \<Rightarrow> Inr (Some en,
          if fo_enabled (failover_cfg cfg) then Some (new_failover cfg (en_peers en) now) else None))"

text \<open>The rest of \<open>start\<close> once the database is open and the hub identity is loaded.\<close>

definition assemble ::
    "hub_config \<Rightarrow> boot_env \<Rightarrow> boot_settings \<Rightarrow> files \<Rightarrow> store \<Rightarrow> (store_error + daemon \<times> engine option) \<times> files" where
  "assemble cfg env bs fs s =
     (case new_control cfg of
        Inl e \<Rightarrow> (Inl e, fs)
      | Inr c0 \<Rightarrow>
          let c = snd (start_control (bo_registered env) c0)
          in case (if bs_node bs = [] then Inr [] else propagation_hash (bs_node bs)) of
               Inl e \<Rightarrow> (Inl e, fs)
             | Inr _ \<Rightarrow>
                 (case start_directory cfg env (bs_directory bs) fs of
                    (Inl e, fs1) \<Rightarrow> (Inl e, fs1)
                  | (Inr d, fs1) \<Rightarrow>
                      (case load_groups (bo_dest_of env) (bo_now env) s no_destinations of
                         (Inl e, _) \<Rightarrow> (Inl e, fs1)
                       | (Inr _, ds) \<Rightarrow>
                           (case start_federation cfg (bo_now env) of
                              Inl e \<Rightarrow> (Inl e, fs1)
                            | Inr (en, fo) \<Rightarrow>
                                (Inr (\<lparr>dm_sched = new_sched cfg env (new_hub (bo_now env) s) c d, dm_dests = ds,
                                   dm_failover = fo, dm_last_reload = 0, dm_last_prune = bo_now env\<rparr>, en), fs1)))))"

definition start ::
    "hub_config \<Rightarrow> boot_env \<Rightarrow> boot_settings \<Rightarrow> files \<Rightarrow> store
     \<Rightarrow> (store_error + daemon \<times> engine option) \<times> files \<times> store" where
  "start cfg env bs fs s =
     (case open_store (bo_crypto env) (bo_iv env) (bs_mode bs) (bs_keyfile bs) fs s of
        (Inl e, fs1, s1) \<Rightarrow> (Inl e, fs1, s1)
      | (Inr _, fs1, s1) \<Rightarrow>
          (case load_hub_identity env (bs_identity bs) fs1 of
             (Inl e, fs2) \<Rightarrow> (Inl e, fs2, s1)
           | (Inr _, fs2) \<Rightarrow> (case assemble cfg env bs fs2 s1 of (res, fs3) \<Rightarrow> (res, fs3, s1))))"

section \<open>The command line\<close>

text \<open>How a process ends: an exit code with what it printed, or an exception nobody catches. \<open>Serving\<close> is
  the daemon that \<open>run\<close> started.\<close>

datatype outcome =
    Exit nat string string
  | Uncaught_Load load_error
  | Uncaught_Type
  | Uncaught_Store store_error
  | Serving daemon

definition control_destination_hash :: "(bytes \<Rightarrow> bytes option) \<Rightarrow> string \<Rightarrow> files \<Rightarrow> bytes option" where
  "control_destination_hash dest_of path fs = (case fs path of None \<Rightarrow> None | Some raw \<Rightarrow> dest_of raw)"

definition print_line :: "string \<Rightarrow> string" where
  "print_line text = (if text = [] then [] else text @ NEWLINE)"

text \<open>A verb of \<open>administer\<close> on the opened database.\<close>

definition run_verb_on_store ::
    "hub_config \<Rightarrow> boot_env \<Rightarrow> boot_settings \<Rightarrow> bytes \<Rightarrow> (string list \<Rightarrow> string) \<Rightarrow> admin_cmd \<Rightarrow> files \<Rightarrow> store
     \<Rightarrow> outcome \<times> files \<times> store" where
  "run_verb_on_store cfg env bs key pick cmd fs s =
     (case open_store (bo_crypto env) (bo_iv env) (bs_mode bs) (bs_keyfile bs) fs s of
        (Inl e, fs1, s1) \<Rightarrow> (Uncaught_Store e, fs1, s1)
      | (Inr _, fs1, s1) \<Rightarrow>
          (case administer cfg (bo_dest_of env)
              (control_destination_hash (bo_dest_of env) (bs_identity bs) fs1) key pick (bo_now env) cmd s1 of
             (Inl (CommandError m), s2) \<Rightarrow> (Exit 1 [] (m @ NEWLINE), fs1, s2)
           | (Inl (AdminRaised e), s2) \<Rightarrow> (Uncaught_Store e, fs1, s2)
           | (Inr answer, s2) \<Rightarrow> (Exit 0 (print_line answer) [], fs1, s2)))"

text \<open>\<open>parse\<close> is the argument parser: the path of the configuration and the command, \<open>None\<close> for \<open>run\<close>.
  \<open>load\<close> is \<open>HubConfig.load\<close>.\<close>

definition cli_main ::
    "(string list \<Rightarrow> string + (string option \<times> admin_cmd option)) \<Rightarrow> (string option \<Rightarrow> load_error + setting)
     \<Rightarrow> boot_env \<Rightarrow> bytes \<Rightarrow> (string list \<Rightarrow> string) \<Rightarrow> string list \<Rightarrow> files \<Rightarrow> store \<Rightarrow> outcome \<times> files \<times> store" where
  "cli_main parse load env key pick argv fs s =
     (case parse argv of
        Inl m \<Rightarrow> (Exit 2 [] (m @ NEWLINE), fs, s)
      | Inr (path, cmd) \<Rightarrow>
          (case load path of
             Inl e \<Rightarrow> (Uncaught_Load e, fs, s)
           | Inr c \<Rightarrow>
               (case (hub_config_of c, boot_settings_of env c) of
                  (Some cfg, Some bs) \<Rightarrow>
                    (case cmd of
                       Some verb \<Rightarrow> run_verb_on_store cfg env bs key pick verb fs s
                     | None \<Rightarrow>
                         (case start cfg env bs fs s of
                            (Inl e, fs1, s1) \<Rightarrow> (Uncaught_Store e, fs1, s1)
                          | (Inr (dm, en), fs1, s1) \<Rightarrow> (Serving dm, fs1, s1)))
                | _ \<Rightarrow> (Uncaught_Type, fs, s))))"

section \<open>The database when a process ends\<close>

lemma add_column_again: "add_column c v (add_column c v t) = add_column c v t"
  by (simp add: add_column_def)

lemma migrate_table:
  "migrate v db t = (if t \<in> {''egress_queue'', ''notice_queue''} then add_column ''graces'' v (db t) else db t)"
  by (simp add: migrate_def MIGRATIONS_def)

lemma migrate_again: "migrate v (migrate v db) = migrate v db"
proof
  fix t
  show "migrate v (migrate v db) t = migrate v db t"
    unfolding migrate_table [of v "migrate v db"] unfolding migrate_table
    by (cases "t \<in> {''egress_queue'', ''notice_queue''}") (simp_all only: if_True if_False add_column_again not_False_eq_True)
qed

lemma bind_cipher_store: "\<exists>m. snd (snd (snd (bind_cipher cr iv mode path c fs s))) = s\<lparr>s_meta := m\<rparr>"
proof -
  define s1 where "s1 = snd (case meta_get ''at_rest_salt'' s of Some salt \<Rightarrow> (salt, s)
    | None \<Rightarrow> (cr_urandom cr 32, meta_set ''at_rest_salt'' (cr_urandom cr 32) s))"
  have s1: "\<exists>m. s1 = s\<lparr>s_meta := m\<rparr>"
    unfolding s1_def by (cases "meta_get ''at_rest_salt'' s")
      (auto simp: meta_set_def intro: exI [of _ "s_meta s"])
  have "snd (snd (snd (bind_cipher cr iv mode path c fs s))) = s1 \<or>
      (\<exists>k v. snd (snd (snd (bind_cipher cr iv mode path c fs s))) = meta_set k v s1)"
    unfolding bind_cipher_def s1_def [symmetric] by (simp add: s1_def split: prod.split sum.split option.split) blast
  then show ?thesis
    using s1 by (auto simp: meta_set_def)
qed

lemma open_store_meta: "\<exists>m. snd (snd (open_store cr iv mode path fs s)) = s\<lparr>s_meta := m\<rparr>"
proof (cases "mode = MODE_NONE")
  case True
  then show ?thesis
    by (intro exI [of _ "s_meta s"]) (simp add: open_store_def)
next
  case False
  then have "snd (snd (open_store cr iv mode path fs s)) = snd (snd (snd (bind_cipher cr iv mode path None fs s)))"
    by (simp add: open_store_def split: prod.split sum.split)
  then show ?thesis
    using bind_cipher_store by metis
qed

lemma start_store: "snd (snd (start cfg env bs fs s)) =
    snd (snd (open_store (bo_crypto env) (bo_iv env) (bs_mode bs) (bs_keyfile bs) fs s))"
  by (simp add: start_def split: prod.split sum.split)

lemma start_meta: "\<exists>m. snd (snd (start cfg env bs fs s)) = s\<lparr>s_meta := m\<rparr>"
  unfolding start_store by (rule open_store_meta)

lemma assemble_store:
  "assemble cfg env bs fs s = (Inr (dm, en), fs1) \<Longrightarrow> dm_store dm = s"
  by (auto simp: assemble_def dm_store_def x_store_def new_sched_def new_hub_def Let_def split: sum.splits prod.splits if_splits)

lemma start_daemon_store:
  "start cfg env bs fs s = (Inr (dm, en), fs1, s1) \<Longrightarrow> dm_store dm = s1"
  by (auto simp: start_def dest: assemble_store split: sum.splits prod.splits)

section \<open>Attaching the groups\<close>

lemma attach_frame:
  assumes "attach dest_of g now d = Inr (h, d1)" and "destination_for (g_id g) d = None"
  shows "destination_for x d1 = (if x = g_id g then Some h else destination_for x d)"
    "group_for_hash k d1 = (if k = h then Some (g_id g) else group_for_hash k d)" "dest_of (g_key g) = Some h"
  using assms by (auto simp: attach_def destination_for_def group_for_hash_def group_destination_hash_def
      split: option.splits sum.splits)

text \<open>Groups under distinct addresses, none of them taken by another group.\<close>

definition addresses_free :: "(bytes \<Rightarrow> bytes option) \<Rightarrow> group_record list \<Rightarrow> destinations \<Rightarrow> bool" where
  "addresses_free dest_of gs d \<longleftrightarrow> distinct (map g_id gs) \<and> distinct (map (\<lambda>g. dest_of (g_key g)) gs) \<and>
     (\<forall>g \<in> set gs. destination_for (g_id g) d = None \<and>
        (\<forall>h. dest_of (g_key g) = Some h \<longrightarrow> group_for_hash h d = None))"

lemma attach_all_ok:
  "destinations_ok d \<Longrightarrow> addresses_free dest_of gs d \<Longrightarrow> attach_all dest_of gs now d = (Inr ids, d1) \<Longrightarrow>
   destinations_ok d1 \<and> (\<forall>g \<in> set gs. dest_of (g_key g) \<noteq> None \<and> destination_for (g_id g) d1 = dest_of (g_key g)) \<and>
   (\<forall>x. x \<notin> g_id ` set gs \<longrightarrow> destination_for x d1 = destination_for x d)"
proof (induction gs arbitrary: d ids)
  case (Cons g gs)
  have free: "destination_for (g_id g) d = None" and new: "dest_of (g_key g) = Some h \<Longrightarrow> group_for_hash h d = None" for h
    using Cons.prems(2) by (auto simp: addresses_free_def)
  obtain h d2 ids2 where a: "attach dest_of g now d = Inr (h, d2)" and rest: "attach_all dest_of gs now d2 = (Inr ids2, d1)"
    using Cons.prems(3) free by (auto split: sum.splits prod.splits)
  note f = attach_frame [OF a free]
  have ok: "destinations_ok d2"
    using destinations_ok_attach(1) [OF Cons.prems(1) a] new f(3) by blast
  have "addresses_free dest_of gs d2"
    using Cons.prems(2) f by (auto simp: addresses_free_def image_iff)
  from Cons.IH [OF ok this rest] Cons.prems(2) f show ?case
    by (auto simp: addresses_free_def)
qed simp

lemma attach_all_fails:
  "g \<in> set gs \<Longrightarrow> dest_of (g_key g) = None \<Longrightarrow> destination_for (g_id g) d = None \<Longrightarrow> distinct (map g_id gs) \<Longrightarrow>
   isl (fst (attach_all dest_of gs now d))"
proof (induction gs arbitrary: d)
  case (Cons x gs)
  show ?case
  proof (cases "x = g")
    case True
    then show ?thesis
      using Cons.prems by (simp add: attach_def group_destination_hash_def)
  next
    case False
    then have g: "g \<in> set gs" "g_id x \<noteq> g_id g"
      using Cons.prems by auto
    have IH: "isl (fst (attach_all dest_of gs now d2))" if "destination_for (g_id g) d2 = None" for d2
      using Cons.IH [OF g(1) Cons.prems(2) that] Cons.prems(4) by simp
    show ?thesis
    proof (cases "destination_for (g_id x) d = None")
      case False
      then show ?thesis
        using IH [OF Cons.prems(3)] by simp
    next
      case True
      show ?thesis
      proof (cases "attach dest_of x now d")
        case (Inl e)
        then show ?thesis
          using True by simp
      next
        case (Inr r)
        obtain h d2 where r: "r = (h, d2)"
          by (cases r)
        have "isl (fst (attach_all dest_of gs now d2))"
          using attach_frame(1) [OF Inr [unfolded r] True, of "g_id g"] g(2) Cons.prems(3) by (intro IH) simp
        then show ?thesis
          using True Inr r by (simp add: isl_def case_prod_beta split: sum.split) (metis fst_conv sum.distinct(1) surj_pair)
      qed
    qed
  qed
qed simp

lemma assemble_parts:
  assumes "assemble cfg env bs fs s = (Inr (dm, en), fs1)"
  shows "\<exists>c d ids. dm_sched dm = new_sched cfg env (new_hub (bo_now env) s) c d \<and>
    load_groups (bo_dest_of env) (bo_now env) s no_destinations = (Inr ids, dm_dests dm) \<and>
    start_federation cfg (bo_now env) = Inr (en, dm_failover dm)"
  using assms by (auto simp: assemble_def Let_def split: sum.splits prod.splits if_splits) blast+

lemma start_parts:
  assumes "start cfg env bs fs s = (Inr (dm, en), fs1, s1)"
  shows "\<exists>fs2 fs3. assemble cfg env bs fs2 s1 = (Inr (dm, en), fs3)"
  using assms by (auto simp: start_def split: sum.splits prod.splits)

lemma start_federation_parts:
  "start_federation cfg now = Inr (en, fo) \<Longrightarrow>
   (en \<noteq> None \<longleftrightarrow> fed_enabled (federation_cfg cfg)) \<and>
   (fo \<noteq> None \<longleftrightarrow> fed_enabled (federation_cfg cfg) \<and> fo_enabled (failover_cfg cfg))"
  by (auto simp: start_federation_def split: sum.splits if_splits)

end
