(* ===== verification/System.thy ===== *)
theory System
  imports Startup Federation_Safety Egress_Runs
begin

text \<open>
  The running hub as a whole: everything that can happen to the daemon's state, as an inductive
  relation, and the invariant that every reachable database is well-formed. A step is a start or a
  crash of the daemon, one delivery, one scheduler tick, one callback of the router, one sync round
  with a peer that may answer anything, one turn of the supervision loop, or one command of the
  command line, which works on the same database whether or not the daemon runs.
\<close>

section \<open>Sends keep the tables well-formed\<close>

lemma store_ok_sends:
  "store_ok (x_store x) \<Longrightarrow> store_ok (x_store (snd (send cfg env e x)))"
  "store_ok (x_store x) \<Longrightarrow> store_ok (x_store (snd (send_notice cfg env n x)))"
  "store_ok (x_store x) \<Longrightarrow> store_ok (x_store (snd (send_user cfg env u x)))"
  "store_ok (x_store x) \<Longrightarrow> store_ok (x_store (send_control cfg env c x))"
  by (auto simp: send_def send_notice_def send_user_def send_control_def case_prod_beta Let_def split: option.splits)

lemma store_ok_control_retry_held:
  "store_ok (h_store (snd st)) \<Longrightarrow> store_ok (h_store (snd (snd (control_retry_held cfg env xs st))))"
proof (induction xs arbitrary: st)
  case (Cons x xs)
  obtain c h where st: "st = (c, h)"
    by (cases st)
  have "store_ok (h_store (snd (control_handle cfg env m (c, h))))" for m
    using Cons.prems st by (intro store_ok_control_handle) simp
  then show ?case
    using Cons.prems Cons.IH [of "control_handle cfg env _ (c, h)"] Cons.IH [of "(c, h\<lparr>h_requests := _\<rparr>)"] Cons.IH [of "(c, h)"]
    by (simp add: st case_prod_beta Let_def)
qed simp

lemma store_ok_retry_all: "store_ok (x_store x) \<Longrightarrow> store_ok (x_store (snd (retry_all cfg env x)))"
proof -
  assume "store_ok (x_store x)"
  then have "store_ok (h_store (snd (retry_unverified cfg (hub_env.truncate env) (x_hub x))))"
    by (simp add: x_store_def store_ok_retry_unverified)
  then show ?thesis
    by (auto simp: retry_all_def control_retry_unverified_def x_store_def case_prod_beta Let_def
        intro!: store_ok_control_retry_held split: option.splits)
qed

lemma store_ok_tick: "store_ok (x_store x) \<Longrightarrow> store_ok (x_store (snd (tick cfg env x)))"
  by (rule tick_keeps_store [where P = store_ok]) (simp_all add: store_ok_retry_all store_ok_sends)

lemma release_row_store [simp]: "x_store (release_row k i x) = x_store x"
  by (simp add: release_row_def x_store_def)

lemma store_ok_delivered: "store_ok (x_store x) \<Longrightarrow> store_ok (x_store (delivered k i x))"
  by (cases k) (simp_all add: delivered_def complete_row_def)

section \<open>The daemon's steps\<close>

lemma store_ok_deliver_beyond: "store_ok (x_store x) \<Longrightarrow> store_ok (x_store (deliver_beyond_control cfg env m x))"
  using store_ok_directory_handle [of "x_store x" cfg "ce_dest_of env" "ce_now env" m]
    store_ok_handle_inbound [of "x_hub x" cfg "hub_env.truncate env" m]
  by (auto simp: deliver_beyond_control_def x_store_def upd_store_def Let_def case_prod_beta split: option.splits)

lemma store_ok_deliver_to:
  assumes ok: "store_ok (x_store x)"
  shows "store_ok (x_store (deliver_to cfg env ft m x))"
proof -
  define x1 where "x1 = x\<lparr>x_tickets := remember ft (x_valid m)
    \<lparr>l_source = x_source m, l_destination = x_destination m\<rparr> (x_fields m) (x_tickets x)\<rparr>"
  have x1: "store_ok (x_store x1)"
    using ok by (simp add: x1_def x_store_def)
  then have "store_ok (h_store (snd (control_handle cfg env m (c, x_hub x1))))" for c
    by (intro store_ok_control_handle) (simp add: x_store_def)
  then show ?thesis
    unfolding deliver_to_def x1_def [symmetric] Let_def case_prod_beta
    using store_ok_deliver_beyond [OF x1] by (simp add: x_store_def split: option.split)
qed

lemma store_ok_deliver: "store_ok (dm_store dm) \<Longrightarrow> store_ok (dm_store (deliver cfg env ft m dm))"
  by (simp add: deliver_def dm_store_def store_ok_deliver_to)

lemma store_ok_hub_prune: "store_ok s \<Longrightarrow> store_ok (snd (hub_prune cfg now s))"
  by (simp add: hub_prune_def Let_def)

lemma store_ok_turn: "store_ok (dm_store dm) \<Longrightarrow> store_ok (dm_store (supervise_turn cfg env uniform dm))"
proof -
  have f: "store_ok (dm_store d) \<Longrightarrow> store_ok (dm_store (failover_turn cfg env d))" for d
    by (auto simp: failover_turn_def check_due_def dm_store_def store_ok_check Let_def split: option.splits)
  have p: "store_ok (dm_store d) \<Longrightarrow> store_ok (dm_store (daemon_prune cfg env d))" for d
    using store_ok_hub_prune [of "dm_store d" cfg "ce_now env"]
    by (simp add: daemon_prune_def dm_store_def x_store_def Let_def upd_store_def)
  have "dm_store (announce_channels cfg env d) = dm_store d" "dm_store (announce_groups cfg env uniform d) = dm_store d"
    "dm_store (reload_groups env d) = dm_store d" "dm_store (d\<lparr>dm_last_reload := t\<rparr>) = dm_store d"
    "dm_store (d\<lparr>dm_last_prune := t\<rparr>) = dm_store d" for d t
    by (simp_all add: announce_channels_def announce_groups_def reload_groups_def dm_store_def x_store_def Let_def)
  then show "store_ok (dm_store dm) \<Longrightarrow> store_ok (dm_store (supervise_turn cfg env uniform dm))"
    by (simp add: supervise_turn_def Let_def f p)
qed

section \<open>What can happen\<close>

text \<open>The database with the daemon down, or the daemon with its database.\<close>

datatype system = Down store | Up daemon

fun database :: "system \<Rightarrow> store" where
  "database (Down s) = s"
| "database (Up dm) = dm_store dm"

fun set_database :: "store \<Rightarrow> system \<Rightarrow> system" where
  "set_database s (Down s0) = Down s"
| "set_database s (Up dm) = Up (dm\<lparr>dm_sched := upd_store (\<lambda>_. s) (dm_sched dm)\<rparr>)"

lemma database_set [simp]: "database (set_database s y) = s"
  by (cases y) (simp_all add: dm_store_def)

text \<open>Every step has a configuration of its own: an operator may change it between two starts. A
  peer's answers may depend on everything it was asked so far.\<close>

inductive reachable :: "system \<Rightarrow> bool" where
  installed: "reachable (Down empty_store)"
| started: "reachable y \<Longrightarrow> start cfg benv bs fs (database y) = (Inr (dm, en), fs1, s1) \<Longrightarrow> reachable (Up dm)"
| refused: "reachable y \<Longrightarrow> start cfg benv bs fs (database y) = (Inl e, fs1, s1) \<Longrightarrow> reachable (Down s1)"
| crashed: "reachable y \<Longrightarrow> reachable (Down (database y))"
| commanded: "reachable y \<Longrightarrow> run_verb_on_store cfg benv bs key pick cmd fs (database y) = (result, fs1, s1) \<Longrightarrow>
    reachable (set_database s1 y)"
| received: "reachable (Up dm) \<Longrightarrow> reachable (Up (deliver cfg env ft m dm))"
| ticked: "reachable (Up dm) \<Longrightarrow> reachable (Up (dm\<lparr>dm_sched := snd (tick cfg (dm_env dm aenv) (dm_sched dm))\<rparr>))"
| confirmed: "reachable (Up dm) \<Longrightarrow> reachable (Up (dm\<lparr>dm_sched := delivered k i (dm_sched dm)\<rparr>))"
| given_up: "reachable (Up dm) \<Longrightarrow> reachable (Up (dm\<lparr>dm_sched := delivery_failed k i (dm_sched dm)\<rparr>))"
| synced: "reachable (Up dm) \<Longrightarrow> r = \<lparr>rd_peer = (p :: request list), rd_hub = x_hub (dm_sched dm), rd_ingested = n\<rparr> \<Longrightarrow>
    reachable (Up (dm\<lparr>dm_sched := (dm_sched dm)\<lparr>x_hub := rd_hub (sync_guarded cfg net fenv peer r)\<rparr>\<rparr>))"
| supervised: "reachable (Up dm) \<Longrightarrow> reachable (Up (supervise_turn cfg env uniform dm))"

inductive_cases reachable_UpE: "reachable (Up dm)"

lemma store_ok_meta: "store_ok s \<Longrightarrow> store_ok (s\<lparr>s_meta := m\<rparr>)"
  by (simp add: store_ok_def)

lemma store_ok_start: "start cfg benv bs fs s = (res, fs1, s1) \<Longrightarrow> store_ok s \<Longrightarrow> store_ok s1"
  using start_meta [of cfg benv bs fs s] store_ok_meta by auto

lemma store_ok_run_command:
  "run_verb_on_store cfg benv bs key pick cmd fs s = (result, fs1, s1) \<Longrightarrow> store_ok s \<Longrightarrow> store_ok s1"
proof -
  assume run: "run_verb_on_store cfg benv bs key pick cmd fs s = (result, fs1, s1)" and ok: "store_ok s"
  obtain res fs2 s2 where opened: "open_store (bo_crypto benv) (bo_iv benv) (bs_mode bs) (bs_keyfile bs) fs s = (res, fs2, s2)"
    by (metis prod_cases3)
  then have "store_ok s2"
    using open_store_meta [of "bo_crypto benv" "bo_iv benv" "bs_mode bs" "bs_keyfile bs" fs s] store_ok_meta [OF ok] by auto
  moreover have "s1 = s2 \<or> (\<exists>c. s1 = snd (administer cfg (bo_dest_of benv) c key pick (bo_now benv) cmd s2))"
    using run opened by (auto simp: run_verb_on_store_def split: sum.splits prod.splits admin_error.splits)
      (metis snd_conv)+
  ultimately show ?thesis
    using store_ok_administer by blast
qed

lemma store_ok_reachable: "reachable y \<Longrightarrow> store_ok (database y)"
proof (induction rule: reachable.induct)
  case (started y cfg benv bs fs dm en fs1 s1)
  then show ?case
    using store_ok_start start_daemon_store by (metis database.simps(2))
next
  case (refused y cfg benv bs fs e fs1 s1)
  then show ?case
    using store_ok_start by (metis database.simps(1))
next
  case (synced dm r p n cfg net fenv peer)
  have "store_ok (rd_store r)"
    using synced by (simp add: rd_store_def dm_store_def x_store_def)
  then have "store_ok (rd_store (sync_guarded cfg net fenv peer r))"
    using any_peer.rel_guarded [of r cfg net fenv peer] unharmedD(1) by (auto simp: no_harm_def)
  then show ?case
    by (simp add: dm_store_def x_store_def rd_store_def)
next
  case (commanded y cfg benv bs key pick cmd fs result fs1 s1)
  then show ?case
    using store_ok_run_command by simp
qed (auto simp: dm_store_def store_ok_tick store_ok_delivered delivery_failed_def
    store_ok_deliver [unfolded dm_store_def] store_ok_turn [unfolded dm_store_def])

end
