(* ===== verification/Mailbox.thy ===== *)
theory Mailbox
  imports Store_Queues
begin

text \<open>
  The abstract specification of the message log and the delivery queue of \<open>lxmf_hub/store.py\<close>: a
  mailbox knows messages by their hash and owes deliveries, pairs of a recipient and a hash. Rows,
  row numbers, attempts and times are forgotten. The operations of the store refine those of the
  mailbox, one by one and in any sequence.
\<close>

section \<open>Specification\<close>

record mailbox =
  ml_log :: "bytes \<Rightarrow> message_record option"
  ml_owed :: "(bytes \<times> bytes) set"

text \<open>A message is posted to its recipients once, a delivery is settled, messages before a time
  expire with the deliveries owed for them.\<close>

datatype mail_op = Posting message_record "bytes set" | Settling "(bytes \<times> bytes) set" | Expiring time

fun mail_step :: "mail_op \<Rightarrow> mailbox \<Rightarrow> mailbox" where
  "mail_step (Posting r us) b =
     (if ml_log b (m_hash r) \<noteq> None then b
      else b\<lparr>ml_log := (ml_log b)(m_hash r \<mapsto> r), ml_owed := ml_owed b \<union> us \<times> {m_hash r}\<rparr>)"
| "mail_step (Settling ds) b = b\<lparr>ml_owed := ml_owed b - ds\<rparr>"
| "mail_step (Expiring t) b =
     (let kept = (\<lambda>h. case ml_log b h of Some r \<Rightarrow> if t \<le> m_time r then Some r else None | None \<Rightarrow> None)
      in \<lparr>ml_log = kept, ml_owed = {(u, h) \<in> ml_owed b. kept h \<noteq> None}\<rparr>)"

section \<open>The store as a mailbox\<close>

definition mailbox_of :: "store \<Rightarrow> mailbox" where
  "mailbox_of s = \<lparr>ml_log = (\<lambda>h. get_message h s), ml_owed = {(u, h). is_queued u h s}\<rparr>"

datatype log_op = Store message_record "bytes list" time | Complete nat | Defer nat real bool time | Prune time

fun log_step :: "log_op \<Rightarrow> store \<Rightarrow> store" where
  "log_step (Store r us now) s = snd (store_and_enqueue r us now s)"
| "log_step (Complete i) s = complete_egress i s"
| "log_step (Defer i d c now) s = defer_egress i d c now s"
| "log_step (Prune t) s = snd (prune_messages t s)"

text \<open>What an operation means for the mailbox, given the rows at the time.\<close>

fun meaning :: "log_op \<Rightarrow> store \<Rightarrow> mail_op" where
  "meaning (Store r us now) s = Posting r (set us)"
| "meaning (Complete i) s =
     Settling (case queue_item (s_egress s) i of None \<Rightarrow> {} | Some x \<Rightarrow> {egress_key x})"
| "meaning (Defer i d c now) s = Settling {}"
| "meaning (Prune t) s = Expiring t"

fun meanings :: "log_op list \<Rightarrow> store \<Rightarrow> mail_op list" where
  "meanings [] s = []"
| "meanings (op # ops) s = meaning op s # meanings ops (log_step op s)"

section \<open>Refinement\<close>

lemma mailbox_eqI:
  "(\<And>h. get_message h s = ml_log b h) \<Longrightarrow> (\<And>u h. is_queued u h s \<longleftrightarrow> (u, h) \<in> ml_owed b) \<Longrightarrow> mailbox_of s = b"
  by (cases b) (auto simp: mailbox_of_def)

lemma posting_refines:
  "store_ok s \<Longrightarrow> mailbox_of (snd (store_and_enqueue r us now s)) = mail_step (Posting r (set us)) (mailbox_of s)"
  using store_okD(2) [of s] get_message_has [of "m_hash r" s]
  by (cases "has_message (m_hash r) s"; intro mailbox_eqI)
    (auto simp: store_and_enqueue_known get_message_store_and_enqueue is_queued_store_and_enqueue mailbox_of_def)

lemma is_queued_complete:
  assumes "messages_ok s"
  shows "is_queued u h (complete_egress i s) \<longleftrightarrow>
    is_queued u h s \<and> (case queue_item (s_egress s) i of None \<Rightarrow> True | Some x \<Rightarrow> egress_key x \<noteq> (u, h))"
proof -
  let ?rows = "q_rows (s_egress s)"
  have ids: "keys_distinct q_id ?rows" and keys: "keys_distinct (egress_key \<circ> q_item) ?rows"
    using assms by (auto simp: messages_ok_def queue_ok_def)
  have same: "a = b" if "a \<in> set ?rows" "b \<in> set ?rows" "egress_key (q_item a) = egress_key (q_item b)" for a b
    using keys that by (auto simp: keys_distinct_def distinct_map inj_on_def)
  have row: "queue_item (s_egress s) i = Some x \<longleftrightarrow> (\<exists>r \<in> set ?rows. q_id r = i \<and> q_item r = x)" for x
    using sql_lookup_iff [OF ids, of i] by (auto simp: queue_item_def queue_row_def)
  have "is_queued u h (complete_egress i s) \<longleftrightarrow>
      (\<exists>r \<in> set ?rows. q_id r \<noteq> i \<and> egress_key (q_item r) = (u, h))"
    by (simp add: is_queued_def complete_egress_def queue_complete_def has_key_def image_iff) (metis prod.inject)
  also have "\<dots> \<longleftrightarrow> (\<exists>r \<in> set ?rows. egress_key (q_item r) = (u, h)) \<and>
      \<not> (\<exists>r \<in> set ?rows. q_id r = i \<and> egress_key (q_item r) = (u, h))"
    using same ids by (auto simp: keys_distinct_def distinct_map inj_on_def) metis
  also have "\<dots> \<longleftrightarrow> is_queued u h s \<and> \<not> (\<exists>x. queue_item (s_egress s) i = Some x \<and> egress_key x = (u, h))"
    by (simp add: is_queued_def has_key_def row image_iff) metis
  finally show ?thesis
    by (cases "queue_item (s_egress s) i") auto
qed

lemma completing_refines:
  "store_ok s \<Longrightarrow> mailbox_of (complete_egress i s) = mail_step (meaning (Complete i) s) (mailbox_of s)"
  using is_queued_complete [OF store_okD(2), of s _ _ i]
  by (intro mailbox_eqI) (auto simp: mailbox_of_def complete_egress_def get_message_def split: option.splits)

lemma has_key_update: "(\<And>r. key (f r) = key r) \<Longrightarrow> has_key key k (sql_update P f rows) = has_key key k rows"
  unfolding has_key_def by (metis set_map sql_update_map)

lemma deferring_refines: "mailbox_of (defer_egress i d c now s) = mailbox_of s"
  by (simp add: mailbox_of_def defer_egress_def get_message_def is_queued_def queue_defer_def has_key_update)

lemma pruning_refines:
  assumes "store_ok s"
  shows "mailbox_of (snd (prune_messages t s)) = mail_step (Expiring t) (mailbox_of s)"
proof -
  have ok: "messages_ok s"
    using store_okD [OF assms] by blast
  have log: "get_message h (snd (prune_messages t s)) =
      (case get_message h s of Some r \<Rightarrow> if t \<le> m_time r then Some r else None | None \<Rightarrow> None)" for h
    using ok by (auto simp: get_message_def prune_messages_def Let_def sql_simps messages_ok_def message_record.defs
        split: option.splits)
  show ?thesis
    by (intro mailbox_eqI)
      (auto simp: log is_queued_prune get_message_has mailbox_of_def Let_def is_queued_known [OF ok] split: option.splits if_splits)
qed

lemma log_step_refines:
  "store_ok s \<Longrightarrow> store_ok (log_step op s) \<and> mailbox_of (log_step op s) = mail_step (meaning op s) (mailbox_of s)"
proof (cases op)
  case (Defer i d c now)
  then show "store_ok s \<Longrightarrow> ?thesis"
    using deferring_refines [of i d c now s] by simp
next
  case (Complete i)
  then show "store_ok s \<Longrightarrow> ?thesis"
    using completing_refines [of s i] by simp
next
  case (Store r us now)
  then show "store_ok s \<Longrightarrow> ?thesis"
    using posting_refines [of s r us now] by (simp del: mail_step.simps)
next
  case (Prune t)
  then show "store_ok s \<Longrightarrow> ?thesis"
    using pruning_refines [of s t] by (simp del: mail_step.simps)
qed

lemma log_run_refines:
  "store_ok s \<Longrightarrow> mailbox_of (fold log_step ops s) = fold mail_step (meanings ops s) (mailbox_of s)"
proof (induction ops arbitrary: s)
  case (Cons op ops)
  note step = log_step_refines [OF Cons.prems, of op]
  then show ?case
    using Cons.IH [of "log_step op s"] by simp
qed simp

end
