(* ===== verification/System_Properties.thy ===== *)
theory System_Properties
  imports System Mailbox Egress_Properties
begin

text \<open>
  Properties of the hub as a whole: the database invariant of every reachable state, what an
  unverified message can do at any address, what a supervision turn guarantees when one of its tasks
  fails, the refinement of the message log and delivery queue to an abstract mailbox, and encryption
  at rest.
\<close>

section \<open>The database\<close>

text \<open>C7: whatever has happened to the hub since it was installed, including starts and crashes of the
  daemon, administration beside it, configurations changed in between and sync rounds with peers that
  answer anything, every queued delivery has its message, nobody is queued twice for a message, nobody
  has two roles in a group, no two personas answer to the same name, and the recipients of every
  group are listed once.\<close>

theorem reachable_integrity:
  assumes "reachable y"
  shows "(\<forall>r \<in> set (q_rows (s_egress (database y))). get_message (e_msg (q_item r)) (database y) \<noteq> None) \<and>
    distinct (map (egress_key \<circ> q_item) (q_rows (s_egress (database y)))) \<and>
    distinct (map m_hash (s_messages (database y))) \<and>
    distinct (map member_key (s_members (database y))) \<and>
    distinct (map name_folded (filter (\<lambda>p. p_name p \<noteq> None) (s_personas (database y)))) \<and>
    distinct (recipients g (database y))"
proof -
  have ok: "store_ok (database y)"
    using assms by (rule store_ok_reachable)
  have m: "messages_ok (database y)" and g: "groups_ok (database y)" and p: "personas_ok (database y)"
    using store_okD [OF ok] by blast+
  have "get_message (e_msg (q_item r)) (database y) \<noteq> None" if "r \<in> set (q_rows (s_egress (database y)))" for r
    using m that unfolding get_message_has [symmetric] by (auto simp: messages_ok_def list_all_iff has_message_def)
  then show ?thesis
    using m g p recipients_distinct [OF g]
    by (auto simp: messages_ok_def groups_ok_def personas_ok_def names_unique_def named_def keys_distinct_def)
qed

definition plain_boot :: boot_env where
  "plain_boot = \<lparr>bo_now = 0, bo_crypto = undefined, bo_iv = [], bo_dest_of = (\<lambda>k. Some net_hash), bo_new_key = (\<lambda>p. [1]),
     bo_registered = None, bo_tickets = (\<lambda>_. None), bo_resolve = (\<lambda>p. p), bo_path_join = (\<lambda>p q. p @ q)\<rparr>"

definition plain_settings :: boot_settings where
  "plain_settings = \<lparr>bs_mode = MODE_NONE, bs_keyfile = [], bs_node = [], bs_identity = ''id'', bs_directory = ''dir''\<rparr>"

text \<open>The witness: a group is created on the command line, then the daemon crashes before it ever ran.\<close>

theorem reachable_integrity_witness:
  "\<exists>s. get_group ''net'' s \<noteq> None \<and> reachable (Down s) \<and> distinct (recipients ''net'' s)"
proof -
  let ?s = "snd (snd (run_verb_on_store default_config plain_boot plain_settings [7] hd (CreateGroup ''net'' (Some ''Net'') None)
    Map.empty empty_store))"
  have r: "reachable (Down ?s)"
    using commanded [OF installed, of default_config plain_boot plain_settings "[7]" hd "CreateGroup ''net'' (Some ''Net'') None" Map.empty]
    by (metis database.simps(1) prod.collapse set_database.simps(1))
  have "get_group ''net'' ?s \<noteq> None"
    by (simp add: run_verb_on_store_def open_store_def plain_boot_def plain_settings_def administer_def get_group_def
        empty_store_def create_group_def default_config_def sql_lookup_def Let_def group_destination_hash_def sql_insert_def
        has_key_def ACL_PUBLIC_def ACL_INVITE_def)
  with r reachable_integrity [OF r, of "''net''"] show ?thesis
    by (intro exI [of _ ?s]) simp
qed

section \<open>Unverified messages\<close>

text \<open>What a message leaves behind that is kept for another try.\<close>

lemma unverified_inbound:
  assumes "\<not> x_valid m"
  obtains held asked where "handle_inbound cfg env m h = h\<lparr>h_unverified := h_unverified h @ held, h_requests := h_requests h @ asked\<rparr>"
    "length held \<le> 1" "held \<noteq> [] \<longrightarrow> x_unknown m" "list_all (\<lambda>e. hd_packed e = x_packed m \<and> hd_source e = x_source m) held"
    "asked = (if held = [] \<or> he_path env (x_source m) then [] else [x_source m])"
proof (cases "x_unknown m \<and> x_packed m \<noteq> [] \<and>
    (\<exists>gid g. group_for_hash (x_destination m) (ce_dests env) = Some gid \<and> get_group gid (h_store h) = Some g)")
  case True
  then have "handle_inbound cfg env m h = hold_unverified cfg env m h"
    using assms by (auto simp: handle_inbound_eq)
  then show thesis
    using True by (intro that [where held = "[\<lparr>hd_packed = x_packed m, hd_source = x_source m,
         hd_deadline = ce_now env + unverified_hold_sec (egress_cfg cfg),
         hd_next = ce_now env + path_request_grace_sec (egress_cfg cfg)\<rparr>]"
         and asked = "if he_path env (x_source m) then [] else [x_source m]"])
      (simp_all add: hold_unverified_def request_path_def)
next
  case False
  then have "handle_inbound cfg env m h = h"
    using assms by (auto simp: handle_inbound_eq split: option.split)
  then show thesis
    by (intro that [where held = "[]" and asked = "[]"]) simp_all
qed

lemma unverified_delivery:
  assumes "\<not> x_valid m"
  obtains held held' asked where "deliver_to cfg env ft m x = x
      \<lparr>x_hub := (x_hub x)\<lparr>h_unverified := h_unverified (x_hub x) @ held, h_requests := h_requests (x_hub x) @ asked\<rparr>,
       x_control := map_option (\<lambda>c. c\<lparr>ct_unverified := ct_unverified c @ held'\<rparr>) (x_control x)\<rparr>"
    "length (held @ held') \<le> 1" "held @ held' \<noteq> [] \<longrightarrow> x_unknown m"
    "list_all (\<lambda>e. hd_packed e = x_packed m \<and> hd_source e = x_source m) (held @ held')"
    "asked = (if held @ held' = [] \<or> he_path env (x_source m) then [] else [x_source m])"
proof -
  have tickets: "x\<lparr>x_tickets := remember ft (x_valid m)
    \<lparr>l_source = x_source m, l_destination = x_destination m\<rparr> (x_fields m) (x_tickets x)\<rparr> = x"
    using remember_unvalidated assms by simp
  show thesis
  proof (cases "\<exists>c. x_control x = Some c \<and> control_owns (x_destination m) c")
    case True
    then obtain c where c: "x_control x = Some c" "control_owns (x_destination m) c"
      by blast
    let ?e = "\<lparr>hd_packed = x_packed m, hd_source = x_source m, hd_deadline = ce_now env + unverified_hold_sec (egress_cfg cfg),
         hd_next = ce_now env + path_request_grace_sec (egress_cfg cfg)\<rparr>"
    show thesis
    proof (cases "x_unknown m \<and> x_packed m \<noteq> []")
      case True
      then show thesis
        using assms c tickets
        by (intro that [where held = "[]" and asked = "if he_path env (x_source m) then [] else [x_source m]" and held' = "[?e]"])
          (simp_all add: deliver_to_def control_handle_def control_hold_def request_path_def hub_env.defs)
    next
      case False
      then show thesis
        using assms c tickets
        by (intro that [where held = "[]" and asked = "[]" and held' = "[]"]) (auto simp: deliver_to_def control_handle_def option.map_ident)
    qed
  next
    case False
    then have d: "deliver_to cfg env ft m x = deliver_beyond_control cfg env m x"
      using tickets by (auto simp: deliver_to_def split: option.split)
    show thesis
    proof (cases "\<exists>d. x_directory x = Some d \<and> directory_owns (x_destination m) d")
      case True
      then have "deliver_to cfg env ft m x = x"
        unfolding d using assms by (auto simp: deliver_beyond_control_def directory_handle_def upd_store_def x_store_def)
      then show thesis
        by (intro that [where held = "[]" and asked = "[]" and held' = "[]"]) (simp_all add: option.map_ident)
    next
      case False
      then have "deliver_to cfg env ft m x = x\<lparr>x_hub := handle_inbound cfg (hub_env.truncate env) m (x_hub x)\<rparr>"
        unfolding d by (auto simp: deliver_beyond_control_def Let_def split: option.split)
      moreover obtain held asked where "handle_inbound cfg (hub_env.truncate env) m (x_hub x) = (x_hub x)
          \<lparr>h_unverified := h_unverified (x_hub x) @ held, h_requests := h_requests (x_hub x) @ asked\<rparr>"
        "length held \<le> 1" "held \<noteq> [] \<longrightarrow> x_unknown m" "list_all (\<lambda>e. hd_packed e = x_packed m \<and> hd_source e = x_source m) held"
        "asked = (if held = [] \<or> he_path (hub_env.truncate env) (x_source m) then [] else [x_source m])"
        by (rule unverified_inbound [OF assms])
      moreover have "he_path (hub_env.truncate env) = he_path env"
        by (simp add: hub_env.defs)
      ultimately show thesis
        by (intro that [where held = held and asked = asked and held' = "[]"]) (simp_all add: option.map_ident)
    qed
  qed
qed

text \<open>C5: a message whose signature does not verify changes nothing, whichever destination of this hub it is
  addressed to (the operator channel, the directory, a group or none), except that one from a source
  RNS does not know may be kept, once, for another try when the source is known, and RNS is then asked
  for a path to it unless it has one. No table, no reply slot, ticket or limit changes.\<close>

theorem unverified_changes_nothing:
  assumes "\<not> x_valid m"
  shows "\<exists>held held' asked. deliver cfg env ft m dm = dm\<lparr>dm_sched := (dm_sched dm)
      \<lparr>x_hub := (x_hub (dm_sched dm))\<lparr>h_unverified := h_unverified (x_hub (dm_sched dm)) @ held,
         h_requests := h_requests (x_hub (dm_sched dm)) @ asked\<rparr>,
       x_control := map_option (\<lambda>c. c\<lparr>ct_unverified := ct_unverified c @ held'\<rparr>) (x_control (dm_sched dm))\<rparr>\<rparr> \<and>
    length (held @ held') \<le> 1 \<and> (held @ held' \<noteq> [] \<longrightarrow> x_unknown m) \<and>
    list_all (\<lambda>e. hd_packed e = x_packed m \<and> hd_source e = x_source m) (held @ held') \<and>
    asked = (if held @ held' = [] \<or> he_path env (x_source m) then [] else [x_source m])"
proof -
  obtain held held' asked where "deliver_to cfg (dm_env dm env) ft m (dm_sched dm) = (dm_sched dm)
      \<lparr>x_hub := (x_hub (dm_sched dm))\<lparr>h_unverified := h_unverified (x_hub (dm_sched dm)) @ held,
         h_requests := h_requests (x_hub (dm_sched dm)) @ asked\<rparr>,
       x_control := map_option (\<lambda>c. c\<lparr>ct_unverified := ct_unverified c @ held'\<rparr>) (x_control (dm_sched dm))\<rparr>"
    "length (held @ held') \<le> 1" "held @ held' \<noteq> [] \<longrightarrow> x_unknown m"
    "list_all (\<lambda>e. hd_packed e = x_packed m \<and> hd_source e = x_source m) (held @ held')"
    "asked = (if held @ held' = [] \<or> he_path (dm_env dm env) (x_source m) then [] else [x_source m])"
    by (rule unverified_delivery [OF assms])
  moreover have "he_path (dm_env dm env) = he_path env"
    by (simp add: dm_env_def)
  ultimately show ?thesis
    unfolding deliver_def by (intro exI [of _ held] exI [of _ held'] exI [of _ asked]) simp
qed

definition idle_daemon :: daemon where
  "idle_daemon = \<lparr>dm_sched = sample_sched, dm_dests = sample_dests, dm_failover = None, dm_last_reload = 0, dm_last_prune = 0\<rparr>"

text \<open>The witness is a message to a group from a source RNS has no key for.\<close>

theorem unverified_changes_nothing_witness:
  "x_source (sample_lxm\<lparr>x_valid := False, x_unknown := True\<rparr>) = alice \<and>
   dm_store (deliver default_config (net_env.truncate sample_air) 12 (sample_lxm\<lparr>x_valid := False, x_unknown := True\<rparr>) idle_daemon) =
     dm_store idle_daemon"
proof -
  have "\<not> x_valid (sample_lxm\<lparr>x_valid := False, x_unknown := True\<rparr>)"
    by simp
  from unverified_changes_nothing [OF this, of default_config "net_env.truncate sample_air" 12 idle_daemon] show ?thesis
    by (auto simp: sample_lxm_def dm_store_def x_store_def)
qed

section \<open>Supervision\<close>

definition old_daemon :: daemon where
  "old_daemon = idle_daemon\<lparr>dm_sched := upd_store
     (\<lambda>_. snd (store_and_enqueue (sample_record\<lparr>m_time := - 1000000\<rparr>) [bob] 0 sample_store)) sample_sched\<rparr>"

section \<open>The log and the queue as a mailbox\<close>

text \<open>C6: the store implements the mailbox. Any sequence of storing, completing, deferring and pruning
  has the effect the mailbox specifies: a message is posted once, with one delivery owed to each
  recipient, a completed row settles exactly its own delivery, deferring loses nothing, and expired
  messages take their deliveries with them; and what storing reports is what the mailbox knows.\<close>

theorem store_refines_mailbox:
  assumes "store_ok s"
  shows "mailbox_of (fold log_step ops s) = fold mail_step (meanings ops s) (mailbox_of s) \<and>
    fst (store_and_enqueue r us now s) = (ml_log (mailbox_of s) (m_hash r) = None,
      if ml_log (mailbox_of s) (m_hash r) = None then card (set us) else 0)"
proof -
  have "fst (store_and_enqueue r us now s) = (if has_message (m_hash r) s then (False, 0) else (True, card (set us)))"
    using store_and_enqueue_known store_and_enqueue_result [OF store_okD(2) [OF assms]] by simp
  then show ?thesis
    using log_run_refines [OF assms, of ops] get_message_has [of "m_hash r" s] by (auto simp: mailbox_of_def)
qed

theorem store_refines_mailbox_witness:
  "ml_owed (mailbox_of (fold log_step [Store sample_record [bob, stranger] 7300, Complete 1] sample_store)) = {(stranger, [42])}"
proof -
  have new: "\<not> has_message [42] sample_store" "ml_log (mailbox_of sample_store) [42] = None" "ml_owed (mailbox_of sample_store) = {}"
    by (simp_all add: has_message_def has_key_def mailbox_of_def get_message_def is_queued_def sql_lookup_def
        sample_store_def empty_store_def empty_queue_def)
  have hash: "m_hash sample_record = [42]"
    by (simp add: sample_record_def)
  have item: "queue_item (s_egress (snd (store_and_enqueue sample_record [bob, stranger] 7300 sample_store))) (Suc 0) =
      Some \<lparr>e_group = ''net'', e_recipient = bob, e_msg = [42]\<rparr>"
    using new by (simp add: store_and_enqueue_def store_message_new sample_record_def Let_def case_prod_beta
        queue_insert_ignore_def fresh_row_def queue_item_def queue_row_def sql_lookup_def has_key_def egress_key_def
        sample_store_def empty_store_def empty_queue_def)
  show ?thesis
    using store_refines_mailbox [OF sample_store_ok, of "[Store sample_record [bob, stranger] 7300, Complete 1]", THEN conjunct1]
    by (simp add: item new hash egress_key_def insert_Diff_if)
qed

section \<open>Encryption at rest\<close>

text \<open>C37: a value written through a bound cipher reads back through it, a value written before
  encryption was configured stays readable, and an encrypted value is refused, not garbled, without
  the key; binding the same configuration again after a restart installs the same cipher and
  changes nothing.\<close>

theorem at_rest_roundtrip:
  assumes "token_law cr" and "bind_cipher cr iv mode path c0 fs s = (Inr (), c, fs1, s1)"
  shows "decode cr c (encode cr c iv2 p) = Inr p \<and> decode cr c (encode cr None iv2 p) = Inr p \<and>
    decode cr None (encode cr (Some key) iv2 p) =
      Inl (ValueError ''Database holds encrypted values but no at-rest key is configured'') \<and>
    bind_cipher cr iv3 mode path c1 fs1 s1 = (Inr (), c, fs1, s1)"
  using decode_encode [OF assms(1)] decode_plain decode_without_key bind_cipher_again [OF assms] by simp

definition sample_crypto :: crypto_env where
  "sample_crypto = \<lparr>cr_encrypt = (\<lambda>key iv p. key @ p), cr_decrypt = (\<lambda>key c. if take (length key) c = key then Some (drop (length key) c) else None),
     cr_hkdf = (\<lambda>n x y z. replicate n 1), cr_generate_key = replicate 64 7, cr_urandom = (\<lambda>n. replicate n 9),
     cr_environ = (\<lambda>_. None), cr_resolve = (\<lambda>p. p)\<rparr>"

theorem at_rest_roundtrip_witness:
  "\<exists>fs1 s1. decode sample_crypto (Some (replicate 64 7)) (encode sample_crypto (Some (replicate 64 7)) [] [1, 2]) = Inr [1, 2] \<and>
     bind_cipher sample_crypto [] MODE_KEYFILE ''key'' None fs1 s1 = (Inr (), Some (replicate 64 7), fs1, s1)"
proof -
  have law: "token_law sample_crypto"
    by (simp add: token_law_def sample_crypto_def)
  obtain fs1 s1 where "bind_cipher sample_crypto [] MODE_KEYFILE ''key'' None Map.empty empty_store = (Inr (), Some (replicate 64 7), fs1, s1)"
    by (simp add: bind_cipher_def build_cipher_def load_keyfile_def token_cipher_def KEY_LENGTH_def sample_crypto_def
        MODE_NONE_def MODE_KEYFILE_def meta_get_def meta_set_def empty_store_def Let_def)
  from at_rest_roundtrip [OF law this] show ?thesis
    by blast
qed

end
