(* ===== verification/Startup_Properties.thy ===== *)
theory Startup_Properties
  imports System_Properties
begin

text \<open>
  Properties of the processes: what the configuration file decides, what a started daemon is, and what
  the command line leaves behind when it fails.
\<close>

section \<open>The configuration file\<close>

text \<open>C23: a configuration is accepted exactly if every key in it, in every section, is a setting, and then
  every setting is the value the file gives it and its default where the file gives none.\<close>

theorem config_as_written:
  "case from_dict data of
     Inl e \<Rightarrow> \<not> known_only HubConfig (VDict data)
   | Inr cfg \<Rightarrow> known_only HubConfig (VDict data) \<and>
       (setting_at path cfg = Some (Plain v) \<longleftrightarrow> configured path HubConfig (Some (VDict data)) = Some (Plain v))"
  using build_known(1) [of HubConfig "VDict data"] build_configured [of HubConfig "VDict data" _ path v]
  by (auto simp: from_dict_def split: sum.split)

section \<open>A started daemon\<close>

text \<open>C21: a daemon that starts serves every group of its database under the address of the group's key,
  with the routing tables in step; it federates and watches its peers exactly as configured, it has a
  well-formed rate limiter and nothing in flight, so every queued row is due again as the database
  says; and starting changed nothing in the database but the flags of encryption. A group whose key
  cannot be loaded keeps the daemon from starting.\<close>

theorem start_serves:
  assumes "groups_ok s" and "distinct (map (\<lambda>g. bo_dest_of env (g_key g)) (list_groups s))"
  shows "case start cfg env bs fs s of
      (Inl e, fs1, s1) \<Rightarrow> \<exists>m. s1 = s\<lparr>s_meta := m\<rparr>
    | (Inr (dm, en), fs1, s1) \<Rightarrow>
        dm_store dm = s1 \<and> (\<exists>m. s1 = s\<lparr>s_meta := m\<rparr>) \<and> destinations_ok (dm_dests dm) \<and>
        list_all (\<lambda>g. bo_dest_of env (g_key g) \<noteq> None \<and>
          destination_for (g_id g) (dm_dests dm) = bo_dest_of env (g_key g)) (list_groups s) \<and>
        (en \<noteq> None \<longleftrightarrow> fed_enabled (federation_cfg cfg)) \<and>
        (dm_failover dm \<noteq> None \<longleftrightarrow> fed_enabled (federation_cfg cfg) \<and> fo_enabled (failover_cfg cfg)) \<and>
        bucket_ok (x_bucket (dm_sched dm)) \<and> \<not> busy cfg aenv k i (dm_sched dm)"
proof -
  obtain res fs1 s1 where st: "start cfg env bs fs s = (res, fs1, s1)"
    by (metis prod_cases3)
  have meta: "\<exists>m. s1 = s\<lparr>s_meta := m\<rparr>"
    using start_meta [of cfg env bs fs s] st by simp
  show ?thesis
  proof (cases res)
    case (Inr r)
    obtain dm en where r: "r = (dm, en)"
      by (cases r)
    obtain fs2 fs3 where "assemble cfg env bs fs2 s1 = (Inr (dm, en), fs3)"
      using start_parts [OF st [unfolded Inr r]] by blast
    from assemble_parts [OF this] obtain c d ids where
      sched: "dm_sched dm = new_sched cfg env (new_hub (bo_now env) s1) c d"
      and groups: "attach_all (bo_dest_of env) (list_groups s1) (bo_now env) no_destinations = (Inr ids, dm_dests dm)"
      and fed: "start_federation cfg (bo_now env) = Inr (en, dm_failover dm)"
      by (auto simp: load_groups_def)
    have same: "list_groups s1 = list_groups s"
      using meta by (auto simp: list_groups_def)
    have "distinct (map g_id (list_groups s))"
      using assms(1) by (simp add: list_groups_def groups_ok_def keys_distinct_def distinct_map inj_on_def)
    then have "addresses_free (bo_dest_of env) (list_groups s) no_destinations"
      using assms(2) by (simp add: addresses_free_def no_destinations_def destination_for_def group_for_hash_def)
    from attach_all_ok [OF destinations_ok_empty this groups [unfolded same]]
    have "destinations_ok (dm_dests dm) \<and> list_all (\<lambda>g. bo_dest_of env (g_key g) \<noteq> None \<and>
        destination_for (g_id g) (dm_dests dm) = bo_dest_of env (g_key g)) (list_groups s)"
      by (simp add: list_all_iff)
    moreover have "bucket_ok (x_bucket (dm_sched dm)) \<and> \<not> busy cfg aenv k i (dm_sched dm)"
      by (simp add: sched new_sched_def busy_iff bucket_ok_new)
    ultimately show ?thesis
      using meta start_daemon_store [OF st [unfolded Inr r]] start_federation_parts [OF fed] by (simp add: st Inr r)
  qed (use meta in \<open>simp add: st\<close>)
qed

section \<open>The command line\<close>

lemma administer_refused: "administer cfg dest_of c key pick now cmd s = (Inl (CommandError m), s1) \<Longrightarrow> s1 = s"
  by (cases cmd) (auto simp: administer_def Let_def split: if_splits sum.splits option.splits)

lemma run_verb_failed:
  assumes "run_verb_on_store cfg env bs key pick cmd fs s = (Exit n out err, fs1, s1)" and "n \<noteq> 0"
  shows "out = [] \<and> n = 1 \<and> (\<exists>m. s1 = s\<lparr>s_meta := m\<rparr>)"
proof -
  obtain res fs2 s2 where o: "open_store (bo_crypto env) (bo_iv env) (bs_mode bs) (bs_keyfile bs) fs s = (res, fs2, s2)"
    by (metis prod_cases3)
  have "\<exists>m. s2 = s\<lparr>s_meta := m\<rparr>"
    using open_store_meta [of "bo_crypto env" "bo_iv env" "bs_mode bs" "bs_keyfile bs" fs s] o by simp
  moreover have "out = [] \<and> n = 1 \<and> s1 = s2"
    using assms administer_refused
    by (auto simp: run_verb_on_store_def o split: sum.splits prod.splits admin_error.splits)
  ultimately show ?thesis
    by simp
qed

text \<open>C24: a command that ends with a failure code has printed nothing on its output and has changed nothing
  in the database but the flags of encryption: 2 for a line that is no command, 1 for a command that
  was refused.\<close>

theorem cli_failure_changes_nothing:
  assumes "cli_main parse load env key pick argv fs s = (Exit n out err, fs1, s1)" and "n \<noteq> 0"
  shows "out = [] \<and> (\<exists>m. s1 = s\<lparr>s_meta := m\<rparr>) \<and> (n = 2 \<longleftrightarrow> isl (parse argv))"
proof (cases "parse argv")
  case (Inl m)
  then show ?thesis
    using assms by (auto simp: cli_main_def intro: exI [of _ "s_meta s"])
next
  case (Inr r)
  obtain path cmd where r: "r = (path, cmd)"
    by (cases r)
  obtain cfg bs verb where "run_verb_on_store cfg env bs key pick verb fs s = (Exit n out err, fs1, s1)"
    using assms by (auto simp: cli_main_def Inr r split: sum.splits option.splits prod.splits)
  from run_verb_failed [OF this assms(2)] show ?thesis
    by (simp add: Inr)
qed

definition sample_boot :: boot_env where
  "sample_boot = \<lparr>bo_now = 7300, bo_crypto = sample_crypto, bo_iv = [], bo_dest_of = (\<lambda>k. if k = [] then None else Some (take 16 (k @ replicate 16 0))),
     bo_new_key = (\<lambda>p. [1]), bo_registered = None, bo_tickets = (\<lambda>_. None), bo_resolve = (\<lambda>p. p),
     bo_path_join = (\<lambda>p q. p @ ''/'' @ q)\<rparr>"

text \<open>Deleting a group that does not exist, with the default configuration.\<close>

theorem cli_failure_changes_nothing_witness:
  "\<exists>fs1 s1 m. cli_main (\<lambda>argv. Inr (None, Some (DeleteGroup ''x''))) (\<lambda>_. Inr HubConfig) sample_boot [] hd [''delete-group'', ''x'']
     Map.empty sample_store = (Exit 1 [] (''No such group: x'' @ NEWLINE), fs1, s1) \<and> s1 = sample_store\<lparr>s_meta := m\<rparr>"
proof -
  obtain bs where bs: "boot_settings_of sample_boot HubConfig = Some bs" "bs_mode bs = MODE_KEYFILE"
    by (simp add: boot_settings_of_def str_at_def HubConfig_def AtRestConfig_def EgressConfig_def MODE_KEYFILE_def)
  obtain cipher fs1 s1 where o: "open_store sample_crypto [] MODE_KEYFILE (bs_keyfile bs) Map.empty sample_store = (Inr cipher, fs1, s1)"
    by (simp add: open_store_def bind_cipher_def build_cipher_def load_keyfile_def token_cipher_def KEY_LENGTH_def sample_crypto_def
        MODE_NONE_def MODE_KEYFILE_def meta_get_def meta_set_def sample_store_def empty_store_def Let_def)
  obtain m where m: "s1 = sample_store\<lparr>s_meta := m\<rparr>"
    using open_store_meta [of sample_crypto "[]" MODE_KEYFILE "bs_keyfile bs" Map.empty sample_store] o by auto
  have boot: "bo_crypto sample_boot = sample_crypto" "bo_iv sample_boot = []"
    by (simp_all add: sample_boot_def)
  have none: "get_group ''x'' s1 = None"
    by (simp add: m get_group_def sample_store_def sample_group_def sql_lookup_def)
  have "cli_main (\<lambda>argv. Inr (None, Some (DeleteGroup ''x''))) (\<lambda>_. Inr HubConfig) sample_boot [] hd [''delete-group'', ''x'']
     Map.empty sample_store = (Exit 1 [] (''No such group: x'' @ NEWLINE), fs1, s1)"
    by (simp add: cli_main_def hub_config_defaults bs run_verb_on_store_def boot o administer_def none no_such_group_def)
  from this cli_failure_changes_nothing [OF this] show ?thesis
    by auto
qed

definition sample_boot_settings :: boot_settings where
  "sample_boot_settings = \<lparr>bs_mode = MODE_NONE, bs_keyfile = [], bs_node = [], bs_identity = ''id'', bs_directory = ''dir''\<rparr>"

theorem start_serves_witness:
  "\<exists>dm en fs1 s1. start default_config sample_boot sample_boot_settings Map.empty sample_store = (Inr (dm, en), fs1, s1) \<and>
     destination_for ''net'' (dm_dests dm) = Some (take 16 ([7] @ replicate 16 0)) \<and> dm_failover dm \<noteq> None"
proof -
  have groups: "list_groups sample_store = [sample_group]"
    by (simp add: list_groups_def sample_store_def)
  have "\<exists>dm en fs1 s1. start default_config sample_boot sample_boot_settings Map.empty sample_store = (Inr (dm, en), fs1, s1)"
    by (simp add: start_def open_store_def sample_boot_settings_def load_hub_identity_def load_identity_def assemble_def Let_def
        new_control_def operator_hashes_def start_directory_def load_directory_identity_def load_groups_def groups
        no_destinations_def destination_for_def attach_def group_destination_hash_def sample_boot_def sample_group_def
        start_federation_def new_engine_def peer_hashes_def default_defs)
  then obtain dm en fs1 s1 where st: "start default_config sample_boot sample_boot_settings Map.empty sample_store = (Inr (dm, en), fs1, s1)"
    by blast
  have "groups_ok sample_store" "distinct (map (\<lambda>g. bo_dest_of sample_boot (g_key g)) (list_groups sample_store))"
    by (simp_all add: groups store_okD(1) [OF sample_store_ok])
  from start_serves [OF this, where cfg = default_config and bs = sample_boot_settings and fs = Map.empty] st
  show ?thesis
    by (simp add: groups sample_group_def sample_boot_def default_defs)
qed

end
