(* ===== verification/Interleaving.thy ===== *)
theory Interleaving
  imports Persona_Facts Hub_Facts Store_Queues
begin

text \<open>
  Concurrency. The daemon handles deliveries, the scheduler, federation and supervision in threads of
  their own, and the command line is another process. What they share is the database; every writing
  method of \<open>Store\<close> holds the lock of the store and commits before it releases it, so it is the unit
  that is interleaved. The other theories run whole handlers; here a handler is cut at its reads and
  writes, and anything may happen in between.
\<close>

section \<open>The writing methods\<close>

inductive store_write :: "store \<Rightarrow> store \<Rightarrow> bool" where
  w_create_group: "create_group g name key acl c now s = Inr (r, s') \<Longrightarrow> store_write s s'"
| w_set_acl_mode: "set_acl_mode g acl s = Inr s' \<Longrightarrow> store_write s s'"
| w_delete_group: "store_write s (delete_group g s)"
| w_add_member: "store_write s (add_member g u role now s)"
| w_remove_member: "store_write s (remove_member g u s)"
| w_set_flag: "store_write s (set_flag k b s)"
| w_meta: "store_write s (meta_set k v s)"
| w_store_and_enqueue: "store_write s (snd (store_and_enqueue m us now s))"
| w_store_message: "store_write s (snd (store_message m now s))"
| w_complete_egress: "store_write s (complete_egress i s)"
| w_defer_egress: "store_write s (defer_egress i d b now s)"
| w_prune_messages: "store_write s (snd (prune_messages t s))"
| w_enqueue_notice: "store_write s (snd (enqueue_notice g u body src now s))"
| w_complete_notice: "store_write s (complete_notice i s)"
| w_defer_notice: "store_write s (defer_notice i d b now s)"
| w_enqueue_control: "store_write s (snd (enqueue_control u body now s))"
| w_complete_control: "store_write s (complete_control i s)"
| w_defer_control: "store_write s (defer_control i d b now s)"
| w_enqueue_user: "store_write s (snd (enqueue_user g u body now s))"
| w_complete_user: "store_write s (complete_user i s)"
| w_defer_user: "store_write s (defer_user i d b now s)"
| w_peer_sync: "store_write s (record_peer_sync p e now s)"
| w_peer_success: "store_write s (record_peer_success p now s)"
| w_peer_state: "store_write s (snd (record_peer_state p hub gs ms now s))"
| w_adopt: "store_write s (snd (adopt p g us now s))"
| w_release_peer: "store_write s (snd (release_peer p s))"
| w_create_persona: "create_persona pid n u c now s = Inr (r, s') \<Longrightarrow> store_write s s'"
| w_set_persona_name: "set_persona_name pid n rv upd now s = Inr s' \<Longrightarrow> store_write s s'"
| w_upsert_persona: "upsert_persona r s = Inr s' \<Longrightarrow> store_write s s'"
| w_link_identity: "store_write s (link_identity pid u a now s)"
| w_unlink_identity: "store_write s (snd (unlink_identity u a now s))"
| w_upsert_identity: "store_write s (upsert_persona_identity i s)"
| w_create_link_code: "store_write s (create_link_code code pid e now s)"
| w_create_unlink_code: "store_write s (create_unlink_code code pid e now s)"
| w_claim_link_code: "store_write s (snd (claim_link_code code now s))"
| w_claim_unlink_code: "store_write s (snd (claim_unlink_code code now s))"
| w_prune_link_codes: "store_write s (snd (prune_link_codes now s))"
| w_prune_unlink_codes: "store_write s (snd (prune_unlink_codes now s))"

lemma store_ok_meta_set: "store_ok s \<Longrightarrow> store_ok (meta_set k v s)"
  by (simp add: meta_set_def store_ok_def)

lemma store_ok_write: "store_write s s' \<Longrightarrow> store_ok s \<Longrightarrow> store_ok s'"
  by (induction rule: store_write.induct)
    (auto intro: store_ok_create_group store_ok_set_acl_mode store_ok_create_persona store_ok_set_persona_name
      store_ok_upsert_persona store_ok_record_peer_state store_ok_meta_set)

inductive store_run :: "store \<Rightarrow> store \<Rightarrow> bool" where
  run_none: "store_run s s"
| run_write: "store_run s s' \<Longrightarrow> store_write s' s'' \<Longrightarrow> store_run s s''"

lemma store_ok_run: "store_run s s' \<Longrightarrow> store_ok s \<Longrightarrow> store_ok s'"
  by (induction rule: store_run.induct) (auto intro: store_ok_write)

lemma run_trans: "store_run t u \<Longrightarrow> store_run s t \<Longrightarrow> store_run s u"
  by (induction rule: store_run.induct) (auto intro: run_write)

section \<open>Claiming a name\<close>

text \<open>\<open>claim\<close> cut at its reads: who the caller is was read in \<open>s0\<close>, who holds the name in \<open>s1\<close>, the
  write runs on \<open>s2\<close>, and \<open>later\<close> is what is written between a change of the name and the look at the row
  that is returned.\<close>

definition claim_cut ::
    "bytes \<Rightarrow> time \<Rightarrow> bytes \<Rightarrow> string \<Rightarrow> store \<Rightarrow> store \<Rightarrow> store \<Rightarrow> (store \<Rightarrow> store)
     \<Rightarrow> (registry_error + persona_record) \<times> store" where
  "claim_cut new_id now user name s0 s1 s2 later =
     (case validate_name name of
        Inl e \<Rightarrow> (Inl e, s2)
      | Inr wanted \<Rightarrow>
          let mine = persona_for user s0; holder = persona_by_name wanted s1
          in if (case holder of None \<Rightarrow> False
                 | Some h \<Rightarrow> (case mine of None \<Rightarrow> True | Some m \<Rightarrow> p_id h \<noteq> p_id m))
             then (Inl (PersonaError (quoted wanted @ '' is already taken. Pick another username.'')), s2)
             else case mine of
               None \<Rightarrow>
                 (case create_persona new_id (Some wanted) user None now s2 of
                    Inl IntegrityError \<Rightarrow>
                      (Inl (PersonaError (quoted wanted @ '' was just taken. Pick another username.'')), s2)
                  | Inl e \<Rightarrow> (Inl (Raised e), s2)
                  | Inr (p, s') \<Rightarrow> (Inr p, s'))
             | Some m \<Rightarrow>
                 if name_folded m = fold_name (Some wanted) \<and> p_name m = Some wanted then (Inr m, s2)
                 else case set_persona_name (p_id m) (Some wanted) None None now s2 of
                   Inl IntegrityError \<Rightarrow>
                     (Inl (PersonaError (quoted wanted @ '' was just taken. Pick another username.'')), s2)
                 | Inl e \<Rightarrow> (Inl (Raised e), s2)
                 | Inr s' \<Rightarrow>
                     (case get_persona (p_id m) (later s') of
                        None \<Rightarrow> (Inl (PersonaError ''That persona no longer exists.''), later s')
                      | Some p \<Rightarrow> (Inr p, later s')))"

lemma claim_uncut: "claim_cut new_id now user name s s s (\<lambda>s. s) = claim new_id now user name s"
  by (simp only: claim_cut_def claim_def)

lemma get_persona_in: "get_persona pid s = Some p \<Longrightarrow> p \<in> set (s_personas s) \<and> p_id p = pid"
  by (auto simp: get_persona_def dest: sql_lookup_SomeD)

lemma store_ok_claim_cut:
  "store_ok s2 \<Longrightarrow> (\<And>z. store_run z (later z)) \<Longrightarrow>
   claim_cut new_id now user name s0 s1 s2 later = (res, s') \<Longrightarrow> store_ok s'"
  by (auto simp: claim_cut_def Let_def split: sum.splits option.splits store_error.splits if_splits
      dest: store_ok_create_persona store_ok_set_persona_name intro: store_ok_run)

text \<open>What a successful claim has written in \<open>z\<close>: the row of the caller's persona has the name.\<close>

lemma claim_cut_written:
  assumes "claim_cut new_id now user name s0 s1 s2 later = (Inr p, s')"
  shows "(s' = s2 \<and> persona_for user s0 = Some p \<and> p_name p = Some (strip name)) \<or>
    (\<exists>z. store_run s2 z \<and> (s' = z \<or> s' = later z) \<and> get_persona (p_id p) s' = Some p \<and>
      (\<forall>q. get_persona (p_id p) z = Some q \<longrightarrow> p_name q = Some (strip name)))"
proof -
  obtain wanted where w: "validate_name name = Inr wanted"
    using assms by (auto simp: claim_cut_def split: sum.splits)
  note ws = validate_name_strip [OF w]
  show ?thesis
  proof (cases "persona_for user s0")
    case None
    then have c: "create_persona new_id (Some wanted) user None now s2 = Inr (p, s')"
      using assms w by (auto simp: claim_cut_def Let_def split: if_splits sum.splits option.splits store_error.splits)
    from create_persona_lookup [OF c] run_write [OF run_none w_create_persona [OF c]] show ?thesis
      using ws by auto
  next
    case (Some m)
    then consider "p = m" "s' = s2" "p_name m = Some wanted"
      | z where "set_persona_name (p_id m) (Some wanted) None None now s2 = Inr z" "s' = later z" "get_persona (p_id m) (later z) = Some p"
      using assms w by (auto simp: claim_cut_def Let_def split: if_splits sum.splits option.splits store_error.splits)
    then show ?thesis
    proof cases
      case 1
      then show ?thesis using Some ws by simp
    next
      case 2
      have id: "p_id p = p_id m"
        using 2(3) by (rule get_persona_id)
      have "store_run s2 z"
        using run_write [OF run_none w_set_persona_name [OF 2(1)]] .
      moreover have "\<forall>q. get_persona (p_id p) z = Some q \<longrightarrow> p_name q = Some (strip name)"
        using get_persona_set_name [OF 2(1), of "p_id m"] ws id by auto
      ultimately show ?thesis
        using 2(2,3) id by auto
    qed
  qed
qed

section \<open>Unlinking\<close>

text \<open>\<open>unlink\<close> with its checks made on \<open>s0\<close> and its write on \<open>s1\<close>.\<close>

definition unlink_cut :: "time \<Rightarrow> bytes \<Rightarrow> bytes \<Rightarrow> store \<Rightarrow> store \<Rightarrow> (registry_error + persona_record) \<times> store" where
  "unlink_cut now user target s0 s1 =
     (case unlink now user target s0 of
        (Inl e, _) \<Rightarrow> (Inl e, s1)
      | (Inr mine, _) \<Rightarrow> (Inr mine, snd (unlink_identity target None now s1)))"

lemma unlink_uncut: "unlink_cut now user target s s = unlink now user target s"
  by (auto simp: unlink_cut_def unlink_def Let_def split: option.splits)

section \<open>Link codes\<close>

text \<open>A code that is not in the table comes back only by being minted again.\<close>

definition code_known :: "string \<Rightarrow> store \<Rightarrow> bool" where
  "code_known c s \<longleftrightarrow> has_key k_code c (s_links s)"

lemma code_known_same: "s_links s' = s_links s \<Longrightarrow> code_known c s' \<Longrightarrow> code_known c s"
  by (simp add: code_known_def)

lemma code_known_delete: "has_key k_code c (sql_delete P rows) \<Longrightarrow> has_key k_code c rows"
  by (auto simp: has_key_def sql_delete_def)

lemma code_known_take: "has_key k_code c (snd (take_code d now rows)) \<Longrightarrow> has_key k_code c rows"
  by (auto simp: take_code_def split: option.splits dest: code_known_delete)

lemma code_known_put: "has_key k_code c (put_code r rows) \<Longrightarrow> k_code r = c \<or> has_key k_code c rows"
  by (auto simp: put_code_def has_key_def sql_upsert_def sql_update_def split: if_splits)

lemma adopt_links: "s_links (snd (adopt p g us now s)) = s_links s"
  by (induction us arbitrary: s) (simp_all add: case_prod_beta Let_def)

lemma enqueue_all_links: "s_links (snd (enqueue_all h g us now s)) = s_links s"
  by (induction us arbitrary: s) (simp_all add: case_prod_beta Let_def store_defs)

lemma code_written: "store_write s s' \<Longrightarrow> code_known c s' \<Longrightarrow> code_known c s \<or> (\<exists>pid e now. s' = create_link_code c pid e now s)"
proof (induction rule: store_write.induct)
  case (w_create_link_code s code pid e now)
  then have "code = c \<or> code_known c s"
    using code_known_put by (fastforce simp: code_known_def create_link_code_def)
  then show ?case
    by blast
next
  case (w_claim_link_code s code now)
  then show ?case
    by (auto simp: code_known_def claim_link_code_def case_prod_beta dest: code_known_take)
next
  case (w_store_and_enqueue s m us now)
  have "s_links (snd (store_and_enqueue m us now s)) = s_links s"
    by (simp add: store_and_enqueue_def store_message_def case_prod_beta Let_def enqueue_all_links)
  then show ?case
    using w_store_and_enqueue code_known_same by blast
next
  case (w_peer_state s p hub gs ms now)
  then show ?case
    by (simp add: code_known_def record_peer_state_def case_prod_beta Let_def split: if_splits)
next
  case (w_prune_link_codes s now)
  then show ?case
    by (auto simp: code_known_def prune_link_codes_def Let_def dest: code_known_delete)
next
  case (w_create_group g name key acl t now s r s')
  then show ?case
    by (auto simp: code_known_def create_group_def Let_def split: if_splits option.splits)
next
  case (w_set_acl_mode g acl s s')
  then show ?case
    by (auto simp: code_known_def set_acl_mode_def Let_def split: if_splits option.splits)
next
  case (w_create_persona pid n u t now s r s')
  then show ?case
    by (auto simp: code_known_def create_persona_def link_identity_def put_identity_def Let_def split: if_splits option.splits)
next
  case (w_set_persona_name pid n rv upd now s s')
  then show ?case
    by (auto simp: code_known_def set_persona_name_def Let_def split: if_splits option.splits)
next
  case (w_upsert_persona r s s')
  then show ?case
    by (auto simp: code_known_def upsert_persona_def Let_def split: if_splits option.splits)
qed (simp_all add: Let_def case_prod_beta store_defs adopt_links enqueue_all_links code_known_def)

inductive run_without :: "string \<Rightarrow> store \<Rightarrow> store \<Rightarrow> bool" where
  without_none: "run_without c s s"
| without_write: "run_without c s s' \<Longrightarrow> store_write s' s'' \<Longrightarrow> (\<And>pid e now. s'' \<noteq> create_link_code c pid e now s') \<Longrightarrow>
    run_without c s s''"

lemma code_stays_unknown: "run_without c s s' \<Longrightarrow> \<not> code_known c s \<Longrightarrow> \<not> code_known c s'"
  by (induction rule: run_without.induct) (auto dest: code_written)

lemma join_unknown:
  "\<not> code_known (upper (strip code)) s \<Longrightarrow>
     fst (join now u code s) = Inl (PersonaError ''That code is not valid. Codes are single-use and expire.'')"
  by (simp add: join_def claim_link_code_def take_code_def code_known_def sql_lookup_None [THEN iffD2])

lemma join_takes_code:
  assumes "join now u code s = (Inr p, s')"
  shows "\<not> code_known (upper (strip code)) s'"
proof -
  let ?c = "upper (strip code)"
  have "s_links s' = snd (take_code ?c now (s_links s))" "fst (take_code ?c now (s_links s)) \<noteq> None"
    using assms by (auto simp: join_def claim_link_code_def case_prod_beta Let_def split: option.splits)
  then show ?thesis
    by (auto simp: code_known_def take_code_def has_key_def sql_delete_def split: option.splits)
qed

section \<open>Storing a message\<close>

text \<open>\<open>store_and_fan_out\<close> with the recipients read in \<open>s0\<close> and the transaction on \<open>s1\<close>.\<close>

definition fan_out_cut :: "time \<Rightarrow> message_record \<Rightarrow> store \<Rightarrow> store \<Rightarrow> (bool \<times> nat) \<times> store" where
  "fan_out_cut now r s0 s1 =
     store_and_enqueue r (filter (\<lambda>u. u \<noteq> m_sender r) (recipients (m_group r) s0)) now s1"

lemma fan_out_uncut: "fan_out_cut now r s s = store_and_fan_out now r s"
  by (simp add: fan_out_cut_def store_and_fan_out_def)

text \<open>A stored message goes only by pruning.\<close>

lemma adopt_messages: "s_messages (snd (adopt p g us now s)) = s_messages s"
  by (induction us arbitrary: s) (simp_all add: case_prod_beta Let_def)

lemma message_kept:
  "store_write s s' \<Longrightarrow> has_message h s \<Longrightarrow> has_message h s' \<or> (\<exists>t. s' = snd (prune_messages t s))"
proof (induction rule: store_write.induct)
  case (w_store_and_enqueue s m us now)
  then show ?case
    by (simp add: has_message_store_and_enqueue)
next
  case (w_store_message s m now)
  then show ?case
    by (simp add: has_message_store_message)
next
  case (w_prune_messages s t)
  then show ?case
    by blast
next
  case (w_peer_state s p hub gs ms now)
  then show ?case
    by (simp add: has_message_def record_peer_state_def case_prod_beta Let_def split: if_splits)
next
  case (w_create_group g name key acl t now s r s')
  then show ?case
    by (auto simp: has_message_def create_group_def Let_def split: if_splits option.splits)
next
  case (w_set_acl_mode g acl s s')
  then show ?case
    by (auto simp: has_message_def set_acl_mode_def Let_def split: if_splits option.splits)
next
  case (w_create_persona pid n u t now s r s')
  then show ?case
    by (auto simp: has_message_def create_persona_def link_identity_def put_identity_def Let_def
        split: if_splits option.splits)
next
  case (w_set_persona_name pid n rv upd now s s')
  then show ?case
    by (auto simp: has_message_def set_persona_name_def Let_def split: if_splits option.splits)
next
  case (w_upsert_persona r s s')
  then show ?case
    by (auto simp: has_message_def upsert_persona_def Let_def split: if_splits option.splits)
qed (simp_all add: Let_def case_prod_beta store_defs adopt_messages)

inductive run_unpruned :: "store \<Rightarrow> store \<Rightarrow> bool" where
  unpruned_none: "run_unpruned s s"
| unpruned_write: "run_unpruned s s' \<Longrightarrow> store_write s' s'' \<Longrightarrow> (\<And>t. s'' \<noteq> snd (prune_messages t s')) \<Longrightarrow>
    run_unpruned s s''"

lemma message_stays: "run_unpruned s s' \<Longrightarrow> has_message h s \<Longrightarrow> has_message h s'"
  by (induction rule: run_unpruned.induct) (auto dest: message_kept)

end
