(* ===== verification/Write_Runs.thy ===== *)
theory Write_Runs
  imports System Interleaving
begin

text \<open>
  Everything the program does to the database is a run of the writing methods of \<open>Store\<close>: no handler
  touches a table otherwise. So what every method keeps, every reachable database has, and
  \<open>Interleaving\<close>, which lets any run come between two steps of a handler, covers every thread.
\<close>

section \<open>Methods\<close>

lemmas runs [simp] =
  w_delete_group [THEN run_write [rotated]] w_add_member [THEN run_write [rotated]]
  w_remove_member [THEN run_write [rotated]] w_set_flag [THEN run_write [rotated]]
  w_meta [THEN run_write [rotated]] w_store_and_enqueue [THEN run_write [rotated]]
  w_store_message [THEN run_write [rotated]] w_complete_egress [THEN run_write [rotated]]
  w_defer_egress [THEN run_write [rotated]] w_prune_messages [THEN run_write [rotated]]
  w_enqueue_notice [THEN run_write [rotated]] w_complete_notice [THEN run_write [rotated]]
  w_defer_notice [THEN run_write [rotated]] w_enqueue_control [THEN run_write [rotated]]
  w_complete_control [THEN run_write [rotated]] w_defer_control [THEN run_write [rotated]]
  w_enqueue_user [THEN run_write [rotated]] w_complete_user [THEN run_write [rotated]]
  w_defer_user [THEN run_write [rotated]] w_peer_sync [THEN run_write [rotated]]
  w_peer_success [THEN run_write [rotated]] w_peer_state [THEN run_write [rotated]]
  w_adopt [THEN run_write [rotated]] w_release_peer [THEN run_write [rotated]]
  w_link_identity [THEN run_write [rotated]] w_unlink_identity [THEN run_write [rotated]]
  w_upsert_identity [THEN run_write [rotated]] w_create_link_code [THEN run_write [rotated]]
  w_create_unlink_code [THEN run_write [rotated]] w_claim_link_code [THEN run_write [rotated]]
  w_claim_unlink_code [THEN run_write [rotated]] w_prune_link_codes [THEN run_write [rotated]]
  w_prune_unlink_codes [THEN run_write [rotated]] run_none

lemmas runs_checked =
  w_create_group [THEN run_write [rotated]] w_set_acl_mode [THEN run_write [rotated]]
  w_create_persona [THEN run_write [rotated]] w_set_persona_name [THEN run_write [rotated]]
  w_upsert_persona [THEN run_write [rotated]]

section \<open>Personas and commands\<close>

lemma run_claim: "store_run s0 s \<Longrightarrow> store_run s0 (snd (claim new_id now user name s))"
  by (auto simp: claim_def Let_def split: sum.splits option.splits store_error.splits intro: runs_checked)

lemma run_mint_code: "store_run s0 s \<Longrightarrow> store_run s0 (snd (mint_code new_id code now user s))"
  by (auto simp: mint_code_def Let_def split: sum.splits option.splits dest: runs_checked)

lemma run_add_roles: "store_run s0 s \<Longrightarrow> store_run s0 (add_roles user now roles s)"
  unfolding add_roles_def by (induction roles arbitrary: s) auto

lemma run_join: "store_run s0 s \<Longrightarrow> store_run s0 (snd (join now user code s))"
  by (auto simp: join_def case_prod_beta Let_def run_add_roles split: option.splits)

lemma run_mint_unlink_code: "store_run s0 s \<Longrightarrow> store_run s0 (snd (mint_unlink_code code now user s))"
  by (auto simp: mint_unlink_code_def split: option.splits)

lemma run_unlink: "store_run s0 s \<Longrightarrow> store_run s0 (snd (unlink now user target s))"
  by (auto simp: unlink_def split: option.splits)

lemma run_unlink_with_code: "store_run s0 s \<Longrightarrow> store_run s0 (snd (unlink_with_code now user code s))"
  by (auto simp: unlink_with_code_def case_prod_beta Let_def run_unlink split: option.splits)

lemma run_adopt_persona: "store_run s0 s \<Longrightarrow> store_run s0 (snd (adopt_persona now remote s))"
  by (auto simp: adopt_persona_def Let_def split: option.splits sum.splits dest: runs_checked)

lemma run_merge_personas: "store_run s0 s \<Longrightarrow> store_run s0 (snd (merge_personas now rs s))"
proof (induction rs arbitrary: s)
  case (Cons r rs)
  have "store_run s0 (snd (adopt_persona now r s))"
    using Cons.prems by (rule run_adopt_persona)
  with Cons show ?case
    by (cases "adopt_persona now r s") (auto split: sum.splits option.splits prod.splits, force+)
qed simp

lemma run_merge_identities: "store_run s0 s \<Longrightarrow> store_run s0 (merge_identities rows s)"
  unfolding merge_identities_def
  by (induction rows arbitrary: s) (auto simp: adopt_identity_def split: option.splits)

lemma run_registry_merge: "store_run s0 s \<Longrightarrow> store_run s0 (snd (registry_merge now ps is s))"
  using run_merge_personas [of s0 s now ps]
  by (auto simp: registry_merge_def run_merge_identities split: prod.splits sum.splits)

lemma run_cmds:
  assumes "store_run s0 s"
  shows "store_run s0 (snd (cmd_name env u a s))" "store_run s0 (snd (cmd_link env u a s))"
    "store_run s0 (snd (cmd_unlink env u a s))" "store_run s0 (snd (moderate now g u r v a s))"
proof -
  note p = run_claim [OF assms, of "ce_new_id env" "ce_now env" u]
    run_mint_code [OF assms, of "ce_new_id env" "ce_code env" "ce_now env" u] run_join [OF assms, of "ce_now env" u]
    run_mint_unlink_code [OF assms, of "ce_code env" "ce_now env" u]
    run_unlink_with_code [OF assms, of "ce_now env" u] run_unlink [OF assms, of "ce_now env" u]
  show "store_run s0 (snd (cmd_name env u a s))"
    using p(1) assms by (auto simp: cmd_name_def split: option.splits prod.splits sum.splits) (metis snd_conv)+
  show "store_run s0 (snd (cmd_link env u a s))"
    using p(2,3) assms by (auto simp: cmd_link_def split: option.splits prod.splits sum.splits) (metis snd_conv)+
  show "store_run s0 (snd (cmd_unlink env u a s))"
    using p(4-6) assms by (auto simp: cmd_unlink_def split: option.splits prod.splits sum.splits) (metis snd_conv)+
  show "store_run s0 (snd (moderate now g u r v a s))"
    using assms by (auto simp: moderate_def Let_def split: option.splits sum.splits admin_error.splits)
qed

lemma run_handle_command:
  assumes "store_run s0 s"
  shows "store_run s0 (snd (snd (handle_command cfg env g u msg a r uc s)))"
proof -
  have "store_run s0 (snd (execute cfg c env u msg place role s))" for c place role
    using assms by (simp add: execute_store run_verb_def run_cmds)
  then show ?thesis
    using assms by (auto simp: handle_command_def Let_def case_prod_beta split: option.splits)
qed

lemma run_administer: "store_run s0 s \<Longrightarrow> store_run s0 (snd (administer cfg dest_of control key pick now cmd s))"
  by (cases cmd) (auto simp: administer_def Let_def split: sum.splits dest: runs_checked)

section \<open>Deliveries\<close>

lemma run_store_and_fan_out: "store_run s0 s \<Longrightarrow> store_run s0 (snd (store_and_fan_out now r s))"
  by (simp add: store_and_fan_out_def)

lemma run_ingest: "store_run s0 s \<Longrightarrow> store_run s0 (snd (ingest_federated env xs s))"
proof (induction xs arbitrary: s)
  case (Cons x xs)
  have "store_run s0 (snd (store_and_fan_out (ce_now env) (federated_record env x) s))"
    using Cons.prems by (rule run_store_and_fan_out)
  with Cons show ?case
    by (simp add: case_prod_beta Let_def)
qed simp

lemma run_handle_inbound:
  assumes ok: "store_run s0 (h_store h)"
  shows "store_run s0 (h_store (handle_inbound cfg env m h))"
proof -
  have a: "store_run s0 (snd (authorise now g u (h_store h)))" for now g u
    using ok by (auto simp: authorise_def split: option.splits role.splits)
  have c: "store_run s0 (h_store (snd (try_command cfg env g m a r k)))" if "store_run s0 (h_store k)" for g a r k
    using that by (auto simp: try_command_def case_prod_beta Let_def run_handle_command split: option.splits)
  show ?thesis
    using ok a
    by (auto simp: handle_inbound_eq hold_unverified_def case_prod_beta Let_def
        intro!: c run_store_and_fan_out split: option.splits)
qed

lemma run_retry_held: "store_run s0 (h_store h) \<Longrightarrow> store_run s0 (h_store (snd (retry_held cfg env xs h)))"
  by (induction xs arbitrary: h) (simp_all add: Let_def case_prod_beta inbound_handle run_handle_inbound)

lemma run_control_handle:
  assumes "store_run s0 (h_store (snd st))"
  shows "store_run s0 (h_store (snd (control_handle cfg env m st)))"
proof -
  have e: "store_run s0 (snd (control_execute cfg env cmd s))" if "store_run s0 s" for cmd s
    using run_administer [OF that, of cfg "ce_dest_of env" "ne_hub_hash env" "ne_key env" "ne_pick env" "ce_now env"] that
    by (auto simp: control_execute_def Let_def split: sum.splits admin_error.splits prod.splits)
      (metis snd_conv)+
  show ?thesis
    using assms
    by (cases st) (simp add: control_handle_def control_hold_def case_prod_beta Let_def control_reply_def e)
qed

lemma run_control_retry_held:
  "store_run s0 (h_store (snd st)) \<Longrightarrow> store_run s0 (h_store (snd (snd (control_retry_held cfg env xs st))))"
proof (induction xs arbitrary: st)
  case (Cons x xs)
  obtain c h where st: "st = (c, h)"
    by (cases st)
  have "store_run s0 (h_store (snd (control_handle cfg env m (c, h))))" for m
    using Cons.prems st by (intro run_control_handle) simp
  then show ?case
    using Cons.prems Cons.IH [of "control_handle cfg env _ (c, h)"] Cons.IH [of "(c, h\<lparr>h_requests := _\<rparr>)"] Cons.IH [of "(c, h)"]
    by (simp add: st case_prod_beta Let_def)
qed simp

lemma run_deliver_beyond: "store_run s0 (x_store x) \<Longrightarrow> store_run s0 (x_store (deliver_beyond_control cfg env m x))"
  using run_handle_inbound [of s0 "x_hub x" cfg "hub_env.truncate env" m]
  by (auto simp: deliver_beyond_control_def directory_handle_def x_store_def upd_store_def Let_def case_prod_beta
      split: option.splits sum.splits)

lemma run_deliver: "store_run s0 (dm_store dm) \<Longrightarrow> store_run s0 (dm_store (deliver cfg env ft m dm))"
proof -
  have "store_run s0 (x_store (deliver_to cfg env ft m x))" if ok: "store_run s0 (x_store x)" for env :: net_env and x
  proof -
    define x1 where "x1 = x\<lparr>x_tickets := remember ft (x_valid m)
      \<lparr>l_source = x_source m, l_destination = x_destination m\<rparr> (x_fields m) (x_tickets x)\<rparr>"
    have x1: "store_run s0 (x_store x1)"
      using ok by (simp add: x1_def x_store_def)
    then have "store_run s0 (h_store (snd (control_handle cfg env m (c, x_hub x1))))" for c
      by (intro run_control_handle) (simp add: x_store_def)
    then show ?thesis
      unfolding deliver_to_def x1_def [symmetric] Let_def case_prod_beta
      using run_deliver_beyond [OF x1] by (simp add: x_store_def split: option.split)
  qed
  then show "store_run s0 (dm_store dm) \<Longrightarrow> store_run s0 (dm_store (deliver cfg env ft m dm))"
    by (simp add: deliver_def dm_store_def)
qed

section \<open>The scheduler\<close>

lemma run_sends:
  "store_run s0 (x_store x) \<Longrightarrow> store_run s0 (x_store (snd (send cfg env e x)))"
  "store_run s0 (x_store x) \<Longrightarrow> store_run s0 (x_store (snd (send_notice cfg env n x)))"
  "store_run s0 (x_store x) \<Longrightarrow> store_run s0 (x_store (snd (send_user cfg env u x)))"
  "store_run s0 (x_store x) \<Longrightarrow> store_run s0 (x_store (send_control cfg env c x))"
  by (auto simp: send_def send_notice_def send_user_def send_control_def case_prod_beta Let_def split: option.splits)

lemma run_tick:
  assumes ok: "store_run s0 (x_store x)"
  shows "store_run s0 (x_store (snd (tick cfg env x)))"
proof (rule tick_keeps_store [where P = "store_run s0"])
  have "store_run s0 (h_store (snd (retry_held cfg env' xs (h\<lparr>h_unverified := []\<rparr>))))" if "store_run s0 (h_store h)" for env' xs h
    using that by (intro run_retry_held) simp
  then have "store_run s0 (h_store (snd (retry_unverified cfg (hub_env.truncate env) (x_hub x))))"
    using ok by (simp add: retry_unverified_def x_store_def case_prod_beta split: option.split)
  then show "store_run s0 (x_store (snd (retry_all cfg env x)))"
    by (auto simp: retry_all_def control_retry_unverified_def x_store_def case_prod_beta Let_def
        intro!: run_control_retry_held split: option.splits)
qed (simp_all add: run_sends)

lemma run_delivered: "store_run s0 (x_store x) \<Longrightarrow> store_run s0 (x_store (delivered k i x))"
  by (cases k) (simp_all add: delivered_def complete_row_def)

section \<open>Supervision\<close>

lemma run_enqueue_notices [simp]: "store_run s0 s \<Longrightarrow> store_run s0 (enqueue_notices gid us body now s)"
  by (induction us arbitrary: s) simp_all

lemma run_adopt_groups: "store_run s0 s \<Longrightarrow> store_run s0 (snd (adopt_groups cfg f d peer name now gs s))"
proof (induction gs arbitrary: s)
  case (Cons g gs)
  have "store_run s0 (snd (adopt_group cfg f d peer name now (g_id g) s))"
    using Cons.prems
    by (cases "list_peer_members peer (g_id g) s = []") (auto simp: adopt_group_empty adopt_group_eq [OF refl])
  with Cons show ?case
    by (simp add: Let_def case_prod_beta)
qed simp

lemma run_check: "store_run s0 s \<Longrightarrow> store_run s0 (check cfg f d pretty now s)"
proof -
  have handed: "store_run s0 s \<Longrightarrow> store_run s0 (handback_notices cfg name peer now rs s)" for name peer rs s
    by (induction rs arbitrary: s) auto
  have isolation: "store_run s0 s \<Longrightarrow> store_run s0 (isolation_notices cfg b now gs s)" for b gs s
    by (induction gs arbitrary: s) (simp_all add: Let_def)
  have "store_run s0 s \<Longrightarrow> store_run s0 (react cfg f d pretty now sts s)" for sts s
  proof (induction sts arbitrary: s)
    case (Cons x sts)
    then show ?case
      by (cases x) (simp add: adopt_peer_def run_adopt_groups release_def case_prod_beta Let_def handed)
  qed simp
  then show "store_run s0 s \<Longrightarrow> store_run s0 (check cfg f d pretty now s)"
    by (simp add: check_def check_isolation_def isolation Let_def)
qed

lemma run_turn: "store_run s0 (dm_store dm) \<Longrightarrow> store_run s0 (dm_store (supervise_turn cfg env uniform dm))"
proof -
  have f: "store_run s0 (dm_store d) \<Longrightarrow> store_run s0 (dm_store (failover_turn cfg env d))" for d
    by (auto simp: failover_turn_def check_due_def dm_store_def run_check Let_def split: option.splits)
  have "store_run s0 s \<Longrightarrow> store_run s0 (snd (hub_prune cfg now s))" for s now
    by (simp add: hub_prune_def Let_def)
  then have p: "store_run s0 (dm_store d) \<Longrightarrow> store_run s0 (dm_store (daemon_prune cfg env d))" for d
    by (simp add: daemon_prune_def dm_store_def x_store_def Let_def upd_store_def)
  have "dm_store (announce_channels cfg env d) = dm_store d" "dm_store (announce_groups cfg env uniform d) = dm_store d"
    "dm_store (reload_groups env d) = dm_store d" "dm_store (d\<lparr>dm_last_reload := t\<rparr>) = dm_store d"
    "dm_store (d\<lparr>dm_last_prune := t\<rparr>) = dm_store d" for d t
    by (simp_all add: announce_channels_def announce_groups_def reload_groups_def dm_store_def x_store_def Let_def)
  then show "store_run s0 (dm_store dm) \<Longrightarrow> store_run s0 (dm_store (supervise_turn cfg env uniform dm))"
    by (simp add: supervise_turn_def Let_def f p)
qed

section \<open>Starting and administration\<close>

lemma run_open_store: "store_run s0 s \<Longrightarrow> store_run s0 (snd (snd (open_store cr iv mode path fs s)))"
  by (auto simp: open_store_def bind_cipher_def Let_def split: prod.splits sum.splits option.splits if_splits)

lemma run_start:
  "start cfg benv bs fs s = (res, fs1, s1) \<Longrightarrow> store_run s0 s \<Longrightarrow> store_run s0 s1"
  using start_store [of cfg benv bs fs s] run_open_store by simp

lemma run_command:
  assumes run: "run_verb_on_store cfg benv bs key pick cmd fs s = (result, fs1, s1)" and ok: "store_run s0 s"
  shows "store_run s0 s1"
proof -
  obtain res fs2 s2 where opened: "open_store (bo_crypto benv) (bo_iv benv) (bs_mode bs) (bs_keyfile bs) fs s = (res, fs2, s2)"
    by (metis prod_cases3)
  then have "store_run s0 s2"
    using run_open_store [OF ok] by (metis snd_conv)
  moreover have "s1 = s2 \<or> (\<exists>c. s1 = snd (administer cfg (bo_dest_of benv) c key pick (bo_now benv) cmd s2))"
    using run opened by (auto simp: run_verb_on_store_def split: sum.splits prod.splits admin_error.splits)
      (metis snd_conv)+
  ultimately show ?thesis
    using run_administer by blast
qed

section \<open>Sync rounds\<close>

definition writes :: "'p round \<Rightarrow> 'p round \<Rightarrow> bool" where
  "writes r r' \<longleftrightarrow> store_run (rd_store r) (rd_store r')"

lemma writes_trans: "writes r r1 \<Longrightarrow> writes r1 r2 \<Longrightarrow> writes r r2"
  by (auto simp: writes_def intro: run_trans)

lemma writes_upd: "store_run (rd_store r) (f (rd_store r)) \<Longrightarrow> writes r (rd_upd f r)"
  by (simp add: writes_def)

lemma writes_losers: "writes r (tell_losers env losers r)"
proof -
  have notify: "store_run t s \<Longrightarrow> store_run t (snd (notify_devices now body rs s))" for t s now body rs
    by (induction rs arbitrary: s) (auto simp: case_prod_beta Let_def split: list.split)
  let ?f = "\<lambda>(p, lost). rd_upd (\<lambda>s. snd (notify_name_lost (ce_now env) (p_id p) lost s))"
  have step: "writes r (?f x r)" for x and r :: "'a round"
    by (cases x) (auto simp: notify_name_lost_def notify intro!: writes_upd)
  have "writes r (fold ?f losers r)" for r :: "'a round"
  proof (induction losers arbitrary: r)
    case (Cons x losers)
    show ?case
      using writes_trans [OF step Cons.IH] by simp
  qed (simp add: writes_def)
  then show ?thesis
    by (simp add: tell_losers_def writes_def)
qed

interpretation writing_round: round_relation writes env dest for env dest
proof
  show "writes r (ingest_resource env res r)" for r :: "'a round" and res
    using run_ingest [OF run_none, where env = "hub_env.truncate env"]
    by (auto simp: writes_def ingest_resource_def case_prod_beta Let_def split: resource.split)
  show "writes r (rd_upd (\<lambda>_. snd (registry_merge now ps is (rd_store r))) r)" for r :: "'a round" and now ps "is"
    by (simp add: writes_def run_registry_merge)
  show "writes r (rd_upd (record_peer_sync dest e now) r)" "writes r (rd_upd (record_peer_success dest now) r)"
    "writes r (rd_upd (\<lambda>_. snd (record_peer_state dest name gs ms now (rd_store r))) r)"
    for r :: "'a round" and e now name gs ms
    by (simp_all add: writes_upd)
qed (auto simp: establish_def intro: writes_trans writes_losers, simp_all add: writes_def rd_store_def)

section \<open>Every reachable database\<close>

lemma run_reachable: "reachable y \<Longrightarrow> store_run empty_store (database y)"
proof (induction rule: reachable.induct)
  case (started y cfg benv bs fs dm en fs1 s1)
  then show ?case
    using run_start start_daemon_store by (metis database.simps(2))
next
  case (refused y cfg benv bs fs e fs1 s1)
  then show ?case
    using run_start by (metis database.simps(1))
next
  case (synced dm r p n cfg net fenv peer)
  have "store_run (rd_store r) (rd_store (sync_guarded cfg net fenv peer r))"
    using writing_round.rel_guarded [of r cfg net fenv peer] by (simp add: writes_def)
  moreover have "store_run empty_store (rd_store r)"
    using synced by (simp add: rd_store_def dm_store_def x_store_def)
  ultimately have "store_run empty_store (rd_store (sync_guarded cfg net fenv peer r))"
    by (rule run_trans)
  then show ?case
    by (simp add: dm_store_def x_store_def rd_store_def)
next
  case (commanded y cfg benv bs key pick cmd fs result fs1 s1)
  then show ?case
    using run_command by simp
qed (auto simp: dm_store_def run_tick run_delivered delivery_failed_def
    run_deliver [unfolded dm_store_def] run_turn [unfolded dm_store_def])

text \<open>What every writing method keeps, every run keeps.\<close>

lemma run_keeps: "store_run s s' \<Longrightarrow> P s \<Longrightarrow> (\<And>t t'. store_write t t' \<Longrightarrow> P t \<Longrightarrow> P t') \<Longrightarrow> P s'"
  by (induction rule: store_run.induct) auto

end
