(* ===== verification/Interleaving_Properties.thy ===== *)
theory Interleaving_Properties
  imports Write_Runs Persona_Properties System_Properties
begin

text \<open>
  Properties of handlers whose reads and writes are interleaved with anything the other threads and
  processes do to the database.
\<close>

text \<open>Everything the program does to the database is a sequence of the writing methods of \<open>Store\<close>, each
  under the lock of the store: the whole history of the database since it was installed is one, and so
  is what any start of the daemon, command of the command line, delivery, scheduler tick, callback of
  the router, supervision turn or sync round with any peer adds to it. So whatever those methods keep,
  every reachable database has, and what is shown for any run of them between two steps of a handler
  holds for all the other threads and processes.\<close>

theorem handlers_are_writes:
  assumes "reachable y"
  shows "store_run empty_store (database y) \<and>
    store_run (database y) (snd (snd (start cfg benv bs fs (database y)))) \<and>
    store_run (database y) (snd (snd (run_verb_on_store cfg benv bs key pick cmd fs (database y)))) \<and>
    (case y of
       Down s \<Rightarrow> True
     | Up dm \<Rightarrow>
         store_run (dm_store dm) (dm_store (deliver cfg env ft m dm)) \<and>
         store_run (dm_store dm) (dm_store (supervise_turn cfg env uniform dm)) \<and>
         store_run (dm_store dm) (x_store (snd (tick cfg aenv (dm_sched dm)))) \<and>
         store_run (dm_store dm) (x_store (delivered k i (dm_sched dm))) \<and>
         store_run (dm_store dm) (rd_store (sync_guarded cfg net fenv peer
           \<lparr>rd_peer = p, rd_hub = x_hub (dm_sched dm), rd_ingested = n\<rparr>)))"
proof -
  have "store_run (database y) (snd (snd (start cfg benv bs fs (database y))))"
    "store_run (database y) (snd (snd (run_verb_on_store cfg benv bs key pick cmd fs (database y))))"
    using run_start [OF _ run_none] run_command [OF _ run_none] by (metis prod.collapse)+
  moreover have "store_run (rd_store r) (rd_store (sync_guarded cfg net fenv peer r))" for r
    using writing_round.rel_guarded [of r cfg net fenv peer] by (simp add: writes_def)
  then have "store_run (dm_store dm) (rd_store (sync_guarded cfg net fenv peer
      \<lparr>rd_peer = p, rd_hub = x_hub (dm_sched dm), rd_ingested = n\<rparr>))" for dm
    by (metis dm_store_def rd_store_def round.select_convs(2) x_store_def)
  ultimately show ?thesis
    using run_reachable [OF assms] run_deliver [OF run_none] run_turn [OF run_none] run_tick [OF run_none]
      run_delivered [OF run_none]
    by (simp add: dm_store_def split: system.split)
qed

theorem handlers_are_writes_witness:
  "store_run empty_store (snd (snd (run_verb_on_store default_config plain_boot plain_settings [7] hd
     (CreateGroup ''net'' (Some ''Net'') None) Map.empty empty_store)))"
  using handlers_are_writes [OF installed] by simp



text \<open>C25: a persona with two devices loses both, and its username with them, when each device unlinks itself, or
  each the other, at the same moment: both requests read the persona before either writes, so both pass the
  check that one device must stay. One after the other, the second request is refused, by that check if it is
  for the device that is left, and the persona keeps a device.\<close>

theorem unlink_race_loses_persona:
  assumes "store_ok s" and "persona_for a s = Some p" and "i_user ` set (persona_devices (p_id p) False s) = {a, b}"
    and "a \<noteq> b" and "{t, t'} = {a, b}"
  shows "\<exists>s1 s2. unlink_cut now a t s s = (Inr p, s1) \<and> unlink_cut now' b t' s s1 = (Inr p, s2) \<and>
     persona_devices (p_id p) False s2 = [] \<and> store_ok s2 \<and>
     unlink now a t s = (Inr p, s1) \<and> persona_devices (p_id p) False s1 \<noteq> [] \<and>
     (\<exists>m. unlink now' b t' s1 = (Inl (PersonaError m), s1)) \<and>
     (t' = b \<longrightarrow> unlink now' b t' s1 =
       (Inl (PersonaError ''That is your only device. Claim the name from another device first.''), s1))"
proof -
  define s1 where "s1 = snd (unlink_identity t None now s)"
  define s2 where "s2 = snd (unlink_identity t' None now' s1)"
  have ok: "store_ok s1" "store_ok s2" "personas_ok s" "personas_ok s1"
    using assms(1) store_ok_unlink_identity [of _ _ None] by (simp_all add: s1_def s2_def store_ok_def)
  have ds: "i_user ` set (persona_devices (p_id p) False s1) = {a, b} - {t}"
    "i_user ` set (persona_devices (p_id p) False s2) = {a, b} - {t} - {t'}"
    using devices_unlink [OF assms(1), of "p_id p" t now] devices_unlink [OF ok(1), of "p_id p" t' now'] assms(3)
    by (simp_all add: s1_def s2_def)
  have row: "\<exists>r. get_persona_identity u s = Some r \<and> identity_active r \<and> i_persona r = p_id p" if "u \<in> {a, b}" for u
    using device_iff [OF ok(3), of u "p_id p"] assms(3) that by simp
  have known: "get_persona (p_id p) s = Some p"
    using assms(2) unfolding persona_for_def by (rule persona_for_identity_get)
  have mine: "persona_for u s = Some p" if "u \<in> {a, b}" for u
    using row [OF that] known by (auto simp: persona_for_def persona_for_identity_def)
  have two: "length (persona_devices (p_id p) False s) = 2"
    using devices_length [OF ok(3), of "p_id p"] assms(3,4) by simp
  have free: "unlink now u v s = (Inr p, snd (unlink_identity v None now s))" if u: "u \<in> {a, b}" and v: "v \<in> {a, b}" for u v now
  proof -
    obtain r where "get_persona_identity v s = Some r" "identity_active r" "i_persona r = p_id p"
      using row [OF v] by blast
    then show ?thesis
      by (simp add: unlink_def mine [OF u] two)
  qed
  have which: "t = a \<and> t' = b \<or> t = b \<and> t' = a"
    using assms(5) by (simp add: doubleton_eq_iff)
  then have ts: "t \<in> {a, b}" "t' \<in> {a, b}" "t \<noteq> t'"
    using assms(4) by blast+
  have "{a, b} - {t} = {t'}" "{a, b} - {t} - {t'} = {}"
    using which assms(4) by blast+
  then have left: "i_user ` set (persona_devices (p_id p) False s1) = {t'}" "set (persona_devices (p_id p) False s2) = {}"
    using ds by simp_all
  have gone: "persona_for t s1 = None"
    using row [OF ts(1)] by (auto simp: s1_def persona_for_def persona_for_identity_def get_persona_identity_unlink identity_active_def)
  have one: "length (persona_devices (p_id p) False s1) = 1"
    using devices_length [OF ok(4), of "p_id p"] left by simp
  have "s_personas s1 = s_personas s"
    by (simp add: s1_def unlink_identity_def Let_def)
  then have known1: "get_persona (p_id p) s1 = Some p"
    using known by (simp add: get_persona_def)
  obtain r where r: "get_persona_identity t' s1 = Some r" "identity_active r" "i_persona r = p_id p"
    using row [OF ts(2)] ts(3) by (auto simp: s1_def get_persona_identity_unlink)
  then have here: "persona_for t' s1 = Some p"
    using known1 by (simp add: persona_for_def persona_for_identity_def)
  have second: "unlink now' t' t' s1 = (Inl (PersonaError ''That is your only device. Claim the name from another device first.''), s1)"
    using here r one by (simp add: unlink_def)
  have "\<exists>m. unlink now' b t' s1 = (Inl (PersonaError m), s1)"
  proof (cases "t' = b")
    case False
    then have "t = b"
      using which by blast
    with gone show ?thesis
      by (simp add: unlink_def)
  qed (use second in blast)
  moreover have "unlink_cut now a t s s = (Inr p, s1)" "unlink_cut now' b t' s s1 = (Inr p, s2)" "unlink now a t s = (Inr p, s1)"
    using free [of a t now] free [of b t' now'] ts by (simp_all add: unlink_cut_def s1_def s2_def)
  ultimately show ?thesis
    using ok(2) left second by (intro exI [of _ s1] exI [of _ s2]) auto
qed

theorem unlink_race_loses_persona_witness:
  "\<exists>s1 s2. unlink_cut 5 alice alice linked_store linked_store = (Inr linked_persona, s1) \<and>
     unlink_cut 6 bob bob linked_store s1 = (Inr linked_persona, s2) \<and> persona_devices [7] False s2 = [] \<and>
     unlink 6 bob bob s1 = (Inl (PersonaError ''That is your only device. Claim the name from another device first.''), s1)"
proof -
  have "persona_for alice linked_store = Some linked_persona" "p_id linked_persona = [7]"
    by (simp_all add: persona_for_def persona_for_identity_def get_persona_identity_def get_persona_def identity_active_def
        linked_store_def linked_persona_def sql_lookup_def)
  moreover have "i_user ` set (persona_devices [7] False linked_store) = {alice, bob}" "alice \<noteq> bob"
    by (simp_all add: persona_devices_def identity_active_def linked_store_def)
  ultimately show ?thesis
    using unlink_race_loses_persona [OF linked_ok, of alice linked_persona bob alice bob 5 6] by auto
qed

text \<open>C31: a link code works once: it gives the device the persona and, in every group where a device of
  the persona has a role, that role (an administrator's before a member's), and touches nobody
  else's role; afterwards, whatever else the threads and processes write, the same code is refused to
  everybody unless the hub happens to mint it anew.\<close>

theorem join_once:
  assumes "join now u code s = (Inr p, s')" and "store_ok s" and "run_without (upper (strip code)) s' s''"
  shows "persona_for_identity u s' = Some p \<and>
    get_role g u s' =
      (if \<exists>d \<in> set (persona_devices (p_id p) False s). get_role g (i_user d) s = Some ROLE_ADMIN then Some ROLE_ADMIN
       else if \<exists>d \<in> set (persona_devices (p_id p) False s). get_role g (i_user d) s = Some ROLE_MEMBER
       then Some ROLE_MEMBER else get_role g u s) \<and>
    {v. get_role g v s' \<noteq> get_role g v s} \<subseteq> {u} \<and>
    fst (join later v code s'') = Inl (PersonaError ''That code is not valid. Codes are single-use and expire.'')"
  using join_roles [OF assms(1)] join_unknown [OF code_stays_unknown [OF assms(3) join_takes_code [OF assms(1)]]] assms
    memberships_for_spec [OF store_okD(1) [OF assms(2)], of "map i_user (persona_devices (p_id p) False s)" g]
  by auto

text \<open>The witness is a banned device that joins: it comes out with the member's role.\<close>

theorem join_once_witness:
  "\<exists>p s'. join 5 mallory ''abcdef'' linked_store = (Inr p, s') \<and> get_role ''net'' mallory linked_store = Some ROLE_BANNED \<and>
     get_role ''net'' mallory s' = Some ROLE_ADMIN"
proof -
  have code: "upper (strip ''abcdef'') = ''ABCDEF''"
    by code_simp
  then obtain p s' where j: "join 5 mallory ''abcdef'' linked_store = (Inr p, s')"
    by (auto simp: join_def claim_link_code_def take_code_def linked_store_def linked_persona_def sql_lookup_def
        get_persona_def)
  have "p_id p = [7]"
    using j code by (auto simp: join_def claim_link_code_def take_code_def linked_store_def linked_persona_def
        sql_lookup_def get_persona_def)
  moreover have same: "get_role ''net'' x linked_store = get_role ''net'' x sample_store" for x
    by (simp add: get_role_def linked_store_def)
  moreover have "\<lparr>i_user = bob, i_persona = [7], i_added = 2, i_removed = None\<rparr> \<in> set (persona_devices [7] False linked_store)"
    by (simp add: persona_devices_def linked_store_def identity_active_def)
  ultimately have "\<exists>d \<in> set (persona_devices (p_id p) False linked_store). get_role ''net'' (i_user d) linked_store = Some ROLE_ADMIN"
    using sample_roles(2) by force
  then show ?thesis
    using j join_once [OF j linked_ok without_none, of "''net''"] same sample_roles(3) by auto
qed

text \<open>C20: a message that arrives twice at the same time, say from its author and from a peer, is stored
  and queued once: its first transaction queues it for exactly the unbanned and adopted members that
  were read, except the author, and for nobody else; after that, whatever the other threads and
  processes write short of pruning, a second arrival changes nothing.\<close>

theorem concurrent_arrival:
  assumes "store_ok s1" and "\<not> has_message (m_hash r) s1" and "fan_out_cut now r s0 s1 = ((stored, n), s2)"
    and "run_unpruned s2 s3" and "m_hash r' = m_hash r"
  shows "stored \<and> n = card {u \<in> set (recipients (m_group r) s0). u \<noteq> m_sender r} \<and>
    (\<forall>u h. is_queued u h s2 \<longleftrightarrow>
       is_queued u h s1 \<or> (h = m_hash r \<and> u \<in> set (recipients (m_group r) s0) \<and> u \<noteq> m_sender r)) \<and>
    fan_out_cut now' r' s0' s3 = ((False, 0), s3)"
proof -
  have ok: "messages_ok s1"
    using assms(1) by (rule store_okD)
  note cut = assms(3) [unfolded fan_out_cut_def]
  have "has_message (m_hash r) s2"
    using cut has_message_store_and_enqueue [of "m_hash r" r _ now s1] by (metis snd_conv)
  then have "has_message (m_hash r') s3"
    using message_stays [OF assms(4)] assms(5) by simp
  then have "fan_out_cut now' r' s0' s3 = ((False, 0), s3)"
    by (simp add: fan_out_cut_def store_and_enqueue_known)
  then show ?thesis
    using cut store_and_enqueue_result [OF ok assms(2), of "filter (\<lambda>u. u \<noteq> m_sender r) (recipients (m_group r) s0)" now]
      is_queued_store_and_enqueue [OF ok assms(2), of _ _ "filter (\<lambda>u. u \<noteq> m_sender r) (recipients (m_group r) s0)" now]
    by (simp add: Collect_conj_eq)
qed

text \<open>The witness: bob is made a member while the message of alice is on its way to the log; the copy
  from a peer that follows is not stored again.\<close>

theorem concurrent_arrival_witness:
  "\<exists>s2. fan_out_cut 5 sample_record sample_store sample_store = ((True, 1), s2) \<and>
     fan_out_cut 7 sample_record sample_store (add_member ''net'' stranger ROLE_MEMBER 6 s2) =
       ((False, 0), add_member ''net'' stranger ROLE_MEMBER 6 s2)"
proof -
  have new: "\<not> has_message (m_hash sample_record) sample_store"
    by (simp add: has_message_def has_key_def sample_store_def empty_store_def)
  obtain stored n s2 where cut: "fan_out_cut 5 sample_record sample_store sample_store = ((stored, n), s2)"
    by (metis prod.collapse)
  then have "s2 = snd (store_and_enqueue sample_record
      (filter (\<lambda>u. u \<noteq> m_sender sample_record) (recipients (m_group sample_record) sample_store)) 5 sample_store)"
    by (simp add: fan_out_cut_def)
  then have "s_members s2 = s_members sample_store"
    by simp
  then have roles: "get_role ''net'' stranger (snd (prune_messages t s2)) = None" for t
    using sample_roles(4) by (simp add: prune_messages_def Let_def get_role_def)
  let ?s3 = "add_member ''net'' stranger ROLE_MEMBER 6 s2"
  have "get_role ''net'' stranger ?s3 = Some ROLE_MEMBER"
    by simp
  then have "run_unpruned s2 ?s3"
    using roles by (intro unpruned_write [OF unpruned_none w_add_member]) (metis option.distinct(1))
  note once = concurrent_arrival [OF sample_store_ok new cut this refl]
  have "recipients (m_group sample_record) sample_store = [alice, bob]"
    by (simp add: recipients_def list_members_def list_adopted_def sample_record_def sample_store_def sample_members_def
        empty_store_def sort_key_def who_defs)
  then have "{u \<in> set (recipients (m_group sample_record) sample_store). u \<noteq> m_sender sample_record} = {bob}"
    by (auto simp: sample_record_def)
  with once cut show ?thesis
    by simp
qed

end
