(* ===== verification/Wire.thy ===== *)
theory Wire
  imports Federation "HOL-Library.Monad_Syntax"
begin

text \<open>
  What \<open>lxmf_hub/federation.py\<close> hands to RNS and how it takes apart what RNS hands back. msgpack
  keeps the Python values of \<open>pyval\<close> apart and a tuple arrives as a list, so a request, an answer
  or a resource is such a value. The answers to \<open>/fed/state\<close>, \<open>/fed/personas\<close> and \<open>/fed/fetch\<close> are
  read whatever a peer sends. For the others \<open>None\<close> stands for values the typed model does not
  follow: a number where the code would go on with a fraction as an epoch or an index, or a hash
  that is not bytes.
\<close>

section \<open>Python values taken apart\<close>

text \<open>Truth, iteration, unpacking into \<open>n\<close> names, \<open>x[n]\<close> and \<open>x.items()\<close>. An operation that
  raises is \<open>None\<close>: the callers do not tell the exceptions apart.\<close>

fun py_true :: "pyval \<Rightarrow> bool" where
  "py_true VNone = False"
| "py_true (VBool b) = b"
| "py_true (VInt i) = (i \<noteq> 0)"
| "py_true (VFloat x) = (x \<noteq> 0)"
| "py_true (VStr s) = (s \<noteq> [])"
| "py_true (VBytes b) = (b \<noteq> [])"
| "py_true (VList xs) = (xs \<noteq> [])"
| "py_true (VDict d) = (d \<noteq> [])"

fun py_iter :: "pyval \<Rightarrow> pyval list option" where
  "py_iter (VStr s) = Some (map (\<lambda>c. VStr [c]) s)"
| "py_iter (VBytes b) = Some (map (\<lambda>x. VInt (uint x)) b)"
| "py_iter (VList xs) = Some xs"
| "py_iter (VDict d) = Some (map fst d)"
| "py_iter _ = None"

definition py_unpack :: "nat \<Rightarrow> pyval \<Rightarrow> pyval list option" where
  "py_unpack n v =
     (case py_iter v of None \<Rightarrow> None | Some xs \<Rightarrow> if length xs = n then Some xs else None)"

text \<open>\<open>True\<close>, \<open>1\<close> and \<open>1.0\<close> are equal, also as keys.\<close>

definition is_number :: "int \<Rightarrow> pyval \<Rightarrow> bool" where
  "is_number n v \<longleftrightarrow> as_number v = Some (real_of_int n)"

fun py_item :: "nat \<Rightarrow> pyval \<Rightarrow> pyval option" where
  "py_item n (VDict d) = map_option snd (find (\<lambda>(k, v). is_number (int n) k) d)"
| "py_item n v = (case py_iter v of None \<Rightarrow> None | Some xs \<Rightarrow> if n < length xs then Some (xs ! n) else None)"

fun py_items :: "pyval \<Rightarrow> (pyval \<times> pyval) list option" where
  "py_items (VDict d) = Some d"
| "py_items _ = None"

text \<open>\<open>bytes(x)\<close>: an integer makes that many zero bytes, an iterable gives its integers below 256.\<close>

fun py_byte :: "pyval \<Rightarrow> byte option" where
  "py_byte (VBool b) = Some (if b then 1 else 0)"
| "py_byte (VInt i) = (if 0 \<le> i \<and> i < 256 then Some (of_int i) else None)"
| "py_byte _ = None"

fun py_bytes :: "pyval \<Rightarrow> bytes option" where
  "py_bytes (VBytes b) = Some b"
| "py_bytes (VBool b) = Some (if b then [0] else [])"
| "py_bytes (VInt i) = (if i < 0 then None else Some (replicate (nat i) 0))"
| "py_bytes (VList xs) = those (map py_byte xs)"
| "py_bytes (VDict d) = those (map (py_byte \<circ> fst) d)"
| "py_bytes _ = None"

text \<open>What \<open>str\<close> writes for a value that is not a string, and the number that \<open>float\<close> and \<open>int\<close>
  read from text. A number that is not finite is not followed.\<close>

record casts =
  cast_text :: "pyval \<Rightarrow> string"
  cast_float :: "pyval \<Rightarrow> real option"
  cast_int :: "pyval \<Rightarrow> int option"

fun py_str :: "casts \<Rightarrow> pyval \<Rightarrow> string" where
  "py_str c (VStr s) = s"
| "py_str c v = cast_text c v"

fun py_float :: "casts \<Rightarrow> pyval \<Rightarrow> real option" where
  "py_float c (VStr s) = cast_float c (VStr s)"
| "py_float c (VBytes b) = cast_float c (VBytes b)"
| "py_float c v = as_number v"

fun py_integer :: "casts \<Rightarrow> pyval \<Rightarrow> int option" where
  "py_integer c (VInt i) = Some i"
| "py_integer c (VStr s) = cast_int c (VStr s)"
| "py_integer c (VBytes b) = cast_int c (VBytes b)"
| "py_integer c v = map_option py_int (as_number v)"

definition optional :: "(pyval \<Rightarrow> 'a option) \<Rightarrow> pyval \<Rightarrow> 'a option option" where
  "optional f v = (if v = VNone then Some None else map_option Some (f v))"

section \<open>Personas and state\<close>

definition persona_from_wire :: "casts \<Rightarrow> pyval \<Rightarrow> persona_record option" where
  "persona_from_wire c row = do {
     xs \<leftarrow> py_unpack 5 row;
     pid \<leftarrow> py_bytes (xs ! 0);
     name \<leftarrow> optional (\<lambda>v. Some (py_str c v)) (xs ! 1);
     claimed \<leftarrow> py_float c (xs ! 2);
     revision \<leftarrow> py_integer c (xs ! 3);
     updated \<leftarrow> py_float c (xs ! 4);
     Some \<lparr>p_id = pid, p_name = name, p_claimed = claimed, p_revision = revision, p_updated = updated\<rparr>
   }"

definition identity_from_wire :: "casts \<Rightarrow> pyval \<Rightarrow> persona_identity option" where
  "identity_from_wire c row = do {
     xs \<leftarrow> py_unpack 4 row;
     user \<leftarrow> py_bytes (xs ! 0);
     pid \<leftarrow> py_bytes (xs ! 1);
     added \<leftarrow> py_float c (xs ! 2);
     removed \<leftarrow> optional (py_float c) (xs ! 3);
     Some \<lparr>i_user = user, i_persona = pid, i_added = added, i_removed = removed\<rparr>
   }"

definition rows_of :: "(pyval \<Rightarrow> 'a option) \<Rightarrow> pyval \<Rightarrow> 'a list option" where
  "rows_of f v = (case py_iter v of None \<Rightarrow> None | Some xs \<Rightarrow> those (map f xs))"

definition rows_from_wire ::
    "casts \<Rightarrow> pyval \<Rightarrow> (persona_record list \<times> persona_identity list) option" where
  "rows_from_wire c v = do {
     xs \<leftarrow> py_unpack 3 v;
     personas \<leftarrow> rows_of (persona_from_wire c) (xs ! 1);
     identities \<leftarrow> rows_of (identity_from_wire c) (xs ! 2);
     Some (personas, identities)
   }"

definition read_personas :: "casts \<Rightarrow> pyval \<Rightarrow> response" where
  "read_personas c v =
     (if \<not> py_true v then Rs_None
      else case py_item 0 v of
        None \<Rightarrow> Rs_Other
      | Some version \<Rightarrow>
          if \<not> is_number PROTOCOL_VERSION version \<or> py_unpack 3 v = None then Rs_None
          else (case rows_from_wire c v of
              None \<Rightarrow> Rs_Personas_Cut
            | Some (personas, identities) \<Rightarrow> Rs_Personas PROTOCOL_VERSION personas identities))"

text \<open>The two dictionaries of \<open>_exchange_state\<close>; a key that \<open>str\<close> maps to an earlier one replaces it.\<close>

definition entries_from_wire ::
    "casts \<Rightarrow> (pyval \<Rightarrow> 'a option) \<Rightarrow> pyval \<Rightarrow> (string \<times> 'a) list option" where
  "entries_from_wire c f v = do {
     d \<leftarrow> py_items v;
     entries \<leftarrow> those (map (\<lambda>(k, x). map_option (Pair (py_str c k)) (f x)) d);
     Some (dict_of entries)
   }"

definition group_from_wire :: "casts \<Rightarrow> pyval \<Rightarrow> (bytes \<times> string) option" where
  "group_from_wire c v = do {
     xs \<leftarrow> py_unpack 2 v;
     destination \<leftarrow> py_bytes (xs ! 0);
     Some (destination, py_str c (xs ! 1))
   }"

definition state_from_wire ::
    "casts \<Rightarrow> pyval \<Rightarrow> (string \<times> (string \<times> bytes \<times> string) list \<times> (string \<times> bytes list) list) option" where
  "state_from_wire c v = do {
     xs \<leftarrow> py_unpack 4 v;
     groups \<leftarrow> entries_from_wire c (group_from_wire c) (xs ! 2);
     members \<leftarrow> entries_from_wire c (rows_of py_bytes) (xs ! 3);
     Some (py_str c (xs ! 1), groups, members)
   }"

definition read_state :: "casts \<Rightarrow> pyval \<Rightarrow> response" where
  "read_state c v =
     (if \<not> py_true v then Rs_None
      else case py_item 0 v of
        None \<Rightarrow> Rs_Other
      | Some version \<Rightarrow>
          if \<not> is_number PROTOCOL_VERSION version then Rs_None
          else (case state_from_wire c v of
              None \<Rightarrow> Rs_State_Cut
            | Some (name, groups, members) \<Rightarrow> Rs_State PROTOCOL_VERSION name groups members))"

section \<open>Roots, nodes, buckets and counts\<close>

fun int_key :: "(pyval \<Rightarrow> 'a option) \<Rightarrow> pyval \<times> pyval \<Rightarrow> (int \<times> 'a) option" where
  "int_key f (VInt i, v) = map_option (Pair i) (f v)"
| "int_key f _ = None"

fun just_bytes :: "pyval \<Rightarrow> bytes option" where
  "just_bytes (VBytes b) = Some b"
| "just_bytes _ = None"

fun just_int :: "pyval \<Rightarrow> int option" where
  "just_int (VInt i) = Some i"
| "just_int _ = None"

fun just_str :: "pyval \<Rightarrow> string option" where
  "just_str (VStr s) = Some s"
| "just_str _ = None"

fun just_list :: "(pyval \<Rightarrow> 'a option) \<Rightarrow> pyval \<Rightarrow> 'a list option" where
  "just_list f (VList xs) = those (map f xs)"
| "just_list f _ = None"

fun int_dict :: "(pyval \<Rightarrow> 'a option) \<Rightarrow> pyval \<Rightarrow> (int \<times> 'a) list option" where
  "int_dict f (VDict d) = those (map (int_key f) d)"
| "int_dict f _ = None"

text \<open>A key that is not a string is no group of this hub, and is passed over.\<close>

fun group_roots :: "(pyval \<times> pyval) list \<Rightarrow> (string \<times> (int \<times> bytes) list) list option" where
  "group_roots [] = Some []"
| "group_roots ((VStr g, v) # rest) =
     do { roots \<leftarrow> int_dict just_bytes v; more \<leftarrow> group_roots rest; Some ((g, roots) # more) }"
| "group_roots (_ # rest) = group_roots rest"

definition read_roots :: "pyval \<Rightarrow> response option" where
  "read_roots v =
     (if \<not> py_true v then Some Rs_None
      else case py_item 0 v of
        None \<Rightarrow> Some Rs_Other
      | Some version \<Rightarrow>
          if \<not> is_number PROTOCOL_VERSION version then Some Rs_None
          else (case py_item 1 v of
              None \<Rightarrow> Some Rs_Other
            | Some VNone \<Rightarrow> Some (Rs_Roots PROTOCOL_VERSION None)
            | Some (VDict d) \<Rightarrow> map_option (\<lambda>roots. Rs_Roots PROTOCOL_VERSION (Some roots)) (group_roots d)
            | Some _ \<Rightarrow> Some Rs_Other))"

definition read_dict ::
    "(pyval \<Rightarrow> 'a option) \<Rightarrow> ((int \<times> 'a) list \<Rightarrow> response) \<Rightarrow> pyval \<Rightarrow> response option" where
  "read_dict f answer v =
     (if \<not> py_true v then Some Rs_None
      else if py_items v = None then Some Rs_Other
      else map_option answer (int_dict f v))"

text \<open>Only whether the announced number is true matters to \<open>_fetch\<close>.\<close>

definition read_count :: "pyval \<Rightarrow> response" where
  "read_count v =
     (if \<not> py_true v then Rs_None
      else case py_item 0 v of
        None \<Rightarrow> Rs_Other
      | Some n \<Rightarrow> Rs_Count (if \<not> py_true n then 0 else case n of VInt i \<Rightarrow> max 1 (nat i) | _ \<Rightarrow> 1))"

section \<open>Requests, answers and resources\<close>

definition unpack_request :: "pyval \<Rightarrow> nat \<Rightarrow> store_error + pyval list" where
  "unpack_request data arity =
     (case data of
        VList xs \<Rightarrow> if length xs \<noteq> arity then Inl (ValueError ''Malformed federation request'') else Inr xs
      | _ \<Rightarrow> Inl (ValueError ''Malformed federation request''))"

definition PATH_ROOTS :: string where "PATH_ROOTS = ''/fed/roots''"
definition PATH_TREE :: string where "PATH_TREE = ''/fed/tree''"
definition PATH_BUCKET :: string where "PATH_BUCKET = ''/fed/bucket''"
definition PATH_FETCH :: string where "PATH_FETCH = ''/fed/fetch''"
definition PATH_STATE :: string where "PATH_STATE = ''/fed/state''"
definition PATH_PERSONAS :: string where "PATH_PERSONAS = ''/fed/personas''"

lemmas path_defs = PATH_ROOTS_def PATH_TREE_def PATH_BUCKET_def PATH_FETCH_def PATH_STATE_def PATH_PERSONAS_def

fun write_request :: "request \<Rightarrow> string \<times> pyval" where
  "write_request (Req_Roots version es depth groups) =
     (PATH_ROOTS, VList [VInt version, VInt es, VInt depth,
        case groups of None \<Rightarrow> VNone | Some gs \<Rightarrow> VList (map VStr gs)])"
| "write_request (Req_Tree gid epoch level indices) =
     (PATH_TREE, VList [VStr gid, VInt epoch, VInt level, VList (map VInt indices)])"
| "write_request (Req_Bucket gid epoch indices) =
     (PATH_BUCKET, VList [VStr gid, VInt epoch, VList (map VInt indices)])"
| "write_request (Req_Fetch gid hashes) = (PATH_FETCH, VList [VStr gid, VList (map VBytes hashes)])"
| "write_request (Req_State version) = (PATH_STATE, VList [VInt version])"
| "write_request (Req_Personas version) = (PATH_PERSONAS, VList [VInt version])"
| "write_request (Req_Malformed path) = (path, VNone)"

text \<open>The handlers of \<open>/fed/state\<close> and \<open>/fed/personas\<close> do not look at the data.\<close>

definition read_request :: "string \<Rightarrow> pyval \<Rightarrow> request option" where
  "read_request path v =
     (let unpacked = (\<lambda>arity f. case unpack_request v arity of
            Inl e \<Rightarrow> Some (Req_Malformed path) | Inr xs \<Rightarrow> f xs)
      in if path = PATH_ROOTS then unpacked 4 (\<lambda>xs. do {
             version \<leftarrow> just_int (xs ! 0); es \<leftarrow> just_int (xs ! 1); depth \<leftarrow> just_int (xs ! 2);
             groups \<leftarrow> optional (just_list just_str) (xs ! 3);
             Some (Req_Roots version es depth groups) })
         else if path = PATH_TREE then unpacked 4 (\<lambda>xs. do {
             gid \<leftarrow> just_str (xs ! 0); epoch \<leftarrow> just_int (xs ! 1); level \<leftarrow> just_int (xs ! 2);
             indices \<leftarrow> just_list just_int (xs ! 3);
             Some (Req_Tree gid epoch level indices) })
         else if path = PATH_BUCKET then unpacked 3 (\<lambda>xs. do {
             gid \<leftarrow> just_str (xs ! 0); epoch \<leftarrow> just_int (xs ! 1);
             indices \<leftarrow> just_list just_int (xs ! 2);
             Some (Req_Bucket gid epoch indices) })
         else if path = PATH_FETCH then unpacked 2 (\<lambda>xs. do {
             gid \<leftarrow> just_str (xs ! 0); hashes \<leftarrow> just_list just_bytes (xs ! 1);
             Some (Req_Fetch gid hashes) })
         else if path = PATH_STATE then Some (Req_State PROTOCOL_VERSION)
         else if path = PATH_PERSONAS then Some (Req_Personas PROTOCOL_VERSION)
         else None)"

definition persona_row :: "persona_record \<Rightarrow> pyval" where
  "persona_row p =
     VList [VBytes (p_id p), case p_name p of None \<Rightarrow> VNone | Some n \<Rightarrow> VStr n, VFloat (p_claimed p),
            VInt (p_revision p), VFloat (p_updated p)]"

definition identity_row :: "persona_identity \<Rightarrow> pyval" where
  "identity_row i =
     VList [VBytes (i_user i), VBytes (i_persona i), VFloat (i_added i),
            case i_removed i of None \<Rightarrow> VNone | Some t \<Rightarrow> VFloat t]"

text \<open>What the handlers return, as Python values.\<close>

fun write_answer :: "response \<Rightarrow> pyval" where
  "write_answer (Rs_Roots version None) = VList [VInt version, VNone]"
| "write_answer (Rs_Roots version (Some roots)) =
     VList [VInt version, VDict (map (\<lambda>(g, rs). (VStr g, VDict (map (\<lambda>(e, h). (VInt e, VBytes h)) rs))) roots)]"
| "write_answer (Rs_Nodes nodes) = VDict (map (\<lambda>(i, h). (VInt i, VBytes h)) nodes)"
| "write_answer (Rs_Buckets buckets) = VDict (map (\<lambda>(i, hs). (VInt i, VList (map VBytes hs))) buckets)"
| "write_answer (Rs_Count n) = VList [VInt (int n)]"
| "write_answer (Rs_State version name groups members) =
     VList [VInt version, VStr name,
            VDict (map (\<lambda>(g, d, a). (VStr g, VList [VBytes d, VStr a])) groups),
            VDict (map (\<lambda>(g, us). (VStr g, VList (map VBytes us))) members)]"
| "write_answer (Rs_Personas version personas identities) =
     VList [VInt version, VList (map persona_row personas), VList (map identity_row identities)]"
| "write_answer _ = VNone"

definition read_answer :: "casts \<Rightarrow> request \<Rightarrow> pyval \<Rightarrow> response option" where
  "read_answer c req v =
     (case req of
        Req_Roots _ _ _ _ \<Rightarrow> read_roots v
      | Req_Tree _ _ _ _ \<Rightarrow> read_dict just_bytes Rs_Nodes v
      | Req_Bucket _ _ _ \<Rightarrow> read_dict (just_list just_bytes) Rs_Buckets v
      | Req_Fetch _ _ \<Rightarrow> Some (read_count v)
      | Req_State _ \<Rightarrow> Some (read_state c v)
      | Req_Personas _ \<Rightarrow> Some (read_personas c v)
      | Req_Malformed _ \<Rightarrow> None)"

text \<open>The records of a resource are taken one by one while they are ingested: those before the first
  that is not a row of four stay ingested.\<close>

fun records_from_wire :: "pyval list \<Rightarrow> ((string \<times> bytes \<times> time \<times> bytes) list \<times> bool) option" where
  "records_from_wire [] = Some ([], True)"
| "records_from_wire (row # rest) =
     (case py_unpack 4 row of
        None \<Rightarrow> Some ([], False)
      | Some xs \<Rightarrow> do {
          gid \<leftarrow> just_str (xs ! 0); sender \<leftarrow> just_bytes (xs ! 1); t \<leftarrow> as_number (xs ! 2);
          payload \<leftarrow> just_bytes (xs ! 3);
          (records, readable) \<leftarrow> records_from_wire rest;
          Some ((gid, sender, t, payload) # records, readable) })"

definition read_resource :: "pyval \<Rightarrow> resource option" where
  "read_resource v =
     (case py_unpack 2 v of
        None \<Rightarrow> Some Unreadable
      | Some xs \<Rightarrow>
          if \<not> is_number RESOURCE_MESSAGES (xs ! 0) then Some (Resource (RESOURCE_MESSAGES + 1) [] True)
          else (case py_iter (xs ! 1) of
              None \<Rightarrow> Some (Resource RESOURCE_MESSAGES [] False)
            | Some rows \<Rightarrow> map_option (\<lambda>(records, readable). Resource RESOURCE_MESSAGES records readable)
                (records_from_wire rows)))"

fun write_resource :: "resource \<Rightarrow> pyval" where
  "write_resource (Resource ty records readable) =
     VList [VInt ty, VList (map (\<lambda>(g, s, t, p). VList [VStr g, VBytes s, VFloat t, VBytes p]) records)]"
| "write_resource _ = VNone"

section \<open>A remote behind the wire\<close>

text \<open>A remote that is asked through \<open>write_request\<close> and answers through \<open>write_answer\<close>; what the
  typed model does not follow is no answer.\<close>

definition over_wire :: "casts \<Rightarrow> 'p remote \<Rightarrow> 'p remote" where
  "over_wire c net p req =
     (case case_prod read_request (write_request req) of
        None \<Rightarrow> (Failed ''no answer'', [], p)
      | Some req' \<Rightarrow>
          let (rep, pushed, q) = net p req'
          in ((case rep of
                 Failed e \<Rightarrow> Failed e
               | Answer a \<Rightarrow>
                   (case read_answer c req (write_answer a) of
                      None \<Rightarrow> Failed ''no answer'' | Some b \<Rightarrow> Answer b)),
              map (\<lambda>x. case read_resource (write_resource x) of None \<Rightarrow> Unreadable | Some y \<Rightarrow> y) pushed,
              q))"

end
