(* ===== verification/Wire_Facts.thy ===== *)
theory Wire_Facts
  imports Wire Sync_Round
begin

text \<open>
  What is written is read back, for every request a hub sends and every answer and resource a hub
  that runs this code gives; and a round over the wire is the round without it.
\<close>

section \<open>Rows\<close>

lemma those_map: "(\<And>x. x \<in> set xs \<Longrightarrow> f (g x) = Some (h x)) \<Longrightarrow> those (map f (map g xs)) = Some (map h xs)"
  by (induction xs) auto

lemma those_same: "(\<And>x. x \<in> set xs \<Longrightarrow> f (g x) = Some x) \<Longrightarrow> those (map f (map g xs)) = Some xs"
  using those_map [of xs f g "\<lambda>x. x"] by simp

lemma rows_of_list: "(\<And>x. x \<in> set xs \<Longrightarrow> f (g x) = Some x) \<Longrightarrow> rows_of f (VList (map g xs)) = Some xs"
  unfolding rows_of_def py_iter.simps option.case by (rule those_same)

lemma just_list_map: "(\<And>x. x \<in> set xs \<Longrightarrow> f (g x) = Some x) \<Longrightarrow> just_list f (VList (map g xs)) = Some xs"
  unfolding just_list.simps by (rule those_same)

lemma int_dict_map:
  "(\<And>x. f (g x) = Some x) \<Longrightarrow> int_dict f (VDict (map (\<lambda>(i, x). (VInt i, g x)) d)) = Some d"
  unfolding int_dict.simps by (rule those_same) (auto split: prod.splits)

lemma persona_row_read [simp]: "persona_from_wire c (persona_row p) = Some p"
  by (simp add: persona_from_wire_def persona_row_def py_unpack_def optional_def nth_Cons' split: option.splits)

lemma identity_row_read [simp]: "identity_from_wire c (identity_row i) = Some i"
  by (simp add: identity_from_wire_def identity_row_def py_unpack_def optional_def nth_Cons' split: option.splits)

lemma entries_read:
  assumes "\<And>x. f (g x) = Some x" and "distinct (map fst d)"
  shows "entries_from_wire c f (VDict (map (\<lambda>(k, x). (VStr k, g x)) d)) = Some d"
proof -
  have "those (map (\<lambda>(k, x). map_option (Pair (py_str c k)) (f x)) (map (\<lambda>(k, x). (VStr k, g x)) d)) = Some d"
    by (rule those_same) (auto simp: assms(1))
  then show ?thesis
    by (simp add: entries_from_wire_def dict_of_distinct [OF assms(2)])
qed

section \<open>Answers\<close>

lemma read_personas_written:
  "read_personas c (write_answer (Rs_Personas PROTOCOL_VERSION personas identities)) =
     Rs_Personas PROTOCOL_VERSION personas identities"
proof -
  have "rows_of (persona_from_wire c) (VList (map persona_row personas)) = Some personas"
    "rows_of (identity_from_wire c) (VList (map identity_row identities)) = Some identities"
    by (simp_all add: rows_of_list)
  then show ?thesis
    by (simp add: read_personas_def rows_from_wire_def py_unpack_def is_number_def)
qed

lemma read_state_written:
  assumes "distinct (map fst groups)" and "distinct (map fst members)"
  shows "read_state c (write_answer (Rs_State PROTOCOL_VERSION name groups members)) =
     Rs_State PROTOCOL_VERSION name groups members"
proof -
  have g: "group_from_wire c (case x of (d, a) \<Rightarrow> VList [VBytes d, VStr a]) = Some x" for x
    by (cases x) (simp add: group_from_wire_def py_unpack_def)
  have u: "rows_of py_bytes (VList (map VBytes us)) = Some us" for us
    by (rule rows_of_list) simp
  show ?thesis
    using entries_read [where c = c and f = "group_from_wire c", OF g assms(1)]
      entries_read [where c = c and f = "rows_of py_bytes", OF u assms(2)]
    by (simp add: read_state_def state_from_wire_def py_unpack_def is_number_def case_prod_unfold)
qed

lemma group_roots_written:
  "group_roots (map (\<lambda>(g, rs). (VStr g, VDict (map (\<lambda>(e, h). (VInt e, VBytes h)) rs))) roots) = Some roots"
proof (induction roots)
  case (Cons x roots)
  then show ?case
    using int_dict_map [of just_bytes VBytes "snd x"] by (cases x) (simp del: int_dict.simps)
qed simp

lemma read_roots_written:
  "read_roots (write_answer (Rs_Roots PROTOCOL_VERSION roots)) = Some (Rs_Roots PROTOCOL_VERSION roots)"
  by (cases roots) (simp_all add: read_roots_def is_number_def group_roots_written)

lemma read_nodes_written:
  "read_dict just_bytes Rs_Nodes (write_answer (Rs_Nodes nodes)) =
     Some (if nodes = [] then Rs_None else Rs_Nodes nodes)"
  using int_dict_map [of just_bytes VBytes nodes] by (simp add: read_dict_def del: int_dict.simps)

lemma read_buckets_written:
  "read_dict (just_list just_bytes) Rs_Buckets (write_answer (Rs_Buckets buckets)) =
     Some (if buckets = [] then Rs_None else Rs_Buckets buckets)"
  using int_dict_map [of "just_list just_bytes" "\<lambda>hs. VList (map VBytes hs)" buckets]
  by (simp add: read_dict_def just_list_map del: int_dict.simps just_list.simps)

lemma read_count_written: "read_count (write_answer (Rs_Count n)) = Rs_Count n"
  by (simp add: read_count_def)

lemma records_written:
  "records_from_wire (map (\<lambda>(g, s, t, p). VList [VStr g, VBytes s, VFloat t, VBytes p]) records) = Some (records, True)"
  by (induction records) (auto simp: py_unpack_def)

lemma read_resource_written:
  "read_resource (write_resource (Resource RESOURCE_MESSAGES records True)) =
     Some (Resource RESOURCE_MESSAGES records True)"
  by (simp add: read_resource_def py_unpack_def is_number_def records_written)

section \<open>Requests\<close>

definition own_request :: "request \<Rightarrow> bool" where
  "own_request req =
     (case req of
        Req_State version \<Rightarrow> version = PROTOCOL_VERSION
      | Req_Personas version \<Rightarrow> version = PROTOCOL_VERSION
      | Req_Malformed _ \<Rightarrow> False
      | _ \<Rightarrow> True)"

lemma read_request_written:
  assumes "own_request req"
  shows "case_prod read_request (write_request req) = Some req"
proof (cases req)
  case (Req_Roots version es depth groups)
  have "just_list just_str (VList (map VStr gs)) = Some gs" for gs
    by (rule just_list_map) simp
  then show ?thesis
    unfolding Req_Roots
    by (simp add: read_request_def unpack_request_def optional_def path_defs nth_Cons' del: just_list.simps split: option.splits)
next
  case (Req_Tree gid epoch level indices)
  have "just_list just_int (VList (map VInt indices)) = Some indices"
    by (rule just_list_map) simp
  then show ?thesis
    unfolding Req_Tree
    by (simp add: read_request_def unpack_request_def path_defs nth_Cons' del: just_list.simps)
next
  case (Req_Bucket gid epoch indices)
  have "just_list just_int (VList (map VInt indices)) = Some indices"
    by (rule just_list_map) simp
  then show ?thesis
    unfolding Req_Bucket
    by (simp add: read_request_def unpack_request_def path_defs nth_Cons' del: just_list.simps)
next
  case (Req_Fetch gid hashes)
  have "just_list just_bytes (VList (map VBytes hashes)) = Some hashes"
    by (rule just_list_map) simp
  then show ?thesis
    unfolding Req_Fetch
    by (simp add: read_request_def unpack_request_def path_defs nth_Cons' del: just_list.simps)
qed (use assms in \<open>simp_all add: own_request_def read_request_def path_defs\<close>)

section \<open>A round over the wire\<close>

text \<open>What a hub that runs this code answers to a request, other than nothing.\<close>

fun legible :: "request \<Rightarrow> response \<Rightarrow> bool" where
  "legible (Req_Roots _ _ _ _) a = (\<exists>roots. a = Rs_Roots PROTOCOL_VERSION roots)"
| "legible (Req_Tree _ _ _ _) a = (\<exists>nodes. a = Rs_Nodes nodes)"
| "legible (Req_Bucket _ _ _) a = (\<exists>buckets. a = Rs_Buckets buckets)"
| "legible (Req_Fetch _ _) a = (\<exists>n. a = Rs_Count n)"
| "legible (Req_State _) a = (\<exists>name groups members. a = Rs_State PROTOCOL_VERSION name groups members \<and>
     distinct (map fst groups) \<and> distinct (map fst members))"
| "legible (Req_Personas _) a = (\<exists>personas identities. a = Rs_Personas PROTOCOL_VERSION personas identities)"
| "legible (Req_Malformed _) a = False"

text \<open>An empty dictionary is false in Python, so it reads as no answer.\<close>

definition unless_empty :: "response \<Rightarrow> response" where
  "unless_empty a = (if a = Rs_Nodes [] \<or> a = Rs_Buckets [] then Rs_None else a)"

lemma read_answer_written:
  assumes "legible req a"
  shows "read_answer c req (write_answer a) = Some (unless_empty a)"
  using assms
  by (cases req) (auto simp only: legible.simps read_answer_def request.case read_roots_written read_nodes_written
      read_buckets_written read_count_written read_state_written read_personas_written unless_empty_def
      response.simps if_True if_False simp_thms split: if_splits)

text \<open>The interface a peer offers: legible answers, resources of whole records, and a state of which
  both stay true.\<close>

locale legible_peer =
  fixes net :: "'p remote" and good :: "'p \<Rightarrow> bool"
  assumes answers: "good p \<Longrightarrow> net p req = (Answer a, pushed, q) \<Longrightarrow> legible req a"
    and stays: "good p \<Longrightarrow> net p req = (rep, pushed, q) \<Longrightarrow> good q"
    and whole: "good p \<Longrightarrow> net p req = (rep, pushed, q) \<Longrightarrow> x \<in> set pushed \<Longrightarrow>
      \<exists>records. x = Resource RESOURCE_MESSAGES records True"
begin

definition shown :: "reply \<Rightarrow> reply" where
  "shown rep = (case rep of Failed e \<Rightarrow> Failed e | Answer a \<Rightarrow> Answer (unless_empty a))"

lemma over_wire_shows:
  assumes g: "good p" and own: "own_request req"
  shows "over_wire c net p req = (let (rep, pushed, q) = net p req in (shown rep, pushed, q))"
proof (cases "net p req")
  case (fields rep pushed q)
  have "map (\<lambda>x. case read_resource (write_resource x) of None \<Rightarrow> Unreadable | Some y \<Rightarrow> y) pushed = pushed"
    using whole [OF g fields]
    by (intro map_idI) (elim meta_allE meta_impE exE, assumption, simp only: read_resource_written option.case)
  moreover have "legible req a" if "rep = Answer a" for a
    using answers [OF g] fields that by simp
  ultimately show ?thesis
    unfolding over_wire_def read_request_written [OF own] option.case fields Let_def prod.case
    by (cases rep) (simp_all add: shown_def read_answer_written)
qed

lemma ask_shows:
  assumes "good (rd_peer r)" and "own_request req"
  obtains rep arrived r1 where "ask net env req r = (rep, arrived, r1)"
    "ask (over_wire c net) env req r = (shown rep, arrived, r1)" "good (rd_peer r1)"
    "\<And>a. rep = Answer a \<Longrightarrow> legible req a"
proof (cases "net (rd_peer r) req")
  case (fields rep pushed q)
  have same: "rd_peer (fold (ingest_resource env) xs y) = rd_peer y" for xs and y :: "'p round"
  proof (induction xs arbitrary: y)
    case (Cons x xs)
    have "rd_peer (ingest_resource env x y) = rd_peer y"
      by (simp add: ingest_resource_def rd_upd_def Let_def case_prod_beta split: resource.split)
    with Cons show ?case
      by simp
  qed simp
  show ?thesis
    by (rule that) (use fields stays [OF assms(1) fields] answers [OF assms(1)] in
      \<open>auto simp: ask_def over_wire_shows [OF assms] same\<close>)
qed

text \<open>The two ways of asking agree, and lead to a good state again.\<close>

definition agree :: "'x \<times> 'p round \<Rightarrow> 'x \<times> 'p round \<Rightarrow> bool" where
  "agree a b \<longleftrightarrow> a = b \<and> good (rd_peer (snd b))"

lemma agree_refl [simp]: "good (rd_peer r) \<Longrightarrow> agree (x, r) (x, r)"
  by (simp add: agree_def)

lemma rd_peer_upd [simp]: "rd_peer (rd_upd f r) = rd_peer r"
  by (simp add: rd_upd_def)

lemma agree_result:
  assumes "agree a b"
  obtains x r where "a = (x, r)" "b = (x, r)" "good (rd_peer r)"
  using assms by (cases b) (auto simp: agree_def)

lemma walk_shows: "good (rd_peer r) \<Longrightarrow>
    agree (walk (over_wire c net) env gid epoch t levels d r) (walk net env gid epoch t levels d r)"
proof (induction levels arbitrary: d r)
  case (Cons level levels)
  let ?req = "Req_Tree gid epoch level (take MAX_NODES_PER_REQUEST (children_of d))"
  obtain rep arrived r1 where q: "ask net env ?req r = (rep, arrived, r1)"
    "ask (over_wire c net) env ?req r = (shown rep, arrived, r1)" and g: "good (rd_peer r1)"
    and l: "\<And>a. rep = Answer a \<Longrightarrow> legible ?req a"
    by (rule ask_shows [OF Cons.prems, where req = ?req and env = env and c = c]) (simp_all add: own_request_def)
  show ?case
  proof (cases rep)
    case (Answer a)
    with l obtain nodes where "a = Rs_Nodes nodes"
      by auto
    with Answer show ?thesis
      using Cons.IH [OF g] g
      by (cases "nodes = []") (simp_all add: q Let_def shown_def unless_empty_def split: sum.split)
  qed (simp add: q g shown_def Let_def)
qed simp

lemma buckets_shows: "good (rd_peer r) \<Longrightarrow>
    agree (ask_buckets (over_wire c net) env gid epoch t chs r) (ask_buckets net env gid epoch t chs r)"
proof (induction chs arbitrary: r)
  case (Cons ch chs)
  let ?req = "Req_Bucket gid epoch ch"
  obtain rep arrived r1 where q: "ask net env ?req r = (rep, arrived, r1)"
    "ask (over_wire c net) env ?req r = (shown rep, arrived, r1)" and g: "good (rd_peer r1)"
    and l: "\<And>a. rep = Answer a \<Longrightarrow> legible ?req a"
    by (rule ask_shows [OF Cons.prems, where req = ?req and env = env and c = c]) (simp_all add: own_request_def)
  show ?case
  proof (cases rep)
    case (Answer a)
    with l obtain buckets where "a = Rs_Buckets buckets"
      by auto
    with Answer show ?thesis
      using Cons.IH [OF g] g
      by (cases "buckets = []")
        (auto simp: q Let_def shown_def unless_empty_def agree_def split: sum.splits prod.splits)
  qed (simp add: q g shown_def Let_def)
qed simp

lemma missing_shows:
  assumes "good (rd_peer r)"
  shows "agree (missing_in_epoch (over_wire c net) env gid epoch t r) (missing_in_epoch net env gid epoch t r)"
proof (rule agree_result [OF walk_shows [OF assms, of c env gid epoch t "[1..int (t_depth t)]" "[0]"]])
  fix x r1
  assume "walk (over_wire c net) env gid epoch t [1..int (t_depth t)] [0] r = (x, r1)"
    "walk net env gid epoch t [1..int (t_depth t)] [0] r = (x, r1)" "good (rd_peer r1)"
  then show ?thesis
    by (cases x) (simp_all add: missing_in_epoch_def buckets_shows)
qed

lemma batches_shows: "good (rd_peer r) \<Longrightarrow>
    agree (fetch_batches (over_wire c net) env gid batches r) (fetch_batches net env gid batches r)"
proof (induction batches arbitrary: r)
  case (Cons batch batches)
  let ?req = "Req_Fetch gid batch"
  obtain rep arrived r1 where q: "ask net env ?req r = (rep, arrived, r1)"
    "ask (over_wire c net) env ?req r = (shown rep, arrived, r1)" and g: "good (rd_peer r1)"
    and l: "\<And>a. rep = Answer a \<Longrightarrow> legible ?req a"
    by (rule ask_shows [OF Cons.prems, where req = ?req and env = env and c = c]) (simp_all add: own_request_def)
  show ?case
  proof (cases rep)
    case (Answer a)
    with l obtain n where "a = Rs_Count n"
      by auto
    with Answer show ?thesis
      using Cons.IH [OF g] g by (simp add: q shown_def unless_empty_def)
  qed (simp add: q g shown_def)
qed simp

lemma fetch_shows:
  assumes "good (rd_peer r)"
  shows "agree (fetch cfg (over_wire c net) env gid hashes r) (fetch cfg net env gid hashes r)"
proof (cases "max_fetch_batch (federation_cfg cfg) = 0")
  case False
  let ?chunks = "chunks (max_fetch_batch (federation_cfg cfg)) hashes"
  show ?thesis
  proof (rule agree_result [OF batches_shows [OF assms, of c env gid ?chunks]])
    fix x r1
    assume "fetch_batches (over_wire c net) env gid ?chunks r = (x, r1)"
      "fetch_batches net env gid ?chunks r = (x, r1)" "good (rd_peer r1)"
    then show ?thesis
      using False by (cases x) (simp_all add: fetch_def Let_def)
  qed
qed (simp add: fetch_def Let_def assms)

lemma epochs_shows: "good (rd_peer r) \<Longrightarrow>
    agree (reconcile_epochs cfg (over_wire c net) env gid oldest roots r)
      (reconcile_epochs cfg net env gid oldest roots r)"
proof (induction roots arbitrary: r)
  case (Cons root roots)
  obtain epoch there where root: "root = (epoch, there)"
    by (cases root)
  show ?case
  proof (cases "epoch < oldest")
    case False
    show ?thesis
    proof (cases "tree cfg (he_sha env) gid epoch (rd_store r)")
      case (Inr t)
      show ?thesis
      proof (rule agree_result [OF missing_shows [OF Cons.prems, of c env gid epoch t]])
        fix x r1
        assume m: "missing_in_epoch (over_wire c net) env gid epoch t r = (x, r1)"
          "missing_in_epoch net env gid epoch t r = (x, r1)" and g1: "good (rd_peer r1)"
        show ?thesis
        proof (cases x)
          case x: (Inr hs)
          show ?thesis
          proof (rule agree_result [OF fetch_shows [OF g1, of cfg c env gid hs]])
            fix y r2
            assume f: "fetch cfg (over_wire c net) env gid hs r1 = (y, r2)"
              "fetch cfg net env gid hs r1 = (y, r2)" and g2: "good (rd_peer r2)"
            show ?thesis
              using Cons.IH [OF g2] Cons.IH [OF g1] Cons.IH [OF Cons.prems] False Inr m f g2 x root
              by (cases y) (auto simp: agree_def split: sum.splits prod.splits)
          qed
        qed (use False Inr m g1 root Cons.IH [OF Cons.prems] in simp)
      qed
    qed (use False root Cons.prems in simp)
  qed (use root Cons.IH [OF Cons.prems] in simp)
qed simp

lemma group_shows:
  "good (rd_peer r) \<Longrightarrow>
    agree (reconcile_group cfg (over_wire c net) env gid roots r) (reconcile_group cfg net env gid roots r)"
  by (simp add: reconcile_group_def epochs_shows split: sum.split)

lemma all_shows: "good (rd_peer r) \<Longrightarrow>
    agree (reconcile_all cfg (over_wire c net) env here groups r) (reconcile_all cfg net env here groups r)"
proof (induction groups arbitrary: r)
  case (Cons x groups)
  obtain gid roots where x: "x = (gid, roots)"
    by (cases x)
  show ?case
  proof (rule agree_result [OF group_shows [OF Cons.prems, of cfg c env gid roots]])
    fix y r1
    assume "reconcile_group cfg (over_wire c net) env gid roots r = (y, r1)"
      "reconcile_group cfg net env gid roots r = (y, r1)" "good (rd_peer r1)"
    then show ?thesis
      using Cons.IH [of r1] Cons.IH [OF Cons.prems] x
      by (auto simp: agree_def Let_def split: sum.splits prod.splits)
  qed
qed simp

lemma state_shows:
  assumes "good (rd_peer r)"
  shows "agree (exchange_state (over_wire c net) env dest r) (exchange_state net env dest r)"
proof -
  let ?req = "Req_State PROTOCOL_VERSION"
  obtain rep arrived r1 where q: "ask net env ?req r = (rep, arrived, r1)"
    "ask (over_wire c net) env ?req r = (shown rep, arrived, r1)" and g: "good (rd_peer r1)"
    and l: "\<And>a. rep = Answer a \<Longrightarrow> legible ?req a"
    by (rule ask_shows [OF assms, where req = ?req and env = env and c = c]) (simp_all add: own_request_def)
  show ?thesis
  proof (cases rep)
    case (Answer a)
    with l obtain name groups members where "a = Rs_State PROTOCOL_VERSION name groups members"
      by auto
    with Answer show ?thesis
      by (simp add: exchange_state_def q g shown_def unless_empty_def Let_def case_prod_beta agree_def)
  qed (simp add: exchange_state_def q g shown_def)
qed

lemma rd_peer_losers [simp]: "rd_peer (tell_losers env losers (r :: 'p round)) = rd_peer r"
proof -
  have "rd_peer (fold (\<lambda>(p, lost). rd_upd (f p lost)) losers y) = rd_peer y" for f and y :: "'p round"
    by (induction losers arbitrary: y) auto
  then show ?thesis
    by (simp add: tell_losers_def)
qed

lemma personas_shows:
  assumes "good (rd_peer r)"
  shows "agree (exchange_personas (over_wire c net) env r) (exchange_personas net env r)"
proof -
  let ?req = "Req_Personas PROTOCOL_VERSION"
  obtain rep arrived r1 where q: "ask net env ?req r = (rep, arrived, r1)"
    "ask (over_wire c net) env ?req r = (shown rep, arrived, r1)" and g: "good (rd_peer r1)"
    and l: "\<And>a. rep = Answer a \<Longrightarrow> legible ?req a"
    by (rule ask_shows [OF assms, where req = ?req and env = env and c = c]) (simp_all add: own_request_def)
  show ?thesis
  proof (cases rep)
    case (Answer a)
    with l obtain personas identities where "a = Rs_Personas PROTOCOL_VERSION personas identities"
      by auto
    with Answer show ?thesis
      by (simp add: exchange_personas_def q g shown_def unless_empty_def agree_def split: prod.split sum.split)
  qed (simp add: exchange_personas_def q g shown_def)
qed

lemma round_shows:
  assumes "good (rd_peer r)"
  shows "agree (reconcile_round cfg (over_wire c net) env dest r) (reconcile_round cfg net env dest r)"
proof -
  let ?req = "Req_Roots PROTOCOL_VERSION (epoch_seconds (federation_cfg cfg)) (merkle_depth (federation_cfg cfg)) None"
  obtain rep arrived r1 where q: "ask net env ?req r = (rep, arrived, r1)"
    "ask (over_wire c net) env ?req r = (shown rep, arrived, r1)" and g: "good (rd_peer r1)"
    and l: "\<And>a. rep = Answer a \<Longrightarrow> legible ?req a"
    by (rule ask_shows [OF assms, where req = ?req and env = env and c = c]) (simp_all add: own_request_def)
  show ?thesis
  proof (cases rep)
    case (Answer a)
    with l obtain roots where a: "a = Rs_Roots PROTOCOL_VERSION roots"
      by auto
    show ?thesis
    proof (cases roots)
      case (Some groups)
      show ?thesis
        using all_shows [OF g, of cfg c env "local_group_ids (rd_store r1)" groups]
        by (simp add: reconcile_round_def q Answer a Some g shown_def unless_empty_def Let_def case_prod_beta agree_def)
    qed (simp add: reconcile_round_def q Answer a g shown_def unless_empty_def Let_def)
  qed (simp add: reconcile_round_def q g shown_def Let_def)
qed

lemma peer_shows:
  assumes g: "good (rd_peer r)"
  shows "agree (sync_peer cfg (over_wire c net) env dest r) (sync_peer cfg net env dest r)"
proof -
  obtain up r1 where e: "establish env dest r = (up, r1)" "rd_peer r1 = rd_peer r"
    by (simp add: establish_def)
  show ?thesis
  proof (cases up)
    case True
    have "good (rd_peer (r1\<lparr>rd_ingested := 0\<rparr>))"
      using g e by simp
    then show ?thesis
    proof (rule agree_result [OF state_shows [of _ c env dest]])
      fix x r2
      assume s: "exchange_state (over_wire c net) env dest (r1\<lparr>rd_ingested := 0\<rparr>) = (x, r2)"
        "exchange_state net env dest (r1\<lparr>rd_ingested := 0\<rparr>) = (x, r2)" and g2: "good (rd_peer r2)"
      show ?thesis
      proof (rule agree_result [OF personas_shows [OF g2, of c env]])
        fix y r3
        assume "exchange_personas (over_wire c net) env r2 = (y, r3)" "exchange_personas net env r2 = (y, r3)"
          "good (rd_peer r3)"
        then show ?thesis
          using s g2 e True by (simp add: sync_peer_def round_shows split: sum.split)
      qed
    qed
  qed (simp add: sync_peer_def e g Let_def)
qed

lemma guarded_shows:
  "good (rd_peer r) \<Longrightarrow>
    sync_guarded cfg (over_wire c net) env dest r = sync_guarded cfg net env dest r"
  using peer_shows [of r cfg c env dest] by (simp add: sync_guarded_def agree_def)

end

section \<open>A peer that runs this code is legible\<close>

lemma served_keys:
  assumes "groups_ok s" and "serve_state cfg en env who s = Inr (Rs_State v name groups members)"
  shows "v = PROTOCOL_VERSION" "distinct (map fst groups)" "distinct (map fst members)"
proof -
  let ?f = "\<lambda>g. case group_destination_hash (ce_dest_of env) (g_key g) of
    Inl e \<Rightarrow> Inl (Store_Error e) | Inr h \<Rightarrow> Inr (g_id g, h, g_acl g)"
  have t: "traverse ?f (list_groups s) = Inr groups" and v: "v = PROTOCOL_VERSION"
    and m: "members = map (\<lambda>g. (g_id g, map fst (list_members (g_id g) False s))) (list_groups s)"
    using assms(2) by (auto simp: serve_state_def split: if_splits sum.splits)
  have d: "distinct (map g_id (list_groups s))"
    using assms(1) by (simp add: groups_ok_def list_groups_def keys_distinct_def distinct_map)
  have "map fst groups = map g_id (list_groups s)"
    using t by (rule traverse_map) (auto split: sum.splits)
  with d show "v = PROTOCOL_VERSION" "distinct (map fst groups)" "distinct (map fst members)"
    by (simp_all add: v m comp_def)
qed

lemma served_is_legible:
  assumes ok: "groups_ok s" and served: "serve cfg en env link who req s = Inr (a, pushed)" and some: "a \<noteq> Rs_None"
  shows "legible req a"
proof (cases req)
  case (Req_State v)
  then have "serve_state cfg en env who s = Inr a"
    using served by (auto simp: serve_def split: sum.splits)
  moreover from this some obtain v name groups members where "a = Rs_State v name groups members"
    by (auto simp: serve_state_def split: if_splits sum.splits)
  ultimately show ?thesis
    using served_keys [OF ok] Req_State by auto
qed (use served some in \<open>auto simp: serve_def serve_roots_def serve_tree_def serve_bucket_def serve_fetch_def
      serve_personas_def Let_def case_prod_beta split: sum.splits if_splits\<close>)

lemma served_whole:
  assumes "serve cfg en env link who req s = Inr (a, pushed)" and "x \<in> set pushed"
  shows "\<exists>records. x = Resource RESOURCE_MESSAGES records True"
  using assms by (cases req) (auto simp: serve_def serve_fetch_def Let_def split: sum.splits if_splits)

interpretation hub_peer: legible_peer "honest cfg en env link me" groups_ok for cfg en env link me
proof
  fix p req a pushed q
  assume "groups_ok p" "honest cfg en env link me p req = (Answer a, pushed, q)"
  then show "legible req a"
    by (auto simp: honest_def split: sum.splits prod.splits response.splits intro!: served_is_legible)
next
  fix p req rep pushed q
  assume h: "honest cfg en env link me p req = (rep, pushed, q)"
  then have "q = p"
    by (auto simp: honest_def split: sum.splits prod.splits response.splits)
  then show "groups_ok q" if "groups_ok p"
    using that by simp
  show "\<exists>records. x = Resource RESOURCE_MESSAGES records True" if "x \<in> set pushed" for x
    using h that served_whole [of cfg en env link "Some me" req p]
    by (auto simp: honest_def split: sum.splits prod.splits response.splits)
qed

end
