(* ===== verification/Wire_Properties.thy ===== *)
theory Wire_Properties
  imports Wire_Facts Federation_Properties
begin

text \<open>What the wire between two hubs keeps, and what an answer that cannot be taken apart does.\<close>

section \<open>Between two hubs\<close>

definition sample_casts :: casts where
  "sample_casts = \<lparr>cast_text = (\<lambda>_. ''value''), cast_float = (\<lambda>_. None), cast_int = (\<lambda>_. None)\<rparr>"

text \<open>C3: a round with a peer that runs this code is the same whether requests, answers and
  resources are handed over as they are or as the Python values that \<open>federation.py\<close> gives to msgpack
  and takes apart again: no handler answers what a client misreads, whatever the stores hold and
  whatever \<open>str\<close>, \<open>int\<close> and \<open>float\<close> make of other values.\<close>

theorem sync_over_wire:
  assumes "groups_ok (rd_peer r)"
  shows "sync_guarded cfg (over_wire c (honest cfgR enR envR link me)) env dest r =
    sync_guarded cfg (honest cfgR enR envR link me) env dest r"
  using assms by (rule hub_peer.guarded_shows)

theorem sync_over_wire_witness:
  "sync_guarded sync_cfg (over_wire sample_casts (honest sync_cfg sync_engine sync_env [9] net_hash)) sync_env peer_hub sync_round =
    sync_guarded sync_cfg (honest sync_cfg sync_engine sync_env [9] net_hash) sync_env peer_hub sync_round"
proof -
  have "groups_ok (rd_peer sync_round)"
    using sample_store_ok
    by (simp add: store_ok_def groups_ok_def sync_round_def sync_there_def sample_store_def keys_distinct_def names_unique_def)
  then show ?thesis
    by (rule sync_over_wire)
qed

section \<open>Answers that cannot be taken apart\<close>

text \<open>C38: whatever a peer answers to \<open>/fed/state\<close> that is not a readable state, no table of the gossip is
  touched: a false value or another version is passed over, and anything else ends the round with an error; but
  if it starts with this version, the peer first counts as having answered. Whatever it answers to
  \<open>/fed/personas\<close> that has an unreadable row or is no triple of this version, no persona or device is
  touched: it is passed over, unless it is a true value that has no first item, such as the number 5; that ends
  the round, too.\<close>

theorem malformed_answers:
  assumes "ask net env (Req_State PROTOCOL_VERSION) r = (Answer (read_state c v), b, r1)"
    and "state_from_wire c v = None"
    and "ask net env (Req_Personas PROTOCOL_VERSION) r' = (Answer (read_personas c w), b', r1')"
    and "rows_from_wire c w = None"
  shows "exchange_state net env dest r =
      (if \<not> py_true v then (Inr (), r1)
       else case py_item 0 v of
         None \<Rightarrow> (Inl Bad_Response, r1)
       | Some version \<Rightarrow>
           if is_number PROTOCOL_VERSION version
           then (Inl Bad_Response, rd_upd (record_peer_success dest (ce_now env)) r1) else (Inr (), r1)) \<and>
    exchange_personas net env r' =
      (if py_true w \<and> py_item 0 w = None then Inl Bad_Response else Inr (), r1')"
proof -
  have "read_state c v =
      (if \<not> py_true v then Rs_None
       else case py_item 0 v of None \<Rightarrow> Rs_Other
       | Some version \<Rightarrow> if is_number PROTOCOL_VERSION version then Rs_State_Cut else Rs_None)"
    using assms(2) by (auto simp: read_state_def split: option.split)
  moreover have "read_personas c w = Rs_None \<or> read_personas c w = Rs_Personas_Cut"
    if "\<not> py_true w \<or> py_item 0 w \<noteq> None"
    using assms(4) that by (auto simp: read_personas_def split: option.split)
  moreover have "read_personas c w = Rs_Other" if "py_true w" "py_item 0 w = None"
    using that by (simp add: read_personas_def)
  ultimately show ?thesis
    using assms(1,3)
    by (cases "py_true w \<and> py_item 0 w = None")
      (auto simp: exchange_state_def exchange_personas_def split: option.splits)
qed

text \<open>A peer whose state lacks the members and whose only persona row is short.\<close>

definition short_state :: pyval where
  "short_state = VList [VInt 1, VStr ''hub'', VDict []]"

definition short_rows :: pyval where
  "short_rows = VList [VInt 1, VList [VList [VBytes [1]]], VList []]"

definition careless_round :: "unit round" where
  "careless_round = \<lparr>rd_peer = (), rd_hub = sample_hub, rd_ingested = 0\<rparr>"

definition careless :: "casts \<Rightarrow> unit remote" where
  "careless c p req =
     ((case read_answer c req (case req of Req_State _ \<Rightarrow> short_state | _ \<Rightarrow> short_rows) of
         None \<Rightarrow> Failed [] | Some a \<Rightarrow> Answer a), [], p)"

theorem malformed_answers_witness:
  "exchange_state (careless sample_casts) sync_env peer_hub careless_round =
      (Inl Bad_Response, rd_upd (record_peer_success peer_hub (ce_now sync_env)) careless_round) \<and>
    exchange_personas (careless sample_casts) sync_env careless_round = (Inr (), careless_round)"
proof -
  have s: "ask (careless sample_casts) sync_env (Req_State PROTOCOL_VERSION) careless_round =
      (Answer (read_state sample_casts short_state), False, careless_round)"
    "state_from_wire sample_casts short_state = None"
    by (simp_all add: ask_def careless_def read_answer_def state_from_wire_def short_state_def py_unpack_def careless_round_def)
  have p: "ask (careless sample_casts) sync_env (Req_Personas PROTOCOL_VERSION) careless_round =
      (Answer (read_personas sample_casts short_rows), False, careless_round)"
    "rows_from_wire sample_casts short_rows = None"
    by (simp_all add: ask_def careless_def read_answer_def rows_from_wire_def rows_of_def persona_from_wire_def
        short_rows_def py_unpack_def careless_round_def)
  show ?thesis
    using malformed_answers [OF s p, of peer_hub]
    by (simp add: short_state_def short_rows_def is_number_def PROTOCOL_VERSION_def)
qed

end
