(* ===== verification/Command_Line.thy ===== *)
theory Command_Line
  imports Control
begin

text \<open>
  From the text of a command to the command: \<open>shlex.split\<close> as \<open>control.py\<close> uses it, the argument
  declarations of \<open>build_parser\<close> in \<open>admin.py\<close>, and what \<open>argparse\<close> makes of a list of words under
  such declarations. The texts of errors and of \<open>-h\<close> wrap at the width of a terminal and stay a
  parameter. The word \<open>--\<close> is taken as up to Python 3.12; a second one in a command is refused here.
\<close>

section \<open>Words\<close>

text \<open>\<open>shlex.split\<close>: POSIX rules, white space separates, no comments.\<close>

definition is_blank :: "char \<Rightarrow> bool" where
  "is_blank c \<longleftrightarrow> c \<in> {CHR '' '', CHR 0x09, CHR 0x0A, CHR 0x0D}"

definition SINGLE :: char where "SINGLE = CHR 0x27"
definition DOUBLE :: char where "DOUBLE = CHR 0x22"
definition BACKSLASH :: char where "BACKSLASH = CHR 0x5C"

text \<open>The state of the lexer: between words, in a word, within a quote, and after a backslash in a word
  or in double quotes. The flag says that the word has a quoted part, so it counts even if empty.\<close>

datatype lex_state = Between | In_Word | In_Quote char | Escaped "char option"

fun lex :: "lex_state \<Rightarrow> string \<Rightarrow> bool \<Rightarrow> string \<Rightarrow> string + string list" where
  "lex Between w q [] = Inr []"
| "lex In_Word w q [] = Inr (if w \<noteq> [] \<or> q then [w] else [])"
| "lex (In_Quote _) w q [] = Inl ''No closing quotation''"
| "lex (Escaped _) w q [] = Inl ''No escaped character''"
| "lex Between w q (c # cs) =
     (if is_blank c then lex Between [] False cs
      else if c = BACKSLASH then lex (Escaped None) [] False cs
      else if c = SINGLE \<or> c = DOUBLE then lex (In_Quote c) [] False cs
      else lex In_Word [c] False cs)"
| "lex In_Word w q (c # cs) =
     (if is_blank c then
        (case lex Between [] False cs of
           Inl e \<Rightarrow> Inl e
         | Inr ws \<Rightarrow> Inr (if w \<noteq> [] \<or> q then w # ws else ws))
      else if c = SINGLE \<or> c = DOUBLE then lex (In_Quote c) w q cs
      else if c = BACKSLASH then lex (Escaped None) w q cs
      else lex In_Word (w @ [c]) q cs)"
| "lex (In_Quote d) w q (c # cs) =
     (if c = d then lex In_Word w True cs
      else if c = BACKSLASH \<and> d = DOUBLE then lex (Escaped (Some d)) w True cs
      else lex (In_Quote d) (w @ [c]) True cs)"
| "lex (Escaped None) w q (c # cs) = lex In_Word (w @ [c]) q cs"
| "lex (Escaped (Some d)) w q (c # cs) =
     lex (In_Quote d) (w @ (if c \<noteq> BACKSLASH \<and> c \<noteq> d then [BACKSLASH, c] else [c])) q cs"

definition shlex_split :: "string \<Rightarrow> string + string list" where
  "shlex_split s = lex Between [] False s"

section \<open>The declarations\<close>

text \<open>An argument with its choices, if it has any; an option is named by its flag. All of them take
  one value.\<close>

type_synonym argument = "string \<times> string list option"

record verb_spec =
  vs_summary :: string
  vs_options :: "argument list"
  vs_positionals :: "argument list"

definition ACL_CHOICES :: "string list" where "ACL_CHOICES = [ACL_PUBLIC, ACL_INVITE]"
definition ROLE_CHOICES :: "string list" where
  "ROLE_CHOICES = map role_text [ROLE_MEMBER, ROLE_ADMIN, ROLE_BANNED]"

definition build_parser :: "(string \<times> verb_spec) list" where
  "build_parser =
     (let verb = (\<lambda>name summary options positionals.
            (name, \<lparr>vs_summary = summary, vs_options = options, vs_positionals = positionals\<rparr>));
          group = (''group_id'', None); user = (''user_hash'', None)
      in [verb ''run'' ''run the hub daemon'' [] [],
          verb ''create-group'' ''create a group and its RNS identity''
            [(''--name'', None), (''--acl'', Some ACL_CHOICES)] [group],
          verb ''groups'' ''list groups and their destination hashes'' [] [],
          verb ''delete-group'' ''delete a group and all its members'' [] [group],
          verb ''set-acl'' ''change the ACL mode of a group'' [] [group, (''acl'', Some ACL_CHOICES)],
          verb ''add-member'' ''authorise an LXMF address (not an RNS identity hash)''
            [(''--role'', Some ROLE_CHOICES)] [group, user],
          verb ''remove-member'' ''remove a member from a group'' [] [group, user],
          verb ''members'' ''list the members of a group'' [] [group],
          verb ''status'' ''show queue depths and group counts'' [] [],
          verb ''peers'' ''show peer hubs, their endpoints and last contact'' [] []])"

text \<open>\<open>command_usage\<close>: the usage line of \<open>argparse\<close> without its wrapping and \<open>[-h]\<close>.\<close>

definition metavar :: "string \<Rightarrow> argument \<Rightarrow> string" where
  "metavar shown a =
     (case snd a of None \<Rightarrow> shown | Some cs \<Rightarrow> ''{'' @ join_with '','' cs @ ''}'')"

definition command_usage :: "string \<Rightarrow> string" where
  "command_usage verb =
     (case map_of build_parser verb of
        None \<Rightarrow> verb
      | Some spec \<Rightarrow>
          join_with '' '' ([verb] @
            map (\<lambda>a. ''['' @ fst a @ '' '' @ metavar (upper (drop 2 (fst a))) a @ '']'') (vs_options spec) @
            map (\<lambda>a. metavar (fst a) a) (vs_positionals spec)))"

section \<open>Parsing words\<close>

text \<open>What \<open>argparse\<close> takes a word for: a plain word, one of the flags with the value after \<open>=\<close> if
  it has one (an unambiguous prefix of a long flag will do), or neither.\<close>

datatype word_class = Plain | Flag string "string option" | Neither

text \<open>\<open>before_equals\<close> and \<open>after_equals\<close> split at the first \<open>=\<close>.\<close>

definition before_equals :: "string \<Rightarrow> string" where
  "before_equals s = takeWhile (\<lambda>c. c \<noteq> CHR ''='') s"

definition after_equals :: "string \<Rightarrow> string option" where
  "after_equals s = (if CHR ''='' \<in> set s then Some (tl (dropWhile (\<lambda>c. c \<noteq> CHR ''='') s)) else None)"

definition is_digits :: "string \<Rightarrow> bool" where
  "is_digits s \<longleftrightarrow> list_all (\<lambda>c. c \<in> set ''0123456789'') s"

text \<open>\<open>^-\d+$|^-\d*\.\d+$\<close>, where \<open>$\<close> also matches before a final line feed.\<close>

definition negative_number :: "string \<Rightarrow> bool" where
  "negative_number s \<longleftrightarrow>
     (let t = (if last s = CHR 0x0A then butlast (tl s) else tl s);
          whole = takeWhile (\<lambda>c. c \<noteq> CHR ''.'') t; part = tl (dropWhile (\<lambda>c. c \<noteq> CHR ''.'') t)
      in take 1 s = ''-'' \<and> is_digits whole \<and>
         (if CHR ''.'' \<in> set t then part \<noteq> [] \<and> is_digits part else whole \<noteq> []))"

definition starts_with :: "string \<Rightarrow> string \<Rightarrow> bool" where
  "starts_with p s \<longleftrightarrow> take (length p) s = p"

definition classify :: "string list \<Rightarrow> string \<Rightarrow> word_class" where
  "classify flags s =
     (if take 1 s \<noteq> ''-'' then Plain
      else if s \<in> set flags then Flag s None
      else if length s = 1 then Plain
      else if CHR ''='' \<in> set s \<and> before_equals s \<in> set flags then Flag (before_equals s) (after_equals s)
      else
        let long = take 2 s = ''--'';
            matches = (if long then filter (starts_with (before_equals s)) flags
              else filter (\<lambda>f. f = take 2 s \<or> starts_with s f) flags)
        in case matches of
             [f] \<Rightarrow> Flag f (if long then after_equals s else if f = take 2 s then Some (drop 2 s) else None)
           | _ # _ # _ \<Rightarrow> Neither
           | [] \<Rightarrow> if negative_number s \<or> CHR '' '' \<in> set s then Plain else Neither)"

definition HELP_FLAGS :: "string list" where "HELP_FLAGS = [''-h'', ''--help'']"

definition allowed :: "string list option \<Rightarrow> string \<Rightarrow> bool" where
  "allowed choices v \<longleftrightarrow> (case choices of None \<Rightarrow> True | Some cs \<Rightarrow> v \<in> set cs)"

text \<open>The words of one command: the values by name, the last one first, or \<open>None\<close> where the parser
  raises. \<open>adjacent\<close>: the word before was a positional, so a \<open>--\<close> belongs to it; \<open>raw\<close>: it was seen.\<close>

fun parse_words ::
    "argument list \<Rightarrow> argument list \<Rightarrow> bool \<Rightarrow> bool \<Rightarrow> (string \<times> string) list \<Rightarrow> string list
     \<Rightarrow> (string \<times> string) list option" where
  "parse_words opts pos adjacent raw vals [] = (if pos = [] then Some vals else None)"
| "parse_words opts pos adjacent raw vals (w # ws) =
     (let flags = HELP_FLAGS @ map fst opts;
          positional = (case pos of
              [] \<Rightarrow> None
            | (name, choices) # rest \<Rightarrow>
                if allowed choices w then parse_words opts rest True raw ((name, w) # vals) ws else None)
      in if w = ''--''
         then (if raw \<or> (pos = [] \<and> \<not> adjacent) then None else parse_words opts pos False True vals ws)
         else if raw then positional
         else case classify flags w of
           Plain \<Rightarrow> positional
         | Neither \<Rightarrow> None
         | Flag f given \<Rightarrow>
             (case map_of opts f of
                None \<Rightarrow> None
              | Some choices \<Rightarrow>
                  (case given of
                     Some v \<Rightarrow>
                       if allowed choices v then parse_words opts pos False raw ((f, v) # vals) ws else None
                   | None \<Rightarrow>
                       (case ws of
                          [] \<Rightarrow> None
                        | v # rest1 \<Rightarrow>
                            if v \<noteq> ''--'' \<and> classify flags v = Plain \<and> allowed choices v
                            then parse_words opts pos False raw ((f, v) # vals) rest1 else None))))"

fun role_of_text :: "string \<Rightarrow> role" where
  "role_of_text t = (if t = role_text ROLE_ADMIN then ROLE_ADMIN else if t = role_text ROLE_BANNED then ROLE_BANNED
     else ROLE_MEMBER)"

text \<open>The namespace as a command; \<open>None\<close> is \<open>run\<close>.\<close>

definition command_of :: "string \<Rightarrow> (string \<times> string) list \<Rightarrow> admin_cmd option" where
  "command_of verb vals =
     (let field = (\<lambda>k. case map_of vals k of None \<Rightarrow> [] | Some v \<Rightarrow> v); gid = field ''group_id''
      in if verb = ''create-group'' then Some (CreateGroup gid (map_of vals ''--name'') (map_of vals ''--acl''))
         else if verb = ''groups'' then Some Groups
         else if verb = ''delete-group'' then Some (DeleteGroup gid)
         else if verb = ''set-acl'' then Some (SetAcl gid (field ''acl''))
         else if verb = ''add-member'' then Some (AddMember gid (field ''user_hash'')
           (case map_of vals ''--role'' of None \<Rightarrow> ROLE_MEMBER | Some r \<Rightarrow> role_of_text r))
         else if verb = ''remove-member'' then Some (RemoveMember gid (field ''user_hash''))
         else if verb = ''members'' then Some (Members gid)
         else if verb = ''status'' then Some Status
         else if verb = ''peers'' then Some Peers
         else None)"

definition parse_verb :: "string \<Rightarrow> string list \<Rightarrow> admin_cmd option option" where
  "parse_verb verb ws =
     (case map_of build_parser verb of
        None \<Rightarrow> None
      | Some spec \<Rightarrow>
          map_option (command_of verb) (parse_words (vs_options spec) (vs_positionals spec) False False [] ws))"

text \<open>The whole command line: \<open>--config\<close> comes before the verb.\<close>

fun parse_args :: "string option \<Rightarrow> string list \<Rightarrow> (string option \<times> admin_cmd option) option" where
  "parse_args config [] = None"
| "parse_args config (w # ws) =
     (let flags = HELP_FLAGS @ [''--config'']
      in if w = ''--'' then None
         else case classify flags w of
           Plain \<Rightarrow> map_option (Pair config) (parse_verb w ws)
         | Neither \<Rightarrow> None
         | Flag f given \<Rightarrow>
             if f \<noteq> ''--config'' then None
             else (case given of
                 Some v \<Rightarrow> parse_args (Some v) ws
               | None \<Rightarrow>
                   (case ws of
                      [] \<Rightarrow> None
                    | v # rest1 \<Rightarrow>
                        if v \<noteq> ''--'' \<and> classify flags v = Plain then parse_args (Some v) rest1 else None)))"

text \<open>The parser as the operator channel and the command line call it; \<open>text\<close> is what a \<open>CommandError\<close>
  of the parser says.\<close>

definition remote_parse :: "(string list \<Rightarrow> string) \<Rightarrow> string list \<Rightarrow> admin_error + admin_cmd" where
  "remote_parse text ws =
     (case parse_args None ws of
        Some (_, Some cmd) \<Rightarrow> Inr cmd
      | Some (_, None) \<Rightarrow> Inl (CommandError ''Unsupported command: run'')
      | None \<Rightarrow> Inl (CommandError (text ws)))"

definition cli_parse :: "(string list \<Rightarrow> string) \<Rightarrow> string list \<Rightarrow> string + (string option \<times> admin_cmd option)" where
  "cli_parse text argv = (case parse_args None argv of None \<Rightarrow> Inl (text argv) | Some r \<Rightarrow> Inr r)"

end
