(* ===== verification/Command_Line_Properties.thy ===== *)
theory Command_Line_Properties
  imports Command_Line Sample
begin

text \<open>Every administrative command can be written as a line for the operator channel, and a line means
  one command at most, with valid choices.\<close>

section \<open>Quoting\<close>

text \<open>As \<open>shlex.quote\<close>: single quotes around the word, those in it between double ones.\<close>

definition quote_char :: "char \<Rightarrow> string" where
  "quote_char c = (if c = SINGLE then [SINGLE, DOUBLE, SINGLE, DOUBLE, SINGLE] else [c])"

definition quote_word :: "string \<Rightarrow> string" where
  "quote_word w = SINGLE # concat (map quote_char w) @ [SINGLE]"

lemmas lex_chars = SINGLE_def DOUBLE_def BACKSLASH_def

lemma lex_quoted:
  "lex (In_Quote SINGLE) w q (concat (map quote_char v) @ SINGLE # rest) = lex In_Word (w @ v) True rest"
proof (induction v arbitrary: w q)
  case (Cons c v)
  show ?case
    using Cons.IH [of "w @ [c]"] by (cases "c = SINGLE") (auto simp: quote_char_def lex_chars is_blank_def)
qed simp

lemma lex_quote_word: "lex Between [] False (quote_word v @ rest) = lex In_Word v True rest"
  using lex_quoted [of "[]" False v rest] by (simp add: quote_word_def is_blank_def lex_chars)

lemma shlex_quoted: "shlex_split (join_with '' '' (map quote_word ws)) = Inr ws"
proof (induction ws)
  case (Cons w ws)
  show ?case
  proof (cases ws)
    case Nil
    then show ?thesis
      using lex_quote_word [of w "[]"] by (simp add: shlex_split_def)
  next
    case (Cons w' ws')
    have "shlex_split (join_with '' '' (map quote_word (w # ws))) =
        lex In_Word w True ('' '' @ join_with '' '' (map quote_word ws))"
      using lex_quote_word [of w] by (simp add: shlex_split_def Cons)
    with Cons.IH show ?thesis
      by (simp add: shlex_split_def is_blank_def)
  qed
qed (simp add: shlex_split_def)

section \<open>Commands as words\<close>

fun verb_of_command :: "admin_cmd \<Rightarrow> string" where
  "verb_of_command (CreateGroup _ _ _) = ''create-group''"
| "verb_of_command Groups = ''groups''"
| "verb_of_command (DeleteGroup _) = ''delete-group''"
| "verb_of_command (SetAcl _ _) = ''set-acl''"
| "verb_of_command (AddMember _ _ _) = ''add-member''"
| "verb_of_command (RemoveMember _ _) = ''remove-member''"
| "verb_of_command (Members _) = ''members''"
| "verb_of_command Peers = ''peers''"
| "verb_of_command Status = ''status''"

definition given :: "string \<Rightarrow> string option \<Rightarrow> string list" where
  "given flag v = (case v of None \<Rightarrow> [] | Some x \<Rightarrow> [flag @ ''='' @ x])"

fun arguments_of :: "admin_cmd \<Rightarrow> string list" where
  "arguments_of (CreateGroup gid name acl) = given ''--name'' name @ given ''--acl'' acl @ [''--'', gid]"
| "arguments_of (DeleteGroup gid) = [''--'', gid]"
| "arguments_of (SetAcl gid acl) = [''--'', gid, acl]"
| "arguments_of (AddMember gid user role) = [''--role='' @ role_text role, ''--'', gid, user]"
| "arguments_of (RemoveMember gid user) = [''--'', gid, user]"
| "arguments_of (Members gid) = [''--'', gid]"
| "arguments_of _ = []"

text \<open>What the declarations allow: modes that exist, and no \<open>--\<close> for a group or a user.\<close>

fun expressible :: "admin_cmd \<Rightarrow> bool" where
  "expressible (CreateGroup gid name acl) \<longleftrightarrow> gid \<noteq> ''--'' \<and> (\<forall>a. acl = Some a \<longrightarrow> a \<in> set ACL_CHOICES)"
| "expressible (DeleteGroup gid) \<longleftrightarrow> gid \<noteq> ''--''"
| "expressible (SetAcl gid acl) \<longleftrightarrow> gid \<noteq> ''--'' \<and> acl \<in> set ACL_CHOICES"
| "expressible (AddMember gid user role) \<longleftrightarrow> gid \<noteq> ''--'' \<and> user \<noteq> ''--''"
| "expressible (RemoveMember gid user) \<longleftrightarrow> gid \<noteq> ''--'' \<and> user \<noteq> ''--''"
| "expressible (Members gid) \<longleftrightarrow> gid \<noteq> ''--''"
| "expressible _ \<longleftrightarrow> True"

lemma acl_choices: "acl \<in> set ACL_CHOICES \<longleftrightarrow> acl = ''public'' \<or> acl = ''invite''"
  by (simp add: ACL_CHOICES_def ACL_PUBLIC_def ACL_INVITE_def)

lemma role_choices: "role_text r \<in> set ROLE_CHOICES" "role_of_text (role_text r) = r"
  by (cases r; simp add: ROLE_CHOICES_def)+

lemma classify_given:
  "classify (HELP_FLAGS @ [''--name'', ''--acl'']) (''--name='' @ v) = Flag ''--name'' (Some v)"
  "classify (HELP_FLAGS @ [''--name'', ''--acl'']) (''--acl='' @ v) = Flag ''--acl'' (Some v)"
  "classify (HELP_FLAGS @ [''--role'']) (''--role='' @ v) = Flag ''--role'' (Some v)"
  by (simp_all add: classify_def HELP_FLAGS_def before_equals_def after_equals_def)

lemma parse_arguments:
  assumes "expressible cmd"
  shows "parse_verb (verb_of_command cmd) (arguments_of cmd) = Some (Some cmd)"
proof (cases cmd)
  case (CreateGroup gid name acl)
  then show ?thesis
    using assms
    by (cases name; cases acl) (simp_all add: parse_verb_def build_parser_def given_def classify_given [simplified] Let_def allowed_def
        command_of_def)
next
  case (AddMember gid user role)
  then show ?thesis
    using assms role_choices
    by (simp add: parse_verb_def build_parser_def classify_given [simplified] Let_def allowed_def command_of_def)
next
  case (SetAcl gid acl)
  then show ?thesis
    using assms
    by (auto simp: parse_verb_def build_parser_def Let_def allowed_def command_of_def acl_choices)
qed (use assms in \<open>simp_all add: parse_verb_def build_parser_def Let_def allowed_def command_of_def\<close>)

section \<open>Words as commands\<close>

text \<open>Every value belongs to a declared argument and is one of its choices; every positional has one.\<close>

definition parse_step :: "argument list \<Rightarrow> argument list \<Rightarrow> (string \<times> string) list \<Rightarrow> argument list
     \<Rightarrow> (string \<times> string) list \<Rightarrow> bool" where
  "parse_step opts pos vals pos' vals' \<longleftrightarrow>
     (pos' = pos \<and> vals' = vals) \<or>
     (\<exists>f c v. pos' = pos \<and> (f, c) \<in> set opts \<and> allowed c v \<and> vals' = (f, v) # vals) \<or>
     (\<exists>n c v. pos = (n, c) # pos' \<and> allowed c v \<and> vals' = (n, v) # vals)"

lemma parse_words_step:
  assumes "parse_words opts pos adjacent raw vals (w # ws) = Some out"
  shows "\<exists>pos' a r vals' ws'. length ws' \<le> length ws \<and> parse_words opts pos' a r vals' ws' = Some out \<and>
    parse_step opts pos vals pos' vals'"
proof -
  have positional: ?thesis
    if p0: "(case pos of [] \<Rightarrow> None | (name, choices) # rest \<Rightarrow>
      if allowed choices w then parse_words opts rest True raw ((name, w) # vals) ws else None) = Some out"
  proof -
    obtain name choices rest where p: "pos = (name, choices) # rest"
      using p0 by (cases pos) auto
    then have "allowed choices w" "parse_words opts rest True raw ((name, w) # vals) ws = Some out"
      using p0 by (auto split: if_splits)
    then show ?thesis
      using p unfolding parse_step_def by blast
  qed
  consider "w = ''--''" | "w \<noteq> ''--''" "raw" | "w \<noteq> ''--''" "\<not> raw" "classify (HELP_FLAGS @ map fst opts) w = Plain"
    | f g where "w \<noteq> ''--''" "\<not> raw" "classify (HELP_FLAGS @ map fst opts) w = Flag f g"
    | "w \<noteq> ''--''" "\<not> raw" "classify (HELP_FLAGS @ map fst opts) w = Neither"
    by (cases "classify (HELP_FLAGS @ map fst opts) w") auto
  then show ?thesis
  proof cases
    case 1
    then have "parse_words opts pos False True vals ws = Some out"
      using assms by (simp add: Let_def split: if_splits)
    then show ?thesis
      unfolding parse_step_def by blast
  next
    case (4 f g)
    then obtain c where c: "(f, c) \<in> set opts" "map_of opts f = Some c"
      using assms by (auto simp: Let_def split: option.splits dest: map_of_SomeD)
    have "\<exists>v ws'. length ws' \<le> length ws \<and> allowed c v \<and> parse_words opts pos False raw ((f, v) # vals) ws' = Some out"
    proof (cases g)
      case None
      show ?thesis
      proof (cases ws)
        case (Cons v rest1)
        then have "allowed c v" "parse_words opts pos False raw ((f, v) # vals) rest1 = Some out"
          using assms 4 c(2) None by (simp_all add: Let_def split: if_splits)
        then show ?thesis
          using Cons by (intro exI [of _ v] exI [of _ rest1]) simp
      qed (use assms 4 c(2) None in \<open>simp add: Let_def\<close>)
    next
      case (Some v)
      then have "allowed c v \<and> parse_words opts pos False raw ((f, v) # vals) ws = Some out"
        using assms 4 c(2) by (simp add: Let_def split: if_splits)
      then show ?thesis
        by blast
    qed
    then show ?thesis
      using c(1) unfolding parse_step_def by blast
  next
    case 2
    show ?thesis
      by (rule positional) (use assms 2 in \<open>auto simp: Let_def split: list.splits prod.splits if_splits\<close>)
  next
    case 3
    show ?thesis
      by (rule positional) (use assms 3 in \<open>auto simp: Let_def split: list.splits prod.splits if_splits\<close>)
  next
    case 5
    then show ?thesis
      using assms by (simp add: Let_def)
  qed
qed

lemma parse_words_declared:
  "parse_words opts pos adjacent raw vals ws = Some out \<Longrightarrow>
     (\<forall>(k, v) \<in> set out. (k, v) \<in> set vals \<or> (\<exists>choices. (k, choices) \<in> set (opts @ pos) \<and> allowed choices v)) \<and>
     fst ` set vals \<union> fst ` set pos \<subseteq> fst ` set out"
proof (induction "length ws" arbitrary: ws pos adjacent raw vals rule: less_induct)
  case less
  show ?case
  proof (cases ws)
    case Nil
    then show ?thesis
      using less.prems by (auto split: if_splits)
  next
    case (Cons w rest)
    then obtain pos' a r vals' ws' where step: "length ws' \<le> length rest" "parse_words opts pos' a r vals' ws' = Some out"
      "parse_step opts pos vals pos' vals'"
      using parse_words_step less.prems by blast
    have "(\<forall>(k, v) \<in> set out. (k, v) \<in> set vals' \<or> (\<exists>choices. (k, choices) \<in> set (opts @ pos') \<and> allowed choices v)) \<and>
        fst ` set vals' \<union> fst ` set pos' \<subseteq> fst ` set out"
      using less.hyps [OF _ step(2)] step(1) Cons by simp
    note d = conjunct1 [OF this] conjunct2 [OF this]
    from step(3) consider "pos' = pos" "vals' = vals"
      | f c v where "pos' = pos" "(f, c) \<in> set opts" "allowed c v" "vals' = (f, v) # vals"
      | n c v where "pos = (n, c) # pos'" "allowed c v" "vals' = (n, v) # vals"
      unfolding parse_step_def by blast
    then show ?thesis
    proof cases
      case 1
      then show ?thesis using d by blast
    next
      case 2
      then show ?thesis using d by auto
    next
      case 3
      then show ?thesis using d by auto
    qed
  qed
qed

fun choices_ok :: "admin_cmd \<Rightarrow> bool" where
  "choices_ok (CreateGroup gid name acl) \<longleftrightarrow> (\<forall>a. acl = Some a \<longrightarrow> a \<in> set ACL_CHOICES)"
| "choices_ok (SetAcl gid acl) \<longleftrightarrow> acl \<in> set ACL_CHOICES"
| "choices_ok _ \<longleftrightarrow> True"

lemma acl_declarations:
  "map_of build_parser ''create-group'' = Some spec \<Longrightarrow>
     vs_options spec @ vs_positionals spec = [(''--name'', None), (''--acl'', Some ACL_CHOICES), (''group_id'', None)]"
  "map_of build_parser ''set-acl'' = Some spec \<Longrightarrow>
     vs_options spec @ vs_positionals spec = [(''group_id'', None), (''acl'', Some ACL_CHOICES)]"
  "map_of build_parser ''set-acl'' = Some spec \<Longrightarrow> ''acl'' \<in> fst ` set (vs_positionals spec)"
  by (auto simp: build_parser_def Let_def)

lemma parse_verb_sound:
  assumes "parse_verb verb ws = Some (Some cmd)"
  shows "verb_of_command cmd = verb \<and> choices_ok cmd"
proof -
  obtain spec out where spec: "map_of build_parser verb = Some spec"
    and out: "parse_words (vs_options spec) (vs_positionals spec) False False [] ws = Some out"
    and cmd: "command_of verb out = Some cmd"
    using assms by (auto simp: parse_verb_def split: option.splits)
  note d = parse_words_declared [OF out]
  have declared: "\<exists>choices. (k, choices) \<in> set (vs_options spec @ vs_positionals spec) \<and> allowed choices v"
    if "(k, v) \<in> set out" for k v
    using conjunct1 [OF d] that by fastforce
  have verb: "verb_of_command cmd = verb"
    using cmd by (auto simp: command_of_def Let_def split: if_splits)
  have "choices_ok cmd"
  proof (cases cmd)
    case (CreateGroup gid name acl)
    then have v: "verb = ''create-group''" "acl = map_of out ''--acl''"
      using cmd verb by (auto simp: command_of_def Let_def)
    have "a \<in> set ACL_CHOICES" if "acl = Some a" for a
    proof -
      have "vs_options spec @ vs_positionals spec =
          [(''--name'', None), (''--acl'', Some ACL_CHOICES), (''group_id'', None)]"
        using acl_declarations(1) spec v(1) by simp
      moreover have "(''--acl'', a) \<in> set out"
        using v(2) that by (simp add: map_of_SomeD)
      ultimately have "\<exists>choices. (''--acl'', choices) \<in> set [(''--name'', None), (''--acl'', Some ACL_CHOICES),
          (''group_id'', None)] \<and> allowed choices a"
        using declared by metis
      then show ?thesis
        by (simp add: allowed_def)
    qed
    then show ?thesis
      by (simp add: CreateGroup)
  next
    case (SetAcl gid acl)
    then have v: "verb = ''set-acl''" "acl = (case map_of out ''acl'' of None \<Rightarrow> [] | Some x \<Rightarrow> x)"
      using cmd verb by (auto simp: command_of_def Let_def)
    have "''acl'' \<in> fst ` set out"
      using conjunct2 [OF d] acl_declarations(3) spec v(1) by blast
    then obtain a where a: "map_of out ''acl'' = Some a"
      by (metis map_of_eq_None_iff not_None_eq)
    moreover from this have "(''acl'', a) \<in> set out"
      by (rule map_of_SomeD)
    moreover have "vs_options spec @ vs_positionals spec = [(''group_id'', None), (''acl'', Some ACL_CHOICES)]"
      using acl_declarations(2) spec v(1) by simp
    ultimately have "\<exists>choices. (''acl'', choices) \<in> set [(''group_id'', None), (''acl'', Some ACL_CHOICES)] \<and>
        allowed choices a"
      using declared by metis
    then have "a \<in> set ACL_CHOICES"
      by (simp add: allowed_def)
    then show ?thesis
      using v(2) SetAcl a by simp
  qed simp_all
  with verb show ?thesis
    by simp
qed

lemma remote_parse_verb:
  assumes "verb \<in> set REMOTE_COMMANDS"
  shows "remote_parse text (verb # ws) =
    (case parse_verb verb ws of Some (Some cmd) \<Rightarrow> Inr cmd
     | Some None \<Rightarrow> Inl (CommandError ''Unsupported command: run'')
     | None \<Rightarrow> Inl (CommandError (text (verb # ws))))"
proof -
  have "take 1 verb \<noteq> ''-''" "verb \<noteq> ''--''"
    using assms by (auto simp: REMOTE_COMMANDS_def)
  then have "parse_args None (verb # ws) = map_option (Pair None) (parse_verb verb ws)"
    by (simp add: classify_def Let_def)
  then show ?thesis
    by (simp add: remote_parse_def split: option.split)
qed

section \<open>The operator channel\<close>

definition shell_line :: "admin_cmd \<Rightarrow> string" where
  "shell_line cmd =
     join_with '' '' (map quote_word ((CHR ''/'' # verb_of_command cmd) # arguments_of cmd))"

lemma strip_shell_line: "strip (shell_line cmd) = shell_line cmd"
proof -
  have ends: "\<exists>x. join_with '' '' (map quote_word (w # ws)) = SINGLE # x @ [SINGLE]" for w ws
  proof (induction ws arbitrary: w)
    case (Cons v ws)
    then obtain x where "join_with '' '' (map quote_word (v # ws)) = SINGLE # x @ [SINGLE]"
      by blast
    then have "join_with '' '' (map quote_word (w # v # ws)) =
        SINGLE # (concat (map quote_char w) @ [SINGLE] @ '' '' @ SINGLE # x) @ [SINGLE]"
      by (simp add: quote_word_def)
    then show ?case
      by blast
  qed (simp add: quote_word_def)
  obtain x where x: "shell_line cmd = SINGLE # x @ [SINGLE]"
    using ends unfolding shell_line_def by blast
  have "\<not> is_space SINGLE"
    by (simp add: is_space_def SINGLE_def)
  then show ?thesis
    by (simp add: x strip_def strip_of_def)
qed

lemma verbs_plain:
  "lower (CHR ''/'' # verb_of_command cmd) = CHR ''/'' # verb_of_command cmd"
  "verb_of_command cmd \<in> set REMOTE_COMMANDS"
  "CHR ''/'' # verb_of_command cmd \<notin> set HELP_TOKENS"
  by (cases cmd; simp add: lower_def lower_char_def REMOTE_COMMANDS_def HELP_TOKENS_def)+

text \<open>C39: every administrative command can be given over the operator channel, whatever its group, name
  and address contain short of the word \<open>--\<close>: quoted as a shell would, the line comes apart into the
  same words, the words into the same command, and the answer and the tables are those of
  \<open>administer\<close>.\<close>

theorem operator_line_understood:
  assumes "expressible cmd" and "ne_shlex env = shlex_split" and "ne_parse env = remote_parse text"
    and "length (shell_line cmd) \<le> CONTROL_MAX_BYTES"
  shows "control_execute cfg env (shell_line cmd) s =
    (case administer cfg (ce_dest_of env) (ne_hub_hash env) (ne_key env) (ne_pick env) (ce_now env) cmd s of
       (Inr answer, s1) \<Rightarrow> (or_text answer ''done'', s1)
     | (Inl (CommandError m), s1) \<Rightarrow> (or_text m (operator_help env (Some (verb_of_command cmd))), s1)
     | (Inl (AdminRaised e), s1) \<Rightarrow> (''Command failed: '' @ ce_error_text env e, s1))"
proof -
  have words: "ne_shlex env (strip (shell_line cmd)) =
      Inr ((CHR ''/'' # verb_of_command cmd) # arguments_of cmd)"
    unfolding strip_shell_line assms(2) by (simp only: shell_line_def shlex_quoted)
  have no_help: "\<not> (1 < length ((CHR ''/'' # verb_of_command cmd) # arguments_of cmd) \<and>
      lower (((CHR ''/'' # verb_of_command cmd) # arguments_of cmd) ! 1) \<in> set HELP_TOKENS)"
    by (cases cmd) (auto simp: given_def lower_def lower_char_def HELP_TOKENS_def split: option.splits)
  have cmd: "ne_parse env (verb_of_command cmd # arguments_of cmd) = Inr cmd"
    unfolding assms(3) by (simp add: remote_parse_verb verbs_plain parse_arguments assms(1))
  show ?thesis
    using assms(4) words no_help cmd verbs_plain [of cmd]
    by (simp add: control_execute_def Let_def) blast
qed

definition spoken_env :: net_env where
  "spoken_env = hub_env.extend sample_env \<lparr>ne_shlex = shlex_split, ne_parse = remote_parse (\<lambda>_. ''usage''),
     ne_usage = command_usage, ne_summary = (\<lambda>_. []), ne_verb_help = (\<lambda>_. []), ne_key = [7],
     ne_pick = hd, ne_hub_hash = None\<rparr>"

text \<open>The witness deletes a group with a quote and a leading dash in its name, which does not exist.\<close>

theorem operator_line_understood_witness:
  "control_execute default_config spoken_env (shell_line (DeleteGroup (''-it'' @ [SINGLE] @ ''s net''))) sample_store =
     (''No such group: -it'' @ [SINGLE] @ ''s net'', sample_store)"
proof -
  have "length (shell_line (DeleteGroup (''-it'' @ [SINGLE] @ ''s net''))) \<le> CONTROL_MAX_BYTES"
    by (simp add: shell_line_def quote_word_def quote_char_def lex_chars CONTROL_MAX_BYTES_def)
  from operator_line_understood [OF _ _ _ this, of spoken_env "\<lambda>_. ''usage''" default_config sample_store]
  show ?thesis
    by (simp add: spoken_env_def hub_env.defs administer_def get_group_def sample_store_def sample_group_def
        sql_lookup_def no_such_group_def or_text_def)
qed

definition mode_refusal :: "store_error \<Rightarrow> bool" where
  "mode_refusal e \<longleftrightarrow> (case e of ValueError t \<Rightarrow> take 18 t = ''Invalid ACL mode: '' | IntegrityError \<Rightarrow> False)"

fun refuses_mode :: "admin_error + string \<Rightarrow> bool" where
  "refuses_mode (Inl (AdminRaised e)) \<longleftrightarrow> mode_refusal e"
| "refuses_mode _ \<longleftrightarrow> False"

lemma no_mode_refused:
  "user_hash v = Inl e \<Longrightarrow> \<not> refuses_mode (Inl e)"
  "group_destination_hash dest_of k = Inl e1 \<Longrightarrow> \<not> mode_refusal e1"
  "acl \<in> set ACL_CHOICES \<Longrightarrow> create_group gid n k acl desc now s = Inl e1 \<Longrightarrow> \<not> mode_refusal e1"
  "acl \<in> set ACL_CHOICES \<Longrightarrow> set_acl_mode gid acl s = Inl e1 \<Longrightarrow> \<not> mode_refusal e1"
  by (auto simp: user_hash_def group_destination_hash_def create_group_def set_acl_mode_def mode_refusal_def
      ACL_CHOICES_def Let_def split: option.splits if_splits)

lemma hashes_no_mode_refused:
  "parse_hashes (c # label) vs = Inl e \<Longrightarrow> c \<noteq> CHR ''I'' \<Longrightarrow> \<not> mode_refusal e"
  by (induction vs) (auto simp: mode_refusal_def split: option.splits if_splits sum.splits)

lemma sequence_results_error: "sequence_results rs = Inl e \<Longrightarrow> Inl e \<in> set rs"
  by (induction rs rule: sequence_results.induct) (auto split: sum.splits)

lemma listing_no_mode_refused:
  "sequence_results (map (group_line dest_of s) gs) = Inl e \<Longrightarrow> \<not> refuses_mode (Inl e)"
  by (drule sequence_results_error) (auto simp: group_line_def dest: no_mode_refused split: sum.splits)

text \<open>An accepted command is the one that was named, with choices the declarations allow: the words after
  a remote verb never turn it into another command, and no accepted command makes the store refuse an
  access mode.\<close>

theorem parsed_as_declared:
  assumes "verb \<in> set REMOTE_COMMANDS" and "remote_parse text (verb # ws) = Inr cmd"
  shows "verb_of_command cmd = verb \<and> choices_ok cmd \<and>
    (default_acl_mode cfg \<in> set ACL_CHOICES \<longrightarrow>
      \<not> refuses_mode (fst (administer cfg dest_of control key pick now cmd s)))"
proof -
  have sound: "verb_of_command cmd = verb" "choices_ok cmd"
    using assms parse_verb_sound by (auto simp: remote_parse_verb split: option.splits)
  have "\<not> refuses_mode (fst (administer cfg dest_of control key pick now cmd s))"
    if d: "default_acl_mode cfg \<in> set ACL_CHOICES"
  proof (cases cmd)
    case (CreateGroup gid name acl)
    then have "(case acl of None \<Rightarrow> default_acl_mode cfg | Some a \<Rightarrow> if a = [] then default_acl_mode cfg else a)
        \<in> set ACL_CHOICES"
      using d sound(2) by (simp split: option.split)
    with CreateGroup show ?thesis
      by (auto simp: administer_def Let_def dest: no_mode_refused split: sum.split prod.split)
  qed (use sound(2) in \<open>auto simp: administer_def no_such_group_def peer_hashes_def operator_hashes_def
      dest: no_mode_refused hashes_no_mode_refused listing_no_mode_refused split: sum.split\<close>)
  with sound show ?thesis
    by blast
qed

text \<open>The witness is \<open>/set-acl net public\<close>.\<close>

theorem parsed_as_declared_witness:
  "verb_of_command (SetAcl ''net'' ''public'') = ''set-acl'' \<and> choices_ok (SetAcl ''net'' ''public'') \<and>
   \<not> refuses_mode (fst (administer default_config (\<lambda>_. None) None [7] hd 0 (SetAcl ''net'' ''public'') sample_store))"
proof -
  have "''set-acl'' \<in> set REMOTE_COMMANDS"
    by (simp add: REMOTE_COMMANDS_def)
  moreover have "remote_parse (\<lambda>_. ''usage'') (''set-acl'' # [''net'', ''public'']) = Inr (SetAcl ''net'' ''public'')"
    by code_simp
  moreover have "default_acl_mode default_config \<in> set ACL_CHOICES"
    by code_simp
  ultimately show ?thesis
    using parsed_as_declared [of "''set-acl''" "\<lambda>_. ''usage''" "[''net'', ''public'']"] by blast
qed

end
