(* ===== verification/Supervision.thy ===== *)
theory Supervision
  imports Startup_Properties
begin

text \<open>
  A daemon from start to shutdown: the loop of \<open>HubDaemon.supervise\<close> with what the other threads do
  between its turns, and what a running daemon picks up from commands given beside it.
\<close>

section \<open>The loop\<close>

text \<open>One turn: its environment, the source of jitter, and what the threads of the scheduler, of federation
  and of the router have done to the shared state since the turn before. The list ends where \<open>_stop\<close> is set,
  by a signal or by \<open>stop\<close>.\<close>

type_synonym turn = "net_env \<times> (real \<Rightarrow> real) \<times> (sched \<Rightarrow> sched)"

definition meanwhile :: "(sched \<Rightarrow> sched) \<Rightarrow> daemon \<Rightarrow> daemon" where
  "meanwhile others dm = dm\<lparr>dm_sched := others (dm_sched dm)\<rparr>"

fun supervise :: "hub_config \<Rightarrow> turn list \<Rightarrow> daemon \<Rightarrow> daemon" where
  "supervise cfg [] dm = dm"
| "supervise cfg ((env, uniform, others) # turns) dm =
     supervise cfg turns (supervise_turn cfg env uniform (meanwhile others dm))"

text \<open>Shutdown stops the threads and the router and closes the database, which is all that is left.\<close>

definition shutdown :: "daemon \<Rightarrow> store" where
  "shutdown dm = dm_store dm"

definition run_daemon ::
    "hub_config \<Rightarrow> boot_env \<Rightarrow> boot_settings \<Rightarrow> files \<Rightarrow> store \<Rightarrow> turn list
     \<Rightarrow> (store_error + unit) \<times> files \<times> store" where
  "run_daemon cfg env bs fs s turns =
     (case start cfg env bs fs s of
        (Inl e, fs1, s1) \<Rightarrow> (Inl e, fs1, s1)
      | (Inr (dm, en), fs1, s1) \<Rightarrow> (Inr (), fs1, shutdown (supervise cfg turns dm)))"

text \<open>If what the other threads do is something that can happen, so is the whole life of a daemon.\<close>

definition possible :: "(sched \<Rightarrow> sched) \<Rightarrow> bool" where
  "possible others \<longleftrightarrow> (\<forall>dm. reachable (Up dm) \<longrightarrow> reachable (Up (meanwhile others dm)))"

lemma reachable_supervise:
  "\<forall>t \<in> set turns. possible (snd (snd t)) \<Longrightarrow> reachable (Up dm) \<Longrightarrow> reachable (Up (supervise cfg turns dm))"
proof (induction turns arbitrary: dm)
  case (Cons t turns)
  obtain env uniform others where t: "t = (env, uniform, others)"
    by (cases t)
  have "reachable (Up (meanwhile others dm))"
    using Cons.prems t by (simp add: possible_def)
  then have "reachable (Up (supervise_turn cfg env uniform (meanwhile others dm)))"
    by (rule supervised)
  with Cons.IH Cons.prems(1) show ?case
    by (simp add: t)
qed simp

lemma reachable_run:
  assumes "reachable (Down s)" and "run_daemon cfg env bs fs s turns = (r, fs1, s1)"
    and "\<forall>t \<in> set turns. possible (snd (snd t))"
  shows "reachable (Down s1)"
proof -
  obtain res fs2 s2 where st: "start cfg env bs fs s = (res, fs2, s2)"
    by (metis prod_cases3)
  show ?thesis
  proof (cases res)
    case (Inl e)
    then show ?thesis
      using refused [OF assms(1), of cfg env bs fs] st assms(2) by (simp add: run_daemon_def)
  next
    case (Inr x)
    obtain dm en where x: "x = (dm, en)"
      by (cases x)
    have "reachable (Up dm)"
      using started [OF assms(1), of cfg env bs fs] st Inr x by simp
    from crashed [OF reachable_supervise [OF assms(3) this, of cfg]] show ?thesis
      using assms(2) st Inr x by (simp add: run_daemon_def shutdown_def)
  qed
qed

section \<open>Hot-loading\<close>

text \<open>A group is routed if its destination is attached under the address of its key, and free if neither it nor
  its address is known yet.\<close>

definition routed :: "(bytes \<Rightarrow> bytes option) \<Rightarrow> destinations \<Rightarrow> group_record \<Rightarrow> bool" where
  "routed dest_of d g \<longleftrightarrow>
     (\<exists>h. dest_of (g_key g) = Some h \<and> destination_for (g_id g) d = Some h \<and> group_for_hash h d = Some (g_id g))"

definition unrouted :: "(bytes \<Rightarrow> bytes option) \<Rightarrow> destinations \<Rightarrow> group_record \<Rightarrow> bool" where
  "unrouted dest_of d g \<longleftrightarrow>
     (\<exists>h. dest_of (g_key g) = Some h \<and> destination_for (g_id g) d = None \<and> group_for_hash h d = None)"

definition attachable :: "(bytes \<Rightarrow> bytes option) \<Rightarrow> group_record list \<Rightarrow> destinations \<Rightarrow> bool" where
  "attachable dest_of gs d \<longleftrightarrow> distinct (map g_id gs) \<and> distinct (map (\<lambda>g. dest_of (g_key g)) gs) \<and>
     (\<forall>g \<in> set gs. routed dest_of d g \<or> unrouted dest_of d g)"

lemma attachable_step:
  assumes "attachable dest_of gs d" and "g \<in> set gs" and "unrouted dest_of d g"
  shows "\<exists>h d1. attach dest_of g now d = Inr (h, d1) \<and> attachable dest_of gs d1 \<and> routed dest_of d1 g \<and>
    (\<forall>x \<in> set gs. routed dest_of d x \<longrightarrow> routed dest_of d1 x)"
proof -
  obtain h where h: "dest_of (g_key g) = Some h" and free: "destination_for (g_id g) d = None"
    using assms(3) by (auto simp: unrouted_def)
  obtain d1 where a: "attach dest_of g now d = Inr (h, d1)"
    using h free by (simp add: attach_def group_destination_hash_def)
  note f = attach_frame [OF a free]
  have other: "g_id x \<noteq> g_id g \<and> dest_of (g_key x) \<noteq> Some h" if "x \<in> set gs" "x \<noteq> g" for x
    using assms(1,2) that h by (auto simp: attachable_def distinct_map inj_on_def)
  have r: "routed dest_of d1 g"
    using f h by (simp add: routed_def)
  have keep: "routed dest_of d1 x" if "x \<in> set gs" "routed dest_of d x" for x
    using r other [OF that(1)] that(2) f by (cases "x = g") (auto simp: routed_def)
  have "unrouted dest_of d1 x" if "x \<in> set gs" "x \<noteq> g" "unrouted dest_of d x" for x
    using other [OF that(1,2)] that(3) f by (auto simp: unrouted_def)
  then have "attachable dest_of gs d1"
    using assms(1) r keep unfolding attachable_def by blast
  with a r keep show ?thesis
    by blast
qed

lemma attach_all_routes:
  assumes "attachable dest_of all d" and "set gs \<subseteq> set all"
  shows "attachable dest_of all (snd (attach_all dest_of gs now d)) \<and>
    (\<forall>g \<in> set gs. routed dest_of (snd (attach_all dest_of gs now d)) g) \<and>
    (\<forall>g \<in> set all. routed dest_of d g \<longrightarrow> routed dest_of (snd (attach_all dest_of gs now d)) g)"
  using assms
proof (induction gs arbitrary: d)
  case (Cons g gs)
  show ?case
  proof (cases "routed dest_of d g")
    case True
    then have "attach_all dest_of (g # gs) now d = attach_all dest_of gs now d"
      by (auto simp: routed_def)
    then show ?thesis
      using Cons.IH [OF Cons.prems(1)] Cons.prems(2) True by simp
  next
    case False
    then have u: "unrouted dest_of d g"
      using Cons.prems by (auto simp: attachable_def)
    then obtain h d1 where a: "attach dest_of g now d = Inr (h, d1)" and d1: "attachable dest_of all d1" "routed dest_of d1 g"
        "\<forall>x \<in> set all. routed dest_of d x \<longrightarrow> routed dest_of d1 x"
      using attachable_step [OF Cons.prems(1)] Cons.prems(2) by (meson list.set_intros(1) subsetD)
    have "snd (attach_all dest_of (g # gs) now d) = snd (attach_all dest_of gs now d1)"
      using u a by (auto simp: unrouted_def split: sum.split prod.split)
    then show ?thesis
      using Cons.IH [OF d1(1)] Cons.prems(2) d1(2,3) by auto
  qed
qed simp

section \<open>What a turn keeps\<close>

lemma announce_each_routes:
  "destination_for x (snd (announce_each cfg uniform now gids d)) = destination_for x d \<and>
   group_for_hash h (snd (announce_each cfg uniform now gids d)) = group_for_hash h d"
proof (induction gids arbitrary: d)
  case (Cons g gids)
  have "destination_for x (snd (announce cfg uniform now g d)) = destination_for x d \<and>
      group_for_hash h (snd (announce cfg uniform now g d)) = group_for_hash h d"
    by (auto simp: announce_def destination_for_def group_for_hash_def split: option.split)
  with Cons.IH show ?case
    by (simp add: Let_def case_prod_beta)
qed simp

lemma check_groups: "s_groups (check cfg f d pretty now s) = s_groups s"
proof -
  have "s_groups (react cfg f d pretty now sts s) = s_groups s" for sts
    using react_basis by (simp add: same_basis_def)
  moreover have "s_groups (snd (check_isolation cfg f stale now t)) = s_groups t" for stale t
    using isolation_notices_frame(1) [of "set_flag FLAG_ISOLATED b t" for b]
    by (simp add: check_isolation_def same_basis_def set_flag_def meta_set_def Let_def)
  ultimately show ?thesis
    by (simp add: check_def Let_def)
qed

lemma turn_groups: "s_groups (dm_store (supervise_turn cfg env uniform dm)) = s_groups (dm_store dm)"
proof -
  have f: "s_groups (dm_store (failover_turn cfg env d)) = s_groups (dm_store d)" for d
    by (auto simp: failover_turn_def check_due_def dm_store_def x_store_def upd_store_def check_groups Let_def split: option.split)
  have p: "s_groups (dm_store (daemon_prune cfg env d)) = s_groups (dm_store d)" for d
    by (simp add: daemon_prune_def dm_store_def x_store_def upd_store_def hub_prune_def prune_messages_def
        prune_link_codes_def prune_unlink_codes_def Let_def)
  have "dm_store (announce_channels cfg env d) = dm_store d" "dm_store (announce_groups cfg env uniform d) = dm_store d"
    "dm_store (reload_groups env d) = dm_store d" "dm_store (d\<lparr>dm_last_reload := t\<rparr>) = dm_store d"
    "dm_store (d\<lparr>dm_last_prune := t\<rparr>) = dm_store d" for d t
    by (simp_all add: announce_channels_def announce_groups_def reload_groups_def dm_store_def x_store_def Let_def)
  then show ?thesis
    by (simp add: supervise_turn_def Let_def f p)
qed

text \<open>What a turn does to the tables beside what the failover check adds, and to the tickets.\<close>

definition prune_due :: "net_env \<Rightarrow> daemon \<Rightarrow> bool" where
  "prune_due env dm \<longleftrightarrow> PRUNE_INTERVAL \<le> ce_now env - dm_last_prune dm"

lemma turn_store:
  "\<exists>s1. same_basis (dm_store dm) s1 \<and> (store_ok (dm_store dm) \<longrightarrow> store_ok s1) \<and> dm_store (supervise_turn cfg env uniform dm) =
     (if prune_due env dm
      then snd (prune_unlink_codes (ce_now env) (snd (prune_link_codes (ce_now env) (snd (hub_prune cfg (ce_now env) s1)))))
      else s1)"
  "x_tickets (dm_sched (supervise_turn cfg env uniform dm)) =
     (if prune_due env dm then snd (clean (ce_now env) (x_tickets (dm_sched dm))) else x_tickets (dm_sched dm))"
  "dm_last_prune (supervise_turn cfg env uniform dm) = (if prune_due env dm then ce_now env else dm_last_prune dm)"
proof -
  define d3 where "d3 = announce_channels cfg env (announce_groups cfg env uniform
    (if GROUP_RELOAD_INTERVAL \<le> ce_now env - dm_last_reload dm then reload_groups env (dm\<lparr>dm_last_reload := ce_now env\<rparr>) else dm))"
  have d3: "dm_store d3 = dm_store dm" "x_tickets (dm_sched d3) = x_tickets (dm_sched dm)" "dm_last_prune d3 = dm_last_prune dm"
    by (simp_all add: d3_def announce_channels_def announce_groups_def reload_groups_def dm_store_def x_store_def Let_def)
  have f: "same_basis (dm_store d) (dm_store (failover_turn cfg env d))"
    "store_ok (dm_store d) \<Longrightarrow> store_ok (dm_store (failover_turn cfg env d))"
    "x_tickets (dm_sched (failover_turn cfg env d)) = x_tickets (dm_sched d)" "dm_last_prune (failover_turn cfg env d) = dm_last_prune d" for d
    using check_basis by (auto simp: failover_turn_def check_due_def dm_store_def x_store_def upd_store_def Let_def
        store_ok_check split: option.split)
  have turn: "supervise_turn cfg env uniform dm =
      (if prune_due env dm then daemon_prune cfg env ((failover_turn cfg env d3)\<lparr>dm_last_prune := ce_now env\<rparr>) else failover_turn cfg env d3)"
    by (simp add: supervise_turn_def Let_def d3_def [symmetric] prune_due_def f(4) d3(3))
  show "\<exists>s1. same_basis (dm_store dm) s1 \<and> (store_ok (dm_store dm) \<longrightarrow> store_ok s1) \<and> dm_store (supervise_turn cfg env uniform dm) =
     (if prune_due env dm
      then snd (prune_unlink_codes (ce_now env) (snd (prune_link_codes (ce_now env) (snd (hub_prune cfg (ce_now env) s1)))))
      else s1)"
    using f(1,2) [of d3] unfolding turn d3(1)
    by (intro exI [of _ "dm_store (failover_turn cfg env d3)"]) (simp add: daemon_prune_def Let_def dm_store_def x_store_def upd_store_def)
  show "x_tickets (dm_sched (supervise_turn cfg env uniform dm)) =
     (if prune_due env dm then snd (clean (ce_now env) (x_tickets (dm_sched dm))) else x_tickets (dm_sched dm))"
    "dm_last_prune (supervise_turn cfg env uniform dm) = (if prune_due env dm then ce_now env else dm_last_prune dm)"
    unfolding turn by (simp_all add: daemon_prune_def Let_def f(3,4) d3 upd_store_def)
qed

text \<open>The routing tables after a turn.\<close>

definition reload_due :: "net_env \<Rightarrow> daemon \<Rightarrow> bool" where
  "reload_due env dm \<longleftrightarrow> GROUP_RELOAD_INTERVAL \<le> ce_now env - dm_last_reload dm"

lemma turn_routes:
  "routed dest_of (dm_dests (supervise_turn cfg env uniform dm)) g =
     routed dest_of (if reload_due env dm
       then snd (attach_all (ce_dest_of env) (list_groups (dm_store dm)) (ce_now env) (dm_dests dm)) else dm_dests dm) g"
  "unrouted dest_of (dm_dests (supervise_turn cfg env uniform dm)) g =
     unrouted dest_of (if reload_due env dm
       then snd (attach_all (ce_dest_of env) (list_groups (dm_store dm)) (ce_now env) (dm_dests dm)) else dm_dests dm) g"
  "\<not> reload_due env dm \<Longrightarrow> dm_last_reload (supervise_turn cfg env uniform dm) = dm_last_reload dm"
proof -
  have f: "dm_dests (failover_turn cfg env d) = dm_dests d" "dm_last_reload (failover_turn cfg env d) = dm_last_reload d" for d
    by (simp_all add: failover_turn_def case_prod_beta split: option.split)
  have o: "dm_dests (daemon_prune cfg env d) = dm_dests d" "dm_last_reload (daemon_prune cfg env d) = dm_last_reload d"
    "dm_dests (announce_channels cfg env d) = dm_dests d" "dm_last_reload (announce_channels cfg env d) = dm_last_reload d"
    "dm_last_reload (announce_groups cfg env uniform d) = dm_last_reload d" for d
    by (simp_all add: daemon_prune_def announce_channels_def announce_groups_def Let_def)
  define d1 where "d1 = (if reload_due env dm
    then snd (attach_all (ce_dest_of env) (list_groups (dm_store dm)) (ce_now env) (dm_dests dm)) else dm_dests dm)"
  have d: "dm_dests (supervise_turn cfg env uniform dm) = snd (announce_due cfg uniform (ce_now env) d1)"
    by (simp add: supervise_turn_def Let_def f o announce_groups_def reload_groups_def load_groups_def d1_def reload_due_def
        dm_store_def)
  show "routed dest_of (dm_dests (supervise_turn cfg env uniform dm)) g = routed dest_of d1 g"
    "unrouted dest_of (dm_dests (supervise_turn cfg env uniform dm)) g = unrouted dest_of d1 g"
    by (simp_all add: d announce_due_def routed_def unrouted_def announce_each_routes)
  show "\<not> reload_due env dm \<Longrightarrow> dm_last_reload (supervise_turn cfg env uniform dm) = dm_last_reload dm"
    by (simp add: supervise_turn_def Let_def f o reload_due_def)
qed

text \<open>A turn that reads keys by \<open>dest_of\<close> and beside which the rows of the groups stay as they are.\<close>

definition keeps_groups :: "(bytes \<Rightarrow> bytes option) \<Rightarrow> turn \<Rightarrow> bool" where
  "keeps_groups dest_of t \<longleftrightarrow> ce_dest_of (fst t) = dest_of \<and>
     (\<forall>x. s_groups (x_store (snd (snd t) x)) = s_groups (x_store x))"

lemma supervise_routes:
  "attachable dest_of (list_groups (dm_store dm)) (dm_dests dm) \<Longrightarrow> \<forall>t \<in> set turns. keeps_groups dest_of t \<Longrightarrow>
   g \<in> set (list_groups (dm_store dm)) \<Longrightarrow> routed dest_of (dm_dests dm) g \<or> (\<exists>t \<in> set turns. reload_due (fst t) dm) \<Longrightarrow>
   routed dest_of (dm_dests (supervise cfg turns dm)) g"
proof (induction turns arbitrary: dm)
  case (Cons t turns)
  obtain env uniform others where t: "t = (env, uniform, others)"
    by (cases t)
  define d0 where "d0 = meanwhile others dm"
  define d1 where "d1 = supervise_turn cfg env uniform d0"
  have kept: "ce_dest_of env = dest_of" "dm_dests d0 = dm_dests dm" "list_groups (dm_store d0) = list_groups (dm_store dm)"
    "reload_due e d0 = reload_due e dm" "dm_last_reload d0 = dm_last_reload dm" for e
    using Cons.prems(2) t by (simp_all add: keeps_groups_def d0_def meanwhile_def dm_store_def list_groups_def reload_due_def)
  have groups: "list_groups (dm_store d1) = list_groups (dm_store dm)"
    using turn_groups [of cfg env uniform d0] kept(3) by (simp add: d1_def list_groups_def)
  note routes = turn_routes(1,2) [of dest_of cfg env uniform d0, folded d1_def, unfolded kept]
  note all = attach_all_routes [OF Cons.prems(1) order_refl, of "ce_now env"]
  have "attachable dest_of (list_groups (dm_store d1)) (dm_dests d1)"
    using Cons.prems(1) all unfolding attachable_def groups routes by simp
  moreover have "routed dest_of (dm_dests d1) g \<or> (\<exists>t \<in> set turns. reload_due (fst t) d1)"
  proof (cases "reload_due env dm")
    case True
    then show ?thesis
      using all Cons.prems(3) by (simp add: routes)
  next
    case False
    then have "reload_due e d1 = reload_due e dm" for e
      using turn_routes(3) [of env d0 cfg uniform] kept by (simp add: d1_def reload_due_def)
    then show ?thesis
      using Cons.prems(4) False t by (auto simp: routes)
  qed
  ultimately show ?case
    using Cons.IH [of d1] Cons.prems(2,3) groups by (simp add: t d1_def d0_def)
qed simp

lemma create_verb_row:
  assumes "run_verb_on_store cfg env bs key pick (CreateGroup gid name acl) fs s = (Exit 0 out [], fs1, s1)"
  shows "\<exists>g h. s_groups s1 = s_groups s @ [g] \<and> g_id g = gid \<and> g_key g = key \<and> get_group gid s = None \<and>
    bo_dest_of env key = Some h \<and> out = gid @ TAB @ g_acl g @ TAB @ hex h @ NEWLINE"
proof -
  obtain res fs2 s2 where o: "open_store (bo_crypto env) (bo_iv env) (bs_mode bs) (bs_keyfile bs) fs s = (res, fs2, s2)"
    by (metis prod_cases3)
  obtain m where m: "s2 = s\<lparr>s_meta := m\<rparr>"
    using open_store_meta [of "bo_crypto env" "bo_iv env" "bs_mode bs" "bs_keyfile bs" fs s] o by auto
  obtain answer c where r: "administer cfg (bo_dest_of env) c key pick (bo_now env) (CreateGroup gid name acl) s2 = (Inr answer, s1)"
    and out: "out = print_line answer"
    using assms by (auto simp: run_verb_on_store_def o split: sum.splits prod.splits admin_error.splits)
  obtain g h n mode where fresh: "get_group gid s2 = None" and g: "create_group gid n key mode None (bo_now env) s2 = Inr (g, s1)"
    and h: "bo_dest_of env (g_key g) = Some h" and a: "answer = g_id g @ TAB @ g_acl g @ TAB @ hex h"
    using r by (auto simp: administer_def Let_def group_destination_hash_def split: if_splits sum.splits prod.splits option.splits)
  have "s_groups s1 = s_groups s2 @ [g] \<and> g_id g = gid \<and> g_key g = key"
    using g by (auto simp: create_group_def sql_insert_def Let_def split: if_splits option.splits)
  then show ?thesis
    using fresh h a out m by (auto simp: get_group_def print_line_def TAB_def)
qed

text \<open>C22: a group created on the command line beside a running daemon is served, without a restart, no later
  than the first turn half a minute after the last reload: under the address the command printed, in both
  routing tables. All the other groups are served then too.\<close>

theorem hot_loaded:
  assumes "run_verb_on_store cfg1 benv bs key pick (CreateGroup gid name acl) fs (dm_store dm) = (Exit 0 out [], fs1, s1)"
    and "bo_dest_of benv key = Some h" and "\<forall>t \<in> set turns. keeps_groups (bo_dest_of benv) t"
    and "attachable (bo_dest_of benv) (list_groups (dm_store dm)) (dm_dests dm)"
    and "destination_for gid (dm_dests dm) = None" and "group_for_hash h (dm_dests dm) = None"
    and "\<forall>g \<in> set (list_groups (dm_store dm)). bo_dest_of benv (g_key g) \<noteq> Some h"
    and "t \<in> set turns" and "reload_due (fst t) dm"
  shows "(\<exists>mode. out = gid @ TAB @ mode @ TAB @ hex h @ NEWLINE) \<and>
    destination_for gid (dm_dests (supervise cfg turns (meanwhile (upd_store (\<lambda>_. s1)) dm))) = Some h \<and>
    group_for_hash h (dm_dests (supervise cfg turns (meanwhile (upd_store (\<lambda>_. s1)) dm))) = Some gid \<and>
    list_all (routed (bo_dest_of benv) (dm_dests (supervise cfg turns (meanwhile (upd_store (\<lambda>_. s1)) dm)))) (list_groups s1)"
proof -
  obtain g where groups: "s_groups s1 = s_groups (dm_store dm) @ [g]" and g: "g_id g = gid" "g_key g = key"
    and fresh: "get_group gid (dm_store dm) = None" and out: "out = gid @ TAB @ g_acl g @ TAB @ hex h @ NEWLINE"
    using create_verb_row [OF assms(1)] assms(2) by auto
  define dm1 where "dm1 = meanwhile (upd_store (\<lambda>_. s1)) dm"
  have dm1: "dm_store dm1 = s1" "dm_dests dm1 = dm_dests dm" "reload_due e dm1 = reload_due e dm" for e
    by (simp_all add: dm1_def meanwhile_def dm_store_def x_store_def upd_store_def reload_due_def)
  have new: "gid \<notin> g_id ` set (list_groups (dm_store dm))"
    using fresh list_groups_ids by blast
  have att: "attachable (bo_dest_of benv) (list_groups (dm_store dm1)) (dm_dests dm1)"
    using assms(2,4-7) g new
    by (auto simp: attachable_def dm1 groups unrouted_def list_groups_def distinct_map inj_on_def image_iff)
  have all: "routed (bo_dest_of benv) (dm_dests (supervise cfg turns dm1)) x" if "x \<in> set (list_groups s1)" for x
    using supervise_routes [OF att assms(3)] that assms(8,9) by (auto simp: dm1)
  moreover have "routed (bo_dest_of benv) (dm_dests (supervise cfg turns dm1)) g"
    by (rule all) (simp add: groups list_groups_def)
  ultimately show ?thesis
    using g assms(2) out unfolding dm1_def [symmetric] by (auto simp: routed_def list_all_iff)
qed

definition hosting :: daemon where
  "hosting = idle_daemon\<lparr>dm_sched := upd_store (\<lambda>_. sample_store) sample_sched,
     dm_dests := snd (load_groups (bo_dest_of sample_boot) 7300 sample_store no_destinations),
     dm_last_reload := 7300\<rparr>"

definition hosting_env :: "real \<Rightarrow> net_env" where
  "hosting_env now = (net_env.truncate sample_air)\<lparr>ce_now := now, ce_dest_of := bo_dest_of sample_boot\<rparr>"

text \<open>The witness creates a second group beside a daemon that reloads at its second turn.\<close>

theorem hot_loaded_witness:
  "\<exists>fs1 s1 out. run_verb_on_store default_config sample_boot sample_boot_settings [8] hd (CreateGroup ''two'' (Some ''Two'') None)
       Map.empty (dm_store hosting) = (Exit 0 out [], fs1, s1) \<and>
     destination_for ''two'' (dm_dests (supervise default_config [(hosting_env 7310, id, id), (hosting_env 7331, id, id)]
       (meanwhile (upd_store (\<lambda>_. s1)) hosting))) = Some (8 # replicate 15 0)"
proof -
  have groups: "list_groups sample_store = [sample_group]" "dm_store hosting = sample_store"
    by (simp_all add: list_groups_def sample_store_def hosting_def dm_store_def x_store_def upd_store_def)
  have keys: "bo_dest_of sample_boot [8] = Some (8 # replicate 15 0)" "bo_dest_of sample_boot [7] = Some (7 # replicate 15 0)"
    by (simp_all add: sample_boot_def numeral_eq_Suc)
  have dests: "destination_for x (dm_dests hosting) = (if x = ''net'' then Some (7 # replicate 15 0) else None)"
    "group_for_hash h (dm_dests hosting) = (if h = 7 # replicate 15 0 then Some ''net'' else None)" for x h
    using keys(2) by (simp_all add: hosting_def load_groups_def groups no_destinations_def destination_for_def group_for_hash_def
        attach_def group_destination_hash_def sample_group_def)
  obtain out fs1 s1 where run: "run_verb_on_store default_config sample_boot sample_boot_settings [8] hd
      (CreateGroup ''two'' (Some ''Two'') None) Map.empty (dm_store hosting) = (Exit 0 out [], fs1, s1)"
    using keys(1) by (simp add: groups run_verb_on_store_def open_store_def sample_boot_settings_def administer_def get_group_def
        sample_store_def sample_group_def create_group_def sql_insert_def has_key_def sql_lookup_def group_destination_hash_def
        default_defs ACL_INVITE_def ACL_PUBLIC_def Let_def)
  have turn: "(hosting_env 7331, id, id) \<in> set [(hosting_env 7310, id, id), (hosting_env 7331, id, id)]"
    by simp
  have keeps: "\<forall>t \<in> set [(hosting_env 7310, id, id), (hosting_env 7331, id, id)]. keeps_groups (bo_dest_of sample_boot) t"
    by (simp add: keeps_groups_def hosting_env_def)
  have "attachable (bo_dest_of sample_boot) (list_groups (dm_store hosting)) (dm_dests hosting)"
    using keys(2) by (simp add: groups attachable_def routed_def dests sample_group_def)
  moreover have "\<forall>g \<in> set (list_groups (dm_store hosting)). bo_dest_of sample_boot (g_key g) \<noteq> Some (8 # replicate 15 0)"
    using keys(2) by (simp add: groups sample_group_def)
  moreover have "reload_due (fst (hosting_env 7331, id, id)) hosting"
    by (simp add: reload_due_def hosting_env_def hosting_def GROUP_RELOAD_INTERVAL_def)
  moreover have "destination_for ''two'' (dm_dests hosting) = None" "group_for_hash (8 # replicate 15 0) (dm_dests hosting) = None"
    by (simp_all add: dests)
  ultimately show ?thesis
    using hot_loaded [OF run keys(1) keeps _ _ _ _ turn, of default_config] run by blast
qed

section \<open>Housekeeping\<close>

definition outdated :: "hub_config \<Rightarrow> net_env \<Rightarrow> message_record \<Rightarrow> bool" where
  "outdated cfg env r \<longleftrightarrow> 0 < retention_epochs (federation_cfg cfg) * epoch_seconds (federation_cfg cfg) \<and>
     m_time r < ce_now env - real_of_int (retention_epochs (federation_cfg cfg) * epoch_seconds (federation_cfg cfg))"

text \<open>C18: housekeeping removes what has expired and nothing else. In the first turn an hour after the last
  pruning, a message leaves the log exactly if it is older than the retention time, and its queued deliveries go with
  it; exactly the link and unlink codes and the tickets that have expired are deleted, and the hour starts anew. In
  every other turn all of them stay. With a retention time of zero messages are kept for good.\<close>

theorem turn_prunes:
  assumes "store_ok (dm_store dm)"
  shows "(has_message h (dm_store (supervise_turn cfg env uniform dm)) \<longleftrightarrow>
      (\<exists>r. get_message h (dm_store dm) = Some r \<and> \<not> (prune_due env dm \<and> outdated cfg env r))) \<and>
    (get_message h (dm_store dm) = Some r \<longrightarrow>
      (is_queued u h (dm_store (supervise_turn cfg env uniform dm)) \<longleftrightarrow> is_queued u h (dm_store dm) \<and> \<not> (prune_due env dm \<and> outdated cfg env r))) \<and>
    (c \<in> set (s_links (dm_store (supervise_turn cfg env uniform dm))) \<longleftrightarrow> c \<in> set (s_links (dm_store dm)) \<and>
      \<not> (prune_due env dm \<and> k_expires c < ce_now env)) \<and>
    (c \<in> set (s_unlinks (dm_store (supervise_turn cfg env uniform dm))) \<longleftrightarrow> c \<in> set (s_unlinks (dm_store dm)) \<and>
      \<not> (prune_due env dm \<and> k_expires c < ce_now env)) \<and>
    ((k, expires, ticket) \<in> set (x_tickets (dm_sched (supervise_turn cfg env uniform dm))) \<longleftrightarrow>
      (k, expires, ticket) \<in> set (x_tickets (dm_sched dm)) \<and>
      \<not> (prune_due env dm \<and> expires \<le> ce_now env)) \<and>
    dm_last_prune (supervise_turn cfg env uniform dm) =
      (if prune_due env dm then ce_now env else dm_last_prune dm)"
proof -
  obtain s1 where b: "same_basis (dm_store dm) s1" and ok: "store_ok s1" and after: "dm_store (supervise_turn cfg env uniform dm) =
     (if prune_due env dm
      then snd (prune_unlink_codes (ce_now env) (snd (prune_link_codes (ce_now env) (snd (hub_prune cfg (ce_now env) s1)))))
      else s1)"
    using turn_store(1) [of dm cfg env uniform] assms(1) by blast
  have s1: "get_message h s1 = get_message h (dm_store dm)" "is_queued u h s1 = is_queued u h (dm_store dm)"
    "s_links s1 = s_links (dm_store dm)" "s_unlinks s1 = s_unlinks (dm_store dm)"
    using b by (simp_all add: same_basis_def get_message_def is_queued_def)
  have codes: "has_message h (snd (prune_unlink_codes t (snd (prune_link_codes t z)))) = has_message h z"
    "is_queued u h (snd (prune_unlink_codes t (snd (prune_link_codes t z)))) = is_queued u h z"
    "s_links (snd (prune_unlink_codes t (snd (prune_link_codes t z)))) = sql_delete (\<lambda>c. k_expires c < t) (s_links z)"
    "s_unlinks (snd (prune_unlink_codes t (snd (prune_link_codes t z)))) = sql_delete (\<lambda>c. k_expires c < t) (s_unlinks z)" for t z
    by (simp_all add: prune_unlink_codes_def prune_link_codes_def Let_def has_message_def is_queued_def)
  have log: "s_links (snd (hub_prune cfg t z)) = s_links z" "s_unlinks (snd (hub_prune cfg t z)) = s_unlinks z" for t z
    by (simp_all add: hub_prune_def prune_messages_def Let_def)
  have kept: "has_message h (dm_store (supervise_turn cfg env uniform dm)) \<longleftrightarrow>
      (\<exists>r. get_message h (dm_store dm) = Some r \<and> \<not> (prune_due env dm \<and> outdated cfg env r))"
    using has_message_prune [OF store_okD(2) [OF ok], of h] get_message_has [of h s1] unfolding after
    by (auto simp: codes hub_prune_def Let_def s1 outdated_def not_less)
  moreover have "is_queued u h (dm_store (supervise_turn cfg env uniform dm)) \<longleftrightarrow> is_queued u h (dm_store dm) \<and> \<not> (prune_due env dm \<and> outdated cfg env r)"
    if "get_message h (dm_store dm) = Some r"
    using that has_message_prune [OF store_okD(2) [OF ok], of h] unfolding after
    by (auto simp: codes hub_prune_def Let_def s1 outdated_def not_less is_queued_prune)
  moreover have "(k, expires, ticket) \<in> set (x_tickets (dm_sched (supervise_turn cfg env uniform dm))) \<longleftrightarrow>
      (k, expires, ticket) \<in> set (x_tickets (dm_sched dm)) \<and> \<not> (prune_due env dm \<and> expires \<le> ce_now env)"
    unfolding turn_store(2) by (simp add: clean_def)
  ultimately show ?thesis
    unfolding turn_store(3) unfolding after by (auto simp: codes log s1)
qed

text \<open>The witness: a daemon that holds a message from before the retention time, with a delivery to bob.\<close>

theorem turn_prunes_witness:
  "has_message [42] (dm_store old_daemon) \<and>
   \<not> has_message [42] (dm_store (supervise_turn default_config (net_env.truncate sample_air) id old_daemon))"
proof -
  let ?r = "sample_record\<lparr>m_time := - 1000000\<rparr>"
  have s: "dm_store old_daemon = snd (store_and_enqueue ?r [bob] 0 sample_store)"
    by (simp add: old_daemon_def dm_store_def)
  have new: "\<not> has_message [42] sample_store"
    by (simp add: has_message_def has_key_def sample_store_def empty_store_def)
  have ok: "store_ok (dm_store old_daemon)"
    by (simp add: s sample_store_ok)
  have "get_message [42] (dm_store old_daemon) = Some ?r"
    using new message_row_of_fields(7) [of ?r 0]
    by (simp add: s store_and_enqueue_def store_message_new sample_record_def Let_def case_prod_beta get_message_def
        sql_lookup_def sample_store_def empty_store_def del: message_row_of_fields(7))
  moreover have "PRUNE_INTERVAL \<le> ce_now (net_env.truncate sample_air) - dm_last_prune old_daemon" "ce_now (net_env.truncate sample_air) = 7300"
    by (simp_all add: PRUNE_INTERVAL_def old_daemon_def idle_daemon_def sample_air_def net_env.defs hub_env.defs sample_env_def)
  moreover have "m_time ?r = - 1000000"
    by simp
  moreover have "retention_epochs (federation_cfg default_config) * epoch_seconds (federation_cfg default_config) = 604800"
    by (simp add: default_config_def default_federation_def)
  ultimately show ?thesis
    using turn_prunes [OF ok, where h = "[42]" and cfg = default_config and uniform = id and env = "net_env.truncate sample_air" and r = ?r] get_message_has [of "[42]" "dm_store old_daemon"] by (simp add: outdated_def prune_due_def)
qed

end
