(* ===== verification/Local_Testnet.thy ===== *)
theory Local_Testnet
  imports Supervision
begin

text \<open>
  The test network of \<open>tools/local_testnet.py\<close>: the configurations it writes, a hub from its arguments
  to its shutdown, and a client that looks for a group. Paths are joined by the \<open>bo_path_join\<close> of the
  environment; \<open>base\<close> is the directory \<open>BASE\<close>, \<open>level\<close> is \<open>LOGLEVEL\<close>, and the argument parser is a parameter.
\<close>

section \<open>The configuration of Reticulum\<close>

definition line :: "string \<Rightarrow> string" where
  "line text = text @ NEWLINE"

definition SERVER_INTERFACE :: "int \<Rightarrow> string" where
  "SERVER_INTERFACE port = concat (map line
     ['''', ''  [[TCPServer]]'', ''    type = TCPServerInterface'', ''    interface_enabled = True'',
      ''    listen_ip = 127.0.0.1'', ''    listen_port = '' @ show_int port])"

definition CLIENT_INTERFACE :: "int \<Rightarrow> string" where
  "CLIENT_INTERFACE port = concat (map line
     ['''', ''  [[TCPClient'' @ show_int port @ '']]'', ''    type = TCPClientInterface'', ''    interface_enabled = True'',
      ''    target_host = 127.0.0.1'', ''    target_port = '' @ show_int port])"

definition CONFIG_TEMPLATE :: "string \<Rightarrow> string \<Rightarrow> int \<Rightarrow> string \<Rightarrow> string" where
  "CONFIG_TEMPLATE transport name level interfaces = concat (map line
     ['''', ''[reticulum]'', ''  enable_transport = '' @ transport, ''  share_instance = No'', ''  instance_name = '' @ name,
      '''', ''[logging]'', ''  loglevel = '' @ show_int level, '''', ''[interfaces]'', interfaces])"

text \<open>\<open>if port\<close> is false for port 0, too.\<close>

definition interfaces :: "int option \<Rightarrow> int list \<Rightarrow> string" where
  "interfaces port connect =
     (case port of None \<Rightarrow> '''' | Some p \<Rightarrow> if p = 0 then '''' else SERVER_INTERFACE p) @ concat (map CLIENT_INTERFACE connect)"

definition write_reticulum_config ::
    "boot_env \<Rightarrow> string \<Rightarrow> int \<Rightarrow> string \<Rightarrow> int option \<Rightarrow> int list \<Rightarrow> bool \<Rightarrow> files \<Rightarrow> string \<times> files" where
  "write_reticulum_config env base level name port connect transport fs =
     (let join = bo_path_join env;
          config_dir = join (join base name) ''reticulum'';
          contents = CONFIG_TEMPLATE (if transport then ''Yes'' else ''No'') name level (interfaces port connect)
      in (config_dir, fs(join config_dir ''config'' \<mapsto> map of_char contents)))"

section \<open>A hub\<close>

record hub_args =
  ha_name :: string
  ha_port :: "int option"
  ha_connect :: "int list"
  ha_group :: "string option"
  ha_public :: bool
  ha_member :: "string list"
  ha_peer :: "string list"
  ha_operator :: "string list"

definition testnet_data :: "string \<Rightarrow> string \<Rightarrow> int \<Rightarrow> hub_args \<Rightarrow> (pyval \<times> pyval) list" where
  "testnet_data storage config_dir level a =
     [(VStr ''storage_path'', VStr storage), (VStr ''reticulum_config_path'', VStr config_dir),
      (VStr ''hub_name'', VStr (''testnet-'' @ ha_name a)), (VStr ''log_level'', VInt level),
      (VStr ''announce_interval_sec'', VInt 20), (VStr ''announce_jitter_sec'', VInt 0),
      (VStr ''operator_identity'', if ha_operator a = [] then VNone else VList (map VStr (ha_operator a))),
      (VStr ''egress'', VDict [(VStr ''tokens_per_second'', VFloat 1), (VStr ''burst'', VInt 2),
         (VStr ''retry_backoff_sec'', VInt 10)]),
      (VStr ''federation'', VDict [(VStr ''peers'', VList (map VStr (ha_peer a))), (VStr ''sync_interval_sec'', VInt 15),
         (VStr ''epoch_seconds'', VInt 3600), (VStr ''merkle_depth'', VInt 8)])]"

definition group_line :: "(bytes \<Rightarrow> bytes option) \<Rightarrow> group_record \<Rightarrow> store_error + string" where
  "group_line dest_of g =
     (case group_destination_hash dest_of (g_key g) of
        Inl e \<Rightarrow> Inl e
      | Inr h \<Rightarrow> Inr (line (''group '' @ g_id g @ '': '' @ hex h)))"

definition open_group ::
    "hub_config \<Rightarrow> net_env \<Rightarrow> bytes \<Rightarrow> hub_args \<Rightarrow> daemon \<Rightarrow> (store_error + string) \<times> daemon" where
  "open_group cfg env key a dm =
     (case ha_group a of
        None \<Rightarrow> (Inr '''', dm)
      | Some gid \<Rightarrow>
          if gid = '''' \<or> get_group gid (dm_store dm) \<noteq> None then (Inr '''', dm)
          else case hub_create_group cfg env key gid (Some gid) (Some (if ha_public a then ACL_PUBLIC else ACL_INVITE)) dm of
            (Inl e, dm1) \<Rightarrow> (Inl e, dm1)
          | (Inr g, dm1) \<Rightarrow> (group_line (ce_dest_of env) g, dm1))"

text \<open>\<open>bytes.fromhex\<close> raises with the position of the first bad character, which is left out. The column of the
  group does not take \<open>None\<close>.\<close>

definition NOT_HEX :: store_error where
  "NOT_HEX = ValueError ''non-hexadecimal number found in fromhex() arg''"

fun add_members :: "string option \<Rightarrow> string list \<Rightarrow> time \<Rightarrow> store \<Rightarrow> (store_error + unit) \<times> store" where
  "add_members target [] now s = (Inr (), s)"
| "add_members target (m # ms) now s =
     (case from_hex m of
        None \<Rightarrow> (Inl NOT_HEX, s)
      | Some h \<Rightarrow>
          (case target of
             None \<Rightarrow> (Inl IntegrityError, s)
           | Some gid \<Rightarrow> add_members target ms now (add_member gid h ROLE_MEMBER now s)))"

definition endpoint_line :: "string \<Rightarrow> bytes option \<Rightarrow> string" where
  "endpoint_line what h = (case h of None \<Rightarrow> '''' | Some a \<Rightarrow> line (what @ '' endpoint: '' @ hex a))"

text \<open>What \<open>run_hub\<close> does with the started daemon before it supervises it, and what it prints unless it raises; \<open>fed\<close> is the
  address of the federation endpoint, which exists where there is an engine.\<close>

definition furnish ::
    "hub_config \<Rightarrow> net_env \<Rightarrow> bytes \<Rightarrow> bytes option \<Rightarrow> hub_args \<Rightarrow> daemon \<Rightarrow> (store_error + string) \<times> daemon" where
  "furnish cfg env key fed a dm =
     (case open_group cfg env key a dm of
        (Inl e, dm1) \<Rightarrow> (Inl e, dm1)
      | (Inr created, dm1) \<Rightarrow>
          (case add_members (ha_group a) (ha_member a) (ce_now env) (dm_store dm1) of
             (Inl e, s) \<Rightarrow> (Inl e, dm1\<lparr>dm_sched := upd_store (\<lambda>_. s) (dm_sched dm1)\<rparr>)
           | (Inr _, s) \<Rightarrow>
               (case sequence_results (map (group_line (ce_dest_of env)) (list_groups s)) of
                  Inl e \<Rightarrow> (Inl e, dm1\<lparr>dm_sched := upd_store (\<lambda>_. s) (dm_sched dm1)\<rparr>)
                | Inr served \<Rightarrow>
                    (Inr (created @ concat served @ endpoint_line ''federation'' fed @
                       endpoint_line ''control'' (case x_control (dm_sched dm1) of None \<Rightarrow> None | Some c \<Rightarrow> ct_dest c)),
                     dm1\<lparr>dm_sched := upd_store (\<lambda>_. s) (dm_sched dm1)\<rparr>))))"

text \<open>\<open>env1\<close> is the environment while the group is created, \<open>turns\<close> are those of the supervision.\<close>

definition run_hub ::
    "string \<Rightarrow> int \<Rightarrow> boot_env \<Rightarrow> net_env \<Rightarrow> bytes \<Rightarrow> bytes \<Rightarrow> hub_args \<Rightarrow> turn list \<Rightarrow> files \<Rightarrow> store
     \<Rightarrow> outcome \<times> files \<times> store" where
  "run_hub base level env env1 key fed a turns fs s =
     (let join = bo_path_join env;
          (config_dir, fs0) = write_reticulum_config env base level (ha_name a) (ha_port a) (ha_connect a) True fs
      in case from_dict (testnet_data (join (join base (ha_name a)) ''hub'') config_dir level a) of
           Inl e \<Rightarrow> (Uncaught_Store e, fs0, s)
         | Inr c \<Rightarrow>
             (case (hub_config_of c, boot_settings_of env c) of
                (Some cfg, Some bs) \<Rightarrow>
                  (case start cfg env bs fs0 s of
                     (Inl e, fs1, s1) \<Rightarrow> (Uncaught_Store e, fs1, s1)
                   | (Inr (dm, en), fs1, s1) \<Rightarrow>
                       (case furnish cfg env1 key (if en = None then None else Some fed) a dm of
                          (Inl e, dm1) \<Rightarrow> (Uncaught_Store e, fs1, dm_store dm1)
                        | (Inr out, dm1) \<Rightarrow> (Exit 0 out [], fs1, shutdown (supervise cfg turns dm1))))
              | _ \<Rightarrow> (Uncaught_Type, fs0, s)))"

section \<open>A client\<close>

record client_args =
  ca_name :: string
  ca_connect :: "int list"
  ca_send_to :: "string option"
  ca_message :: string

definition PATH_PATIENCE :: real where "PATH_PATIENCE = 30"

text \<open>The wait for the identity of the group: for each look whether it is known, the time, and whether there
  is a path to it. The value is how often a path is requested.\<close>

fun await_path :: "time \<Rightarrow> (bool \<times> time \<times> bool) list \<Rightarrow> nat" where
  "await_path until [] = 0"
| "await_path until ((known, now, path) # looks) =
     (if known \<or> until \<le> now then 0 else (if path then 0 else 1) + await_path until looks)"

text \<open>The identity of a client is written back each time. \<open>None\<close> is a file that RNS cannot load, on which
  \<open>to_file\<close> raises.\<close>

definition client_identity :: "boot_env \<Rightarrow> string \<Rightarrow> files \<Rightarrow> (bytes \<times> bytes) option \<times> files" where
  "client_identity env path fs =
     (let key = (case fs path of Some raw \<Rightarrow> raw | None \<Rightarrow> bo_new_key env path)
      in case bo_dest_of env key of
           None \<Rightarrow> (None, fs)
         | Some own \<Rightarrow> (Some (key, own), fs(path \<mapsto> key)))"

text \<open>\<open>recall\<close> is what \<open>Identity.recall\<close> gives after the wait, \<open>out_dest\<close> the delivery destination of such an
  identity. Beside the outcome: what is handed to the router, and the number of path requests. A client ends
  with an interrupt.\<close>

definition run_client ::
    "string \<Rightarrow> int \<Rightarrow> boot_env \<Rightarrow> (bytes \<Rightarrow> bytes option) \<Rightarrow> (bytes \<Rightarrow> bytes) \<Rightarrow> (bool \<times> time \<times> bool) list \<Rightarrow> client_args
     \<Rightarrow> files \<Rightarrow> outcome \<times> files \<times> (bytes \<times> bytes \<times> string) option \<times> nat" where
  "run_client base level env recall out_dest looks a fs =
     (let join = bo_path_join env;
          storage = join (join base (ca_name a)) ''client'';
          (_, fs0) = write_reticulum_config env base level (ca_name a) None (ca_connect a) False fs;
          tag = ''['' @ ca_name a @ ''] ''
      in case client_identity env (join storage ''identity'') fs0 of
           (None, fs1) \<Rightarrow> (Uncaught_Type, fs1, None, 0)
         | (Some (_, own), fs1) \<Rightarrow>
             let hello = line (''client '' @ ca_name a @ '': '' @ hex own)
             in (case ca_send_to a of
                   None \<Rightarrow> (Exit 0 hello [], fs1, None, 0)
                 | Some text \<Rightarrow>
                     if text = '''' then (Exit 0 hello [], fs1, None, 0)
                     else case from_hex text of
                       None \<Rightarrow> (Uncaught_Store NOT_HEX, fs1, None, 0)
                     | Some h \<Rightarrow>
                         let asked = await_path (bo_now env + PATH_PATIENCE) looks
                         in (case recall h of
                               None \<Rightarrow> (Exit 1 hello (line (tag @ ''no path to group '' @ text)), fs1, None, asked)
                             | Some ident \<Rightarrow>
                                 (Exit 0 (hello @ line (tag @ ''sent: '' @ ca_message a)) [], fs1,
                                  Some (own, out_dest ident, ca_message a), asked))))"

section \<open>What a test network does\<close>

text \<open>The configuration is accepted whatever the arguments are, and differs from the default in what the script
  sets: every key it writes is a setting.\<close>

lemma testnet_strings: "strings_of (map VStr ss) = Some ss"
  by (induction ss) simp_all

lemma testnet_config:
  "\<exists>c. from_dict (testnet_data storage config_dir level a) = Inr c \<and>
     hub_config_of c = Some (default_config\<lparr>hub_name := ''testnet-'' @ ha_name a, announce_interval_sec := 20,
       announce_jitter_sec := 0, operator_identity := ha_operator a,
       egress_cfg := default_egress\<lparr>tokens_per_second := 1, burst := 2, retry_backoff_sec := 10\<rparr>,
       federation_cfg := default_federation\<lparr>peers := ha_peer a, sync_interval_sec := 15\<rparr>\<rparr>) \<and>
     storage_path c = storage"
proof -
  define data where "data = testnet_data storage config_dir level a"
  have c: "\<exists>c. from_dict data = Inr c"
    using build_known(1) [of HubConfig "VDict data"]
    by (cases "from_dict data") (simp_all add: data_def testnet_data_def from_dict_def HubConfig_def EgressConfig_def FederationConfig_def)
  then obtain c where c: "from_dict data = Inr c" ..
  have at: "setting_at ns c = Some (Plain p) \<longleftrightarrow> configured ns HubConfig (Some (VDict data)) = Some (Plain p)" for ns p
    using build_configured c by (simp add: from_dict_def)
  have read: "case_option None (case_setting F (\<lambda>_ _. None)) (setting_at ns c) =
      case_option None (case_setting F (\<lambda>_ _. None)) (configured ns HubConfig (Some (VDict data)))"
    for F :: "pyval \<Rightarrow> 'r option" and ns
    using at [of ns] by (cases "setting_at ns c"; cases "configured ns HubConfig (Some (VDict data))")
      (auto split: setting.split)
  have plain: "str_at [''hub_name''] c = Some (''testnet-'' @ ha_name a)" "real_at [''announce_interval_sec''] c = Some 20"
    "real_at [''announce_jitter_sec''] c = Some 0" "str_at [''default_acl_mode''] c = Some ''invite''"
    "int_at [''author_field''] c = Some 253" "bool_at [''author_prefix_in_content''] c = Some True"
    unfolding typed_defs read by (simp_all add: data_def testnet_data_def HubConfig_def)
  have ops: "strings_at [''operator_identity''] c = Some (ha_operator a)"
    unfolding typed_defs read by (simp add: data_def testnet_data_def HubConfig_def testnet_strings)
  have sections: "egress_of c = Some (default_egress\<lparr>tokens_per_second := 1, burst := 2, retry_backoff_sec := 10\<rparr>)"
    "federation_of c = Some (default_federation\<lparr>peers := ha_peer a, sync_interval_sec := 15\<rparr>)" "failover_of c = Some default_failover"
    unfolding egress_of_def federation_of_def failover_of_def nat_at_def typed_defs read
    by (simp_all add: data_def testnet_data_def HubConfig_def EgressConfig_def FederationConfig_def FailoverConfig_def
        default_egress_def default_federation_def default_failover_def testnet_strings)
  have rest: "bool_at [''directory'', ''enabled''] c = Some True" "real_at [''directory'', ''min_reply_interval_sec''] c = Some 60"
    "bool_at [''commands'', ''enabled''] c = Some True" "real_at [''commands'', ''min_reply_interval_sec''] c = Some 10"
    unfolding typed_defs read
    by (simp_all add: data_def testnet_data_def HubConfig_def DirectoryConfig_def CommandsConfig_def)
  have "setting_at [''storage_path''] c = Some (Plain (VStr storage))"
    unfolding at by (simp add: data_def testnet_data_def HubConfig_def)
  then have "storage_path c = storage"
    by (simp add: storage_path_def)
  moreover have "hub_config_of c = Some (default_config\<lparr>hub_name := ''testnet-'' @ ha_name a, announce_interval_sec := 20,
       announce_jitter_sec := 0, operator_identity := ha_operator a,
       egress_cfg := default_egress\<lparr>tokens_per_second := 1, burst := 2, retry_backoff_sec := 10\<rparr>,
       federation_cfg := default_federation\<lparr>peers := ha_peer a, sync_interval_sec := 15\<rparr>\<rparr>)"
    unfolding hub_config_of_def plain ops sections rest
    by (simp add: default_config_def default_directory_def default_commands_def)
  ultimately show ?thesis
    using c by (simp add: data_def)
qed

text \<open>A hub that comes up serves the group it was asked for under the address it prints, and the members given
  are members.\<close>

lemma add_members_done:
  assumes "add_members target ms now s = (Inr u, s1)"
  shows "list_all (\<lambda>m. \<exists>gid h. target = Some gid \<and> from_hex m = Some h \<and> get_role gid h s1 = Some ROLE_MEMBER) ms \<and>
    (\<forall>gid h. target = Some gid \<longrightarrow> get_role gid h s = Some ROLE_MEMBER \<longrightarrow> get_role gid h s1 = Some ROLE_MEMBER) \<and>
    s_groups s1 = s_groups s"
  using assms
proof (induction ms arbitrary: s)
  case (Cons m ms)
  obtain gid h where g: "target = Some gid" "from_hex m = Some h"
    and r: "add_members target ms now (add_member gid h ROLE_MEMBER now s) = (Inr u, s1)"
    using Cons.prems by (auto split: option.splits)
  have "get_role gid h (add_member gid h ROLE_MEMBER now s) = Some ROLE_MEMBER" "s_groups (add_member gid h ROLE_MEMBER now s) = s_groups s"
    "get_role gid x s = Some ROLE_MEMBER \<longrightarrow> get_role gid x (add_member gid h ROLE_MEMBER now s) = Some ROLE_MEMBER" for x
    by simp_all
  with Cons.IH [OF r] g show ?case
    by simp
qed simp

theorem testnet_serves:
  assumes "furnish cfg env key fed a dm = (Inr out, dm1)" and "ha_group a = Some gid" and "gid \<noteq> ''''"
    and "destinations_ok (dm_dests dm)" and "get_group gid (dm_store dm) = None" and "destination_for gid (dm_dests dm) = None"
    and "\<And>h. ce_dest_of env key = Some h \<Longrightarrow> group_for_hash h (dm_dests dm) = None"
  shows "\<exists>h rest. ce_dest_of env key = Some h \<and> destination_for gid (dm_dests dm1) = Some h \<and> destinations_ok (dm_dests dm1) \<and>
    out = line (''group '' @ gid @ '': '' @ hex h) @ rest \<and>
    list_all (\<lambda>m. \<exists>u. from_hex m = Some u \<and> get_role gid u (dm_store dm1) = Some ROLE_MEMBER) (ha_member a)"
proof -
  obtain created dm2 where o: "open_group cfg env key a dm = (Inr created, dm2)"
    using assms(1) by (auto simp: furnish_def split: prod.splits sum.splits)
  from assms(1) obtain u s where m: "add_members (Some gid) (ha_member a) (ce_now env) (dm_store dm2) = (Inr u, s)"
    and out: "\<exists>rest. out = created @ rest" and dm1: "dm1 = dm2\<lparr>dm_sched := upd_store (\<lambda>_. s) (dm_sched dm2)\<rparr>"
    by (auto simp: furnish_def o assms(2) split: prod.splits sum.splits)
  from o obtain g where c: "hub_create_group cfg env key gid (Some gid) (Some (if ha_public a then ACL_PUBLIC else ACL_INVITE)) dm = (Inr g, dm2)"
    and l: "group_line (ce_dest_of env) g = Inr created"
    by (auto simp: open_group_def assms(2,3,5) split: prod.splits sum.splits)
  note served = created_group_is_served [OF c assms(4,6,7)]
  have k: "g_key g = key"
    using c by (auto simp: hub_create_group_def Let_def dest: create_group_row(2) split: sum.splits prod.splits)
  obtain h where h: "ce_dest_of env key = Some h" "destination_for gid (dm_dests dm2) = Some h"
    using served(1) by blast
  have "created = line (''group '' @ gid @ '': '' @ hex h)"
    using l k h served(3) by (simp add: group_line_def group_destination_hash_def)
  moreover have "dm_dests dm1 = dm_dests dm2" "dm_store dm1 = s"
    by (simp_all add: dm1 dm_store_def x_store_def upd_store_def)
  ultimately show ?thesis
    using h served(2) out add_members_done [OF m] by (auto simp: list_all_iff)
qed

text \<open>The looks of a client are a second apart or more, so it asks for a path at most thirty times.\<close>

fun paced :: "time \<Rightarrow> (bool \<times> time \<times> bool) list \<Rightarrow> bool" where
  "paced now [] \<longleftrightarrow> True"
| "paced now ((known, t, path) # looks) \<longleftrightarrow> now \<le> t \<and> paced (t + 1) looks"

lemma await_path_within:
  "paced now looks \<Longrightarrow> await_path until looks \<le> nat \<lceil>until - now\<rceil>"
proof (induction looks arbitrary: now)
  case (Cons l looks)
  obtain known t path where l: "l = (known, t, path)"
    by (cases l)
  show ?case
  proof (cases "known \<or> until \<le> t")
    case False
    then have "await_path until looks \<le> nat \<lceil>until - (t + 1)\<rceil>"
      using Cons l by simp
    moreover have "Suc (nat \<lceil>until - (t + 1)\<rceil>) \<le> nat \<lceil>until - now\<rceil>"
      using False Cons.prems l by (simp add: Suc_nat_eq_nat_zadd1) linarith
    ultimately show ?thesis
      using False l by simp
  qed (simp add: l)
qed simp

lemma client_asks_thirty_times:
  assumes "paced (bo_now env) looks"
  shows "snd (snd (snd (run_client base level env recall out_dest looks a fs))) \<le> 30"
  using await_path_within [OF assms, of "bo_now env + PATH_PATIENCE"]
  by (simp add: run_client_def Let_def PATH_PATIENCE_def split: prod.split option.split)

end
