(* ===== verification/Spec2Isabelle.thy ===== *)
theory Spec2Isabelle
  imports Hub_Properties Store_Properties Federation_Properties Egress_Interleaving Persona_Properties
    Member_Properties Failover_Properties System_Properties Startup_Properties Interleaving_Properties Wire_Properties
    Command_Line_Properties Supervision Local_Testnet
begin

text \<open>
  A model of the LXMF group hub, \<open>src/lxmf_hub/\<close>, and what makes it correct.

  A hub hosts groups. Each group has an RNS identity of its own, so a client that writes to a group
  writes to a destination of the hub; the hub checks who wrote, stores the message and reflects a copy
  to every other member through a durable queue that a rate-limited scheduler drains. Hubs that host
  the same groups federate: they compare Merkle trees of their message logs epoch by epoch, fetch
  what they lack, and gossip whom they serve, so that one hub can serve the members of another that
  has fallen silent. Members link several devices to one persona with a unique username. Everything
  that must survive a crash is in one SQLite database.

  \<^bold>\<open>Theories and sources.\<close> Shared vocabulary: \<open>Hub_Prelude\<close> (bytes, the SQL statements on tables as lists
  of rows with a key), \<open>Python_Values\<close> (dynamic values, string methods, hexadecimal text).

  \<^item> \<open>store.py\<close>: \<open>Queues\<close> holds the bookkeeping that the four queue tables share, \<open>Store_State\<close> the rows
    of all tables, the record \<open>store\<close> and its invariant \<open>store_ok\<close>; the methods are in
    \<open>Store_Groups\<close>, \<open>Store_Messages\<close> (with the transaction statement by statement), \<open>Store_Queues\<close>,
    \<open>Store_Peers\<close> and \<open>Store_Personas\<close>. \<open>crypto.py\<close> and the framing of encrypted columns: \<open>At_Rest\<close>.
  \<^item> \<open>merkle.py\<close>: \<open>Merkle\<close>. \<open>personas.py\<close>: \<open>Personas\<close>, facts in \<open>Persona_Facts\<close>. \<open>config.py\<close>: \<open>Config\<close>
    (typed sections, defaults, hashes) and \<open>Settings\<close> (building a configuration from a file).
  \<^item> \<open>destinations.py\<close>: \<open>Destinations\<close>. \<open>hub.py\<close>: \<open>Hub_Core\<close>, facts in \<open>Hub_Facts\<close>. \<open>usercmds.py\<close>:
    \<open>User_Commands\<close>, facts in \<open>Command_Facts\<close>. \<open>admin.py\<close> and \<open>aliases.py\<close>: \<open>Admin\<close>, and
    \<open>Command_Line\<close> for \<open>build_parser\<close> and what \<open>shlex\<close> and \<open>argparse\<close> make of a line. \<open>control.py\<close>: \<open>Control\<close>. \<open>directory.py\<close>: \<open>Directory\<close>. \<open>failover.py\<close>: \<open>Failover\<close>. \<open>tickets.py\<close>: \<open>Tickets\<close>.
  \<^item> \<open>egress.py\<close>: \<open>Token_Bucket\<close> and \<open>Egress\<close>, facts in \<open>Egress_Facts\<close>, runs in \<open>Egress_Runs\<close>, and cut
    between the rows of a batch in \<open>Egress_Interleaving\<close>.
    \<open>federation.py\<close>: \<open>Federation\<close> has both sides of a sync round, facts in \<open>Federation_Facts\<close>;
    \<open>Wire\<close> has the Python values that travel and how each side takes them apart, facts in \<open>Wire_Facts\<close>.
  \<^item> \<open>daemon.py\<close>: \<open>Daemon\<close> (deliveries, one turn of supervision), \<open>Supervision\<close> (a daemon from start to
    shutdown) and, with \<open>cli.py\<close>, \<open>Startup\<close>. \<open>System\<close> composes
    everything to the relation \<open>reachable\<close>; \<open>Interleaving\<close> has the writing methods of \<open>Store\<close> as a relation
    and cuts handlers at their reads and writes; \<open>Write_Runs\<close> shows that every handler is a run of them.
  \<^item> \<open>tools/local_testnet.py\<close>: \<open>Local_Testnet\<close>, the configurations, hubs and clients of the test network, with the
    proof that its configuration is accepted and that a hub serves the group it is asked for.

  \<^bold>\<open>How the code is modelled.\<close> Operations pass the state explicitly. A method that raises returns a sum with
  the exception on the left, and the state it leaves behind where it had already written. A \<open>bytes\<close> is
  a list of 8-bit words, a \<open>str\<close> an ASCII string, a \<open>float\<close> a real, an \<open>int\<close> an integer; an operation
  reads the clock once and is given the time. A query without \<open>ORDER BY\<close> returns rows in the order of
  insertion. Tables hold the decoded columns; \<open>At_Rest.decode_encode\<close> is why that is no loss. RNS, LXMF,
  msgpack, SHA-256, HKDF, the token construct, \<open>struct\<close>, JSON, the texts \<open>argparse\<close> prints and random choices
  are parameters (the fields of \<open>hub_env\<close>, \<open>net_env\<close>, \<open>air_env\<close>, \<open>fed_env\<close>, \<open>crypto_env\<close> and
  \<open>boot_env\<close>); what a theorem needs of them it states as a hypothesis, such as \<open>token_law\<close> or that
  SHA-256 has no collision among the inputs at hand, and its witness supplies functions that satisfy it.

  \<^bold>\<open>Interfaces.\<close> \<open>durable_queue\<close> is what the scheduler relies on of a queue table, interpreted on the four of
  them; \<open>dedup_sink\<close> is what both ingest paths rely on of the log; \<open>set_summary\<close> is what the walk relies
  on of a tree of hashes; \<open>lww_register\<close> is what the merge of device rows relies on; \<open>row_sender\<close> is what
  the paced drain relies on of a send; \<open>legible_peer\<close> is what a client relies on of the values a peer
  sends; \<open>round_relation\<close> carries a relation on databases through a whole
  sync round, whatever the peer answers: that no harm is done, and that only writing methods were called.

  \<^bold>\<open>What is shown.\<close>

  \<^item> \<open>Hub_Properties\<close>, \<open>Store_Properties\<close>: who receives a message, who does not, that a reflection names
    its verified author, that ingest is exactly once, and that storing and queueing is atomic.
  \<^item> \<open>Mailbox\<close>, \<open>System_Properties\<close>: the log and the delivery queue refine an abstract mailbox of known
    messages and owed deliveries; every reachable database is well-formed; a message that does not
    verify changes nothing at any destination but the list of held messages; encrypted columns read back.
  \<^item> \<open>Convergence\<close>, \<open>Sync_Round\<close>, \<open>Federation_Properties\<close>: a round between two hubs that run this code
    brings exactly the common messages of both retention windows (\<open>Convergence\<close> has the walk, \<open>Sync_Round\<close>
    the other exchanges); \<open>Federation_Safety\<close>: whatever a peer answers, nothing is lost and no group,
    role or notice changes. \<open>Wire_Properties\<close>: a round over Python values is the round over typed ones, and
    what answers that cannot be taken apart do.
  \<^item> \<open>Egress_Properties\<close>: the rate on air, the number of attempts, and that no row is sent twice while
    it is in flight, over any run of the scheduler; what an exception in a tick costs. \<open>Egress_Interleaving\<close>: the
    number of attempts with callbacks and other threads between the rows of a batch, and that a delivery
    confirmed in between is sent again.
  \<^item> \<open>Failover_Properties\<close>: what one check decides, that an outage is covered, that nobody is adopted
    without evidence, and that a second look changes nothing.
  \<^item> \<open>Persona_Properties\<close>, \<open>Member_Properties\<close>, \<open>Interleaving_Properties\<close>: usernames, link codes and
    devices, also between hubs and under interleaving; which commands change a role, and who is answered;
    that everything done to the database is a run of its writing methods, and that a message arriving twice
    at once is stored once.
  \<^item> \<open>Startup_Properties\<close>: what a configuration file decides, what a started daemon serves, and that a
    failed command leaves the tables alone. \<open>Supervision\<close>: a group created beside a
    running daemon is served without a restart, and housekeeping deletes exactly what has expired. \<open>Command_Line_Properties\<close>: every command can be given over the
    operator channel, and a line means no other command than the one it names.

  \<open>Sample\<close> and the small stores of the property theories are concrete hubs on which the hypotheses of the
  theorems are shown to hold together.

  \<^bold>\<open>Bounds.\<close> No fuel is used: the loops recurse on their data. The walk of a tree of depth at most 10 never
  exceeds the 1024 nodes of a request, which is the bound of the convergence theorems; depths above that
  are modelled, truncation included, and not claimed to converge in one round. Convergence further
  assumes that both hubs have the same epoch length and depth and that no retention window starts inside
  the round.

  \<^bold>\<open>Not modelled.\<close> Logging. The threads themselves: a handler runs as one step in \<open>System\<close>, and
  \<open>Interleaving\<close> cuts only claims, unlinks and the storing of messages (\<open>Egress_Interleaving\<close> the batch of
  the delivery queue), over every writing method of the
  store but \<open>enqueue_egress\<close>, which only the uncalled \<open>fan_out\<close> uses. What RNS and LXMF do
  with a message that was handed to the router, beyond the two callbacks; stamps, ratchets and links.
  Characters outside ASCII, so case folding and smart quotes are the identity there. Rounding of floats,
  numbers that are not finite, and epochs and indices on the wire that are not integers.
  What stops a thread: a signal only ends the list of turns in \<open>Supervision\<close>. The argument parser of the test
  network, and what its clients receive.
\<close>

end
